(* ===== verification/Prelude.thy ===== *)
theory Prelude
  imports Main "HOL-Library.AList" "HOL-Library.Word" "HOL-Library.Multiset"
    "HOL-Library.Char_ord" "HOL-Library.List_Lexorder" "HOL-Library.Product_Lexorder"
begin

text \<open>
  Shared vocabulary of the development: names of the identifier types of
  \<^verbatim>\<open>internal/assignment/ids.go\<close>, Go maps that the program iterates over as
  association lists, the signed 64-bit wrap-around, and the generic facts on
  sums over lists and association lists that the component theories use.

  A Go map that is only indexed is a HOL map.  A Go map that is ranged over is
  an association list with distinct keys: its order stands for the iteration
  order, which Go leaves open, and every theorem holds for all such lists.
\<close>

section \<open>Identifiers\<close>

type_synonym tier_id = string
type_synonym binding_key = string
type_synonym attempt_id = string
type_synonym delivery_id = int
type_synonym binding_id = int
type_synonym intent_id = int
type_synonym workload_key = string
type_synonym instance_id = string
type_synonym lease_id = string
type_synonym time = int

section \<open>Go maps that are ranged over\<close>

type_synonym ('k, 'v) gomap = "('k \<times> 'v) list"

abbreviation keys :: "('k, 'v) gomap \<Rightarrow> 'k list"
  where "keys m \<equiv> map fst m"

section \<open>Machine integers\<close>

text \<open>The value an \<^verbatim>\<open>int64\<close> holds after an operation whose exact result is the argument.\<close>

definition i64 :: "int \<Rightarrow> int"
  where "i64 x = (x + 2 ^ 63) mod 2 ^ 64 - 2 ^ 63"

text \<open>Go's integer division truncates towards zero.\<close>

definition go_quot :: "int \<Rightarrow> int \<Rightarrow> int"
  where "go_quot a b = (if (a < 0) \<noteq> (b < 0) then - (\<bar>a\<bar> div \<bar>b\<bar>) else \<bar>a\<bar> div \<bar>b\<bar>)"

lemma i64_id [simp]: "- (2 ^ 63) \<le> x \<Longrightarrow> x < 2 ^ 63 \<Longrightarrow> i64 x = x"
  by (simp add: i64_def)

lemma i64_range: "- (2 ^ 63) \<le> i64 x" "i64 x < 2 ^ 63"
  by (simp_all add: i64_def pos_mod_bound [of "2 ^ 64", simplified] algebra_simps)

lemma go_quot_nonneg [simp]: "0 \<le> a \<Longrightarrow> 0 < b \<Longrightarrow> go_quot a b = a div b"
  by (simp add: go_quot_def)

section \<open>Sums over lists and association lists\<close>

lemma sum_list_map_upd:
  fixes f :: "'k \<Rightarrow> int"
  assumes "distinct xs" "k \<in> set xs" "\<And>x. x \<noteq> k \<Longrightarrow> g x = f x"
  shows "sum_list (map g xs) = sum_list (map f xs) - f k + g k"
  using assms
proof (induction xs)
  case (Cons x xs)
  show ?case
  proof (cases "x = k")
    case True
    with Cons.prems have "k \<notin> set xs" by simp
    then have "\<And>x. x \<in> set xs \<Longrightarrow> g x = f x" using Cons.prems(3) by metis
    then have "map g xs = map f xs" by simp
    with True show ?thesis by (simp del: map_eq_conv)
  next
    case False
    with Cons show ?thesis by simp
  qed
qed simp

lemma sum_list_update_present:
  fixes f :: "'k \<times> 'v \<Rightarrow> int"
  assumes "distinct (keys m)" "map_of m k = Some old"
  shows "sum_list (map f (AList.update k v m)) = sum_list (map f m) - f (k, old) + f (k, v)"
  using assms by (induction m) (auto split: if_splits)

lemma sum_list_update_absent:
  fixes f :: "'k \<times> 'v \<Rightarrow> int"
  assumes "k \<notin> set (keys m)"
  shows "sum_list (map f (AList.update k v m)) = sum_list (map f m) + f (k, v)"
  using assms by (induction m) auto

lemma in_set_update:
  "distinct (keys m) \<Longrightarrow>
    (k', v') \<in> set (AList.update k v m) \<longleftrightarrow> (if k' = k then v' = v else (k', v') \<in> set m)"
  by (metis distinct_update fun_upd_apply map_of_eq_Some_iff option.inject update_conv')

lemma sum_list_nonneg_int:
  fixes xs :: "int list"
  assumes "\<And>x. x \<in> set xs \<Longrightarrow> 0 \<le> x"
  shows "0 \<le> sum_list xs"
  using assms by (induction xs) auto

lemma member_le_sum_list_int:
  fixes f :: "'a \<Rightarrow> int"
  assumes "\<And>x. x \<in> set xs \<Longrightarrow> 0 \<le> f x" "x \<in> set xs"
  shows "f x \<le> sum_list (map f xs)"
  using assms
proof (induction xs)
  case (Cons y ys)
  have "0 \<le> sum_list (map f ys)" by (rule sum_list_nonneg_int) (use Cons.prems in auto)
  with Cons show ?case by (cases "x = y") force+
qed simp

lemma sum_list_le_pointwise:
  fixes f g :: "'a \<Rightarrow> int"
  assumes "\<And>x. x \<in> set xs \<Longrightarrow> f x \<le> g x"
  shows "sum_list (map f xs) \<le> sum_list (map g xs)"
  using assms by (induction xs) (auto intro: add_mono)

section \<open>Decimal rendering\<close>

text \<open>The verb \<^verbatim>\<open>%d\<close> of \<^verbatim>\<open>fmt.Sprintf\<close>.\<close>

fun decimal_nat :: "nat \<Rightarrow> string"
  where "decimal_nat n =
    (if n < 10 then [char_of (48 + n)] else decimal_nat (n div 10) @ [char_of (48 + n mod 10)])"

declare decimal_nat.simps [simp del]

definition decimal :: "int \<Rightarrow> string"
  where "decimal i = (if i < 0 then CHR ''-'' # decimal_nat (nat (- i)) else decimal_nat (nat i))"

definition read_nat :: "string \<Rightarrow> nat"
  where "read_nat s = foldl (\<lambda>n c. n * 10 + (of_char c - 48)) 0 s"

definition is_digit :: "char \<Rightarrow> bool"
  where "is_digit c \<longleftrightarrow> 48 \<le> (of_char c :: nat) \<and> (of_char c :: nat) < 58"

lemma of_char_digit: "d < 10 \<Longrightarrow> (of_char (char_of (48 + d) :: char) :: nat) = 48 + d"
  by simp

lemma decimal_nat_digits: "list_all is_digit (decimal_nat n)"
proof (induction n rule: decimal_nat.induct)
  case (1 n)
  show ?case
  proof (cases "n < 10")
    case True
    then show ?thesis by (simp add: decimal_nat.simps is_digit_def of_char_digit)
  next
    case False
    have "is_digit (char_of (48 + n mod 10))" by (simp add: is_digit_def of_char_digit)
    with 1 False show ?thesis by (subst decimal_nat.simps) simp
  qed
qed

lemma decimal_nat_nonempty [simp]: "decimal_nat n \<noteq> []"
  by (subst decimal_nat.simps) simp

lemma read_decimal_nat [simp]: "read_nat (decimal_nat n) = n"
proof (induction n rule: decimal_nat.induct)
  case (1 n)
  show ?case
  proof (cases "n < 10")
    case True
    then show ?thesis by (simp add: decimal_nat.simps read_nat_def of_char_digit)
  next
    case False
    have "read_nat (decimal_nat n) = read_nat (decimal_nat (n div 10)) * 10 + n mod 10"
      using False by (subst decimal_nat.simps) (simp add: read_nat_def of_char_digit)
    then show ?thesis using 1 False by simp
  qed
qed

lemma decimal_nat_inject [simp]: "decimal_nat m = decimal_nat n \<longleftrightarrow> m = n"
  by (metis read_decimal_nat)

lemma digit_not_special: "is_digit c \<Longrightarrow> c \<noteq> CHR ''-'' \<and> c \<noteq> CHR ''|'' \<and> c \<noteq> CHR '':''"
  by (auto simp: is_digit_def)

lemma decimal_no_bar: "CHR ''|'' \<notin> set (decimal i)"
  using decimal_nat_digits digit_not_special by (auto simp: decimal_def list_all_iff)

lemma decimal_inject [simp]: "decimal i = decimal j \<longleftrightarrow> i = j"
proof -
  have "CHR ''-'' # decimal_nat m \<noteq> decimal_nat n" for m n
    using decimal_nat_digits [of n] digit_not_special by (cases "decimal_nat n") auto
  then show ?thesis by (auto simp: decimal_def dest: sym)
qed

text \<open>A separator that does not occur in the first part splits a string uniquely.\<close>

lemma append_sep_inject:
  assumes "c \<notin> set xs" "c \<notin> set xs'" "xs @ c # ys = xs' @ c # ys'"
  shows "xs = xs' \<and> ys = ys'"
  using assms by (induction xs arbitrary: xs') (auto simp: Cons_eq_append_conv append_eq_Cons_conv)

end
