(* ===== verification/Waterfill.thy ===== *)
theory Waterfill
  imports Prelude
begin

text \<open>
  The pure part of \<^verbatim>\<open>internal/allocator/plan.go\<close>: candidates for free credits,
  the credits a water level costs, the binary search for a level, and
  \<^verbatim>\<open>waterFill\<close>.  The lemmas show that the search finds the highest affordable
  level, that a fill spends exactly the smaller of its budget and the headroom
  below the level limit, stays between floor and ceiling, is max-min fair, and
  visits O(B log P) candidates.
\<close>

section \<open>Candidates\<close>

record allocation_candidate =
  ac_key :: binding_key
  ac_floor :: int
  ac_ceiling :: int

definition highestCeiling :: "allocation_candidate list \<Rightarrow> int"
  where "highestCeiling cs = fold (\<lambda>c highest. if ac_ceiling c > highest then ac_ceiling c else highest) cs 0"

section \<open>The cost of a level\<close>

fun creditsAtLevel_loop :: "allocation_candidate list \<Rightarrow> int \<Rightarrow> int \<Rightarrow> int \<Rightarrow> int \<Rightarrow> int \<times> int"
  where
    "creditsAtLevel_loop [] level stopAfter used index = (used, index)"
  | "creditsAtLevel_loop (c # cs) level stopAfter used index =
      (let target = (if ac_ceiling c > level then level else ac_ceiling c);
           used' = (if target > ac_floor c then used + (target - ac_floor c) else used)
       in if used' > stopAfter then (used', index + 1)
          else creditsAtLevel_loop cs level stopAfter used' (index + 1))"

definition creditsAtLevel :: "allocation_candidate list \<Rightarrow> int \<Rightarrow> int \<Rightarrow> int \<times> int"
  where "creditsAtLevel cs level stopAfter = creditsAtLevel_loop cs level stopAfter 0 0"

section \<open>The search for a level\<close>

text \<open>
  The loop \<^verbatim>\<open>for low < high\<close> of \<^verbatim>\<open>waterFill\<close> and of \<^verbatim>\<open>allocateGlobal\<close>.  The probe
  answers the credits a level costs and how many candidates it inspected.
\<close>

function level_search ::
  "(int \<Rightarrow> int \<times> int) \<Rightarrow> int \<Rightarrow> int \<Rightarrow> int \<Rightarrow> int \<Rightarrow> int \<times> int"
  where
    "level_search probe budget low high visits =
      (if low < high then
         (let middle = low + (high - low + 1) div 2;
              used = fst (probe middle);
              count = snd (probe middle)
          in if used \<le> budget then level_search probe budget middle high (visits + count)
             else level_search probe budget low (middle - 1) (visits + count))
       else (low, visits))"
  by pat_completeness auto
termination
  by (relation "measure (\<lambda>(probe, budget, low, high, visits). nat (high - low))") auto

declare level_search.simps [simp del]

section \<open>Water filling\<close>

definition clip :: "int \<Rightarrow> allocation_candidate \<Rightarrow> int"
  where "clip levelLimit c = (if ac_ceiling c > levelLimit then levelLimit else ac_ceiling c)"

definition minimum_level :: "allocation_candidate list \<Rightarrow> int"
  where "minimum_level cs =
    fold (\<lambda>c m. if ac_floor c < m then ac_floor c else m) cs (ac_floor (hd cs))"

definition maximum_level :: "allocation_candidate list \<Rightarrow> int \<Rightarrow> int"
  where "maximum_level cs levelLimit =
    fold (\<lambda>c m. if clip levelLimit c > m then clip levelLimit c else m) cs 0"

definition fill_target :: "int \<Rightarrow> int \<Rightarrow> allocation_candidate \<Rightarrow> int"
  where "fill_target levelLimit level c =
    (let target = clip levelLimit c;
         target = (if target > level then level else target)
     in if target < ac_floor c then ac_floor c else target)"

text \<open>The last loop: one further credit each, in order, while credits remain.\<close>

fun fill_remainder ::
  "int \<Rightarrow> int \<Rightarrow> allocation_candidate list \<Rightarrow> int list \<Rightarrow> int \<Rightarrow> int \<Rightarrow> int list \<times> int"
  where
    "fill_remainder levelLimit level (c # cs) (cap # caps) remaining used =
      (if remaining = 0 then (cap # caps, used)
       else if cap = level \<and> cap < clip levelLimit c then
         (let (caps', used') = fill_remainder levelLimit level cs caps (remaining - 1) (used + 1)
          in ((cap + 1) # caps', used'))
       else
         (let (caps', used') = fill_remainder levelLimit level cs caps remaining used
          in (cap # caps', used')))"
  | "fill_remainder levelLimit level cs caps remaining used = (caps, used)"

definition waterFill :: "allocation_candidate list \<Rightarrow> int \<Rightarrow> int \<Rightarrow> int list \<times> int \<times> int"
  where "waterFill cs budget levelLimit =
    (let n = int (length cs) in
     if cs = [] \<or> budget \<le> 0 then (map (\<lambda>_. 0) cs, 0, n)
     else
       (let minimumLevel = minimum_level cs;
            maximumLevel = maximum_level cs levelLimit
        in if maximumLevel < minimumLevel then (map ac_floor cs, 0, n)
           else
             (let (usedAtLimit, inspected) = creditsAtLevel cs maximumLevel budget;
                  (level, visits) =
                    (if usedAtLimit \<ge> budget
                     then level_search (\<lambda>middle. creditsAtLevel cs middle budget) budget
                            minimumLevel maximumLevel (n + inspected)
                     else (maximumLevel, n + inspected));
                  targets = map (fill_target levelLimit level) cs;
                  used = sum_list (map (\<lambda>c. fill_target levelLimit level c - ac_floor c) cs);
                  (capacities, used') = fill_remainder levelLimit level cs targets (budget - used) used
              in (capacities, used', visits + n + n))))"

section \<open>What a level costs\<close>

definition need :: "int \<Rightarrow> allocation_candidate \<Rightarrow> int"
  where "need level c = max 0 (min (ac_ceiling c) level - ac_floor c)"

definition headroom :: "allocation_candidate list \<Rightarrow> int \<Rightarrow> int"
  where "headroom cs level = sum_list (map (need level) cs)"

lemma need_nonneg [simp]: "0 \<le> need level c"
  by (simp add: need_def)

lemma headroom_nonneg [simp]: "0 \<le> headroom cs level"
  unfolding headroom_def by (rule sum_list_nonneg_int) auto

lemma headroom_Cons [simp]: "headroom (c # cs) level = need level c + headroom cs level"
  by (simp add: headroom_def)

lemma headroom_Nil [simp]: "headroom [] level = 0"
  by (simp add: headroom_def)

lemma headroom_mono: "l \<le> l' \<Longrightarrow> headroom cs l \<le> headroom cs l'"
  unfolding headroom_def by (rule sum_list_le_pointwise) (auto simp: need_def)

lemma creditsAtLevel_loop_spec:
  "(if used + headroom cs level \<le> stop
    then creditsAtLevel_loop cs level stop used index = (used + headroom cs level, index + int (length cs))
    else fst (creditsAtLevel_loop cs level stop used index) > stop) \<and>
   index \<le> snd (creditsAtLevel_loop cs level stop used index) \<and>
   snd (creditsAtLevel_loop cs level stop used index) \<le> index + int (length cs)"
proof (induction cs arbitrary: used index)
  case (Cons c cs)
  define used' where "used' = used + need level c"
  have step: "creditsAtLevel_loop (c # cs) level stop used index =
      (if used' > stop then (used', index + 1)
       else creditsAtLevel_loop cs level stop used' (index + 1))"
    by (auto simp: used'_def need_def Let_def)
  show ?case
  proof (cases "used' > stop")
    case True
    moreover have "used + headroom (c # cs) level > stop"
      using True headroom_nonneg [of cs level] unfolding used'_def headroom_Cons by linarith
    ultimately show ?thesis unfolding step by (simp del: headroom_Cons)
  next
    case False
    with Cons.IH [of used' "index + 1"] show ?thesis
      unfolding step by (auto simp: used'_def add.assoc split: if_splits)
  qed
qed auto

lemma creditsAtLevel_le_iff: "fst (creditsAtLevel cs level stop) \<le> stop \<longleftrightarrow> headroom cs level \<le> stop"
  using creditsAtLevel_loop_spec [of 0 cs level stop 0]
  by (auto simp: creditsAtLevel_def split: if_splits)

lemma creditsAtLevel_exact: "headroom cs level \<le> stop \<Longrightarrow> creditsAtLevel cs level stop = (headroom cs level, int (length cs))"
  using creditsAtLevel_loop_spec [of 0 cs level stop 0]
  by (auto simp: creditsAtLevel_def split: if_splits)

lemma creditsAtLevel_above: "headroom cs level > stop \<Longrightarrow> fst (creditsAtLevel cs level stop) > stop"
  using creditsAtLevel_le_iff [of cs level stop] by linarith

lemma creditsAtLevel_visits: "0 \<le> snd (creditsAtLevel cs level stop)" "snd (creditsAtLevel cs level stop) \<le> int (length cs)"
  using creditsAtLevel_loop_spec [of 0 cs level stop 0] by (auto simp: creditsAtLevel_def)

section \<open>The search\<close>

lemma level_search_spec:
  assumes "low \<le> high" "fst (probe low) \<le> budget"
    and "\<forall>l l'. l \<le> l' \<longrightarrow> fst (probe l') \<le> budget \<longrightarrow> fst (probe l) \<le> budget"
    and "level_search probe budget low high visits = (level, visits')"
  shows "low \<le> level \<and> level \<le> high \<and> fst (probe level) \<le> budget \<and>
     (level < high \<longrightarrow> budget < fst (probe (level + 1)))"
  using assms
proof (induction probe budget low high visits rule: level_search.induct)
  case (1 probe budget low high visits)
  define middle where "middle = low + (high - low + 1) div 2"
  show ?case
  proof (cases "low < high")
    case False
    with "1.prems" show ?thesis by (simp add: level_search.simps)
  next
    case True
    then have range: "low < middle" "middle \<le> high" by (auto simp: middle_def)
    show ?thesis
    proof (cases "fst (probe middle) \<le> budget")
      case affordable: True
      then have "level_search probe budget middle high (visits + snd (probe middle)) = (level, visits')"
        using "1.prems"(4) True by (simp add: level_search.simps [of probe budget low] middle_def Let_def)
      from "1.IH"(1) [OF True middle_def refl refl affordable range(2) affordable "1.prems"(3) this]
      show ?thesis using range by auto
    next
      case dear: False
      then have "level_search probe budget low (middle - 1) (visits + snd (probe middle)) = (level, visits')"
        using "1.prems"(4) True by (simp add: level_search.simps [of probe budget low] middle_def Let_def)
      from "1.IH"(2) [OF True middle_def refl refl dear _ "1.prems"(2,3) this]
      have ih: "low \<le> level \<and> level \<le> middle - 1 \<and> fst (probe level) \<le> budget \<and>
          (level < middle - 1 \<longrightarrow> budget < fst (probe (level + 1)))"
        using range by simp
      then have "budget < fst (probe (level + 1))" using dear by (cases "level = middle - 1") auto
      with ih range show ?thesis by auto
    qed
  qed
qed

lemma level_search_visits:
  assumes "\<And>l. snd (probe l) \<le> n" "0 \<le> n" "high - low < 2 ^ k"
  shows "snd (level_search probe budget low high visits) \<le> visits + int k * n"
  using assms
proof (induction probe budget low high visits arbitrary: k rule: level_search.induct)
  case (1 probe budget low high visits)
  define middle where "middle = low + (high - low + 1) div 2"
  show ?case
  proof (cases "low < high")
    case False
    with "1.prems" show ?thesis by (simp add: level_search.simps)
  next
    case True
    with "1.prems"(3) obtain k' where k: "k = Suc k'" by (cases k) auto
    have halves: "high - middle < 2 ^ k'" "(middle - 1) - low < 2 ^ k'"
      using "1.prems"(3) True unfolding k middle_def by simp_all
    have cost: "snd (probe middle) \<le> n" by (rule "1.prems"(1))
    have split: "int k * n = n + int k' * n" by (simp add: k algebra_simps)
    show ?thesis
    proof (cases "fst (probe middle) \<le> budget")
      case affordable: True
      from "1.IH"(1) [OF True middle_def refl refl affordable "1.prems"(1,2) halves(1)] cost affordable True
      show ?thesis unfolding split by (simp add: level_search.simps [of probe budget low] middle_def Let_def)
    next
      case dear: False
      from "1.IH"(2) [OF True middle_def refl refl dear "1.prems"(1,2) halves(2)] cost dear True
      show ?thesis unfolding split by (simp add: level_search.simps [of probe budget low] middle_def Let_def)
    qed
  qed
qed

section \<open>What a fill does\<close>

definition fillable :: "allocation_candidate list \<Rightarrow> bool"
  where "fillable cs \<longleftrightarrow> list_all (\<lambda>c. 0 \<le> ac_floor c \<and> ac_floor c \<le> ac_ceiling c) cs"

lemma clip_eq_min: "clip limit c = min (ac_ceiling c) limit"
  by (simp add: clip_def)

lemma fill_target_eq: "fill_target limit level c = max (ac_floor c) (min (clip limit c) level)"
  by (auto simp: fill_target_def Let_def)

lemma fold_max_eq:
  fixes f :: "'a \<Rightarrow> int"
  shows "fold (\<lambda>c m. if f c > m then f c else m) cs m0 = Max (set (m0 # map f cs))"
proof -
  have "(\<lambda>c m. if f c > m then f c else m) = max \<circ> f" by (auto simp: fun_eq_iff)
  then show ?thesis by (simp only: Max.set_eq_fold fold_map)
qed

lemma fold_min_eq:
  fixes f :: "'a \<Rightarrow> int"
  shows "fold (\<lambda>c m. if f c < m then f c else m) cs m0 = Min (set (m0 # map f cs))"
proof -
  have "(\<lambda>c m. if f c < m then f c else m) = min \<circ> f" by (auto simp: fun_eq_iff)
  then show ?thesis by (simp only: Min.set_eq_fold fold_map)
qed

lemma minimum_level_le: "c \<in> set cs \<Longrightarrow> minimum_level cs \<le> ac_floor c"
  unfolding minimum_level_def fold_min_eq by (auto intro!: Min_le)

lemma maximum_level_bounds:
  "0 \<le> maximum_level cs limit"
  "c \<in> set cs \<Longrightarrow> clip limit c \<le> maximum_level cs limit"
  "0 \<le> limit \<Longrightarrow> maximum_level cs limit \<le> limit"
  unfolding maximum_level_def fold_max_eq by (auto intro!: Max_ge simp: clip_def)

lemma highestCeiling_bounds:
  "0 \<le> highestCeiling cs"
  "c \<in> set cs \<Longrightarrow> ac_ceiling c \<le> highestCeiling cs"
  unfolding highestCeiling_def fold_max_eq by (auto intro!: Max_ge)

lemma fill_remainder_spec:
  assumes "0 \<le> remaining"
    "fill_remainder limit level cs (map T cs) remaining used = (caps, used')"
  shows "length caps = length cs \<and>
    (\<forall>i < length cs. caps ! i = T (cs ! i) \<or>
       (T (cs ! i) = level \<and> level < clip limit (cs ! i) \<and> caps ! i = level + 1)) \<and>
    used' = used + min remaining (sum_list (map (\<lambda>c. if T c = level \<and> level < clip limit c then 1 else 0) cs)) \<and>
    sum_list caps - used' = sum_list (map T cs) - used"
  using assms
proof (induction cs arbitrary: remaining used caps used')
  case (Cons c cs)
  have count: "0 \<le> sum_list (map (\<lambda>c. if T c = level \<and> level < clip limit c then 1 else (0::int)) cs)"
    by (rule sum_list_nonneg_int) auto
  consider (stop) "remaining = 0" | (give) "remaining \<noteq> 0" "T c = level" "level < clip limit c"
    | (skip) "remaining \<noteq> 0" "\<not> (T c = level \<and> level < clip limit c)" by blast
  then show ?case
  proof cases
    case stop
    with Cons.prems count show ?thesis by (auto simp: nth_Cons split: nat.splits)
  next
    case give
    obtain caps1 used1 where rest:
      "fill_remainder limit level cs (map T cs) (remaining - 1) (used + 1) = (caps1, used1)" by fastforce
    with give Cons.prems have out: "caps = (level + 1) # caps1" "used' = used1" by auto
    from give Cons.prems have "0 \<le> remaining - 1" by simp
    from Cons.IH [OF this rest] give show ?thesis
      by (auto simp: out nth_Cons min_def split: nat.splits)
  next
    case skip
    obtain caps1 used1 where rest:
      "fill_remainder limit level cs (map T cs) remaining used = (caps1, used1)" by fastforce
    with skip Cons.prems have out: "caps = T c # caps1" "used' = used1" by (auto split: if_splits)
    from Cons.IH [OF Cons.prems(1) rest] skip show ?thesis
      by (auto simp: out nth_Cons split: nat.splits)
  qed
qed simp

lemma need_at_level: "level \<le> limit \<Longrightarrow> fill_target limit level c - ac_floor c = need level c"
  by (auto simp: fill_target_eq need_def clip_eq_min)

lemma used_at_level:
  assumes "level \<le> limit"
  shows "sum_list (map (\<lambda>c. fill_target limit level c - ac_floor c) cs) = headroom cs level"
  by (simp add: headroom_def need_at_level [OF assms])

lemma headroom_minimum: "headroom cs (minimum_level cs) = 0"
proof -
  have "need (minimum_level cs) c = 0" if "c \<in> set cs" for c
    using minimum_level_le [OF that] by (simp add: need_def)
  then show ?thesis by (simp add: headroom_def cong: map_cong)
qed

lemma headroom_maximum:
  assumes "0 \<le> limit"
  shows "headroom cs (maximum_level cs limit) = headroom cs limit"
proof -
  have "need (maximum_level cs limit) c = need limit c" if "c \<in> set cs" for c
    using maximum_level_bounds(2) [OF that, of limit] maximum_level_bounds(3) [OF assms, of cs]
    by (auto simp: need_def clip_eq_min)
  then show ?thesis by (simp add: headroom_def cong: map_cong)
qed

text \<open>The level a fill settles on is the highest its budget pays for.\<close>

lemma waterFill_level:
  assumes "cs \<noteq> []" "0 < budget" "0 \<le> limit" "minimum_level cs \<le> maximum_level cs limit"
    "maximum_level cs limit - minimum_level cs < 2 ^ k"
  obtains level caps used visits where
    "minimum_level cs \<le> level" "level \<le> maximum_level cs limit"
    "headroom cs level \<le> budget"
    "level < maximum_level cs limit \<Longrightarrow> budget < headroom cs (level + 1)"
    "fill_remainder limit level cs (map (fill_target limit level) cs)
       (budget - headroom cs level) (headroom cs level) = (caps, used)"
    "waterFill cs budget limit = (caps, used, visits)"
    "visits \<le> (int k + 4) * int (length cs)"
proof -
  let ?max = "maximum_level cs limit" and ?min = "minimum_level cs" and ?n = "int (length cs)"
  let ?probe = "\<lambda>l. creditsAtLevel cs l budget"
  obtain usedAtLimit inspected where lim: "?probe ?max = (usedAtLimit, inspected)" by fastforce
  obtain level visits where lv: "(if usedAtLimit \<ge> budget
      then level_search ?probe budget ?min ?max (?n + inspected) else (?max, ?n + inspected)) = (level, visits)"
    by fastforce
  have insp: "inspected \<le> ?n" using creditsAtLevel_visits(2) [of cs ?max budget] lim by simp
  have mono: "\<forall>l l'. l \<le> l' \<longrightarrow> fst (?probe l') \<le> budget \<longrightarrow> fst (?probe l) \<le> budget"
    unfolding creditsAtLevel_le_iff by (meson headroom_mono order_trans)
  have found: "?min \<le> level \<and> level \<le> ?max \<and> headroom cs level \<le> budget \<and>
      (level < ?max \<longrightarrow> budget < headroom cs (level + 1)) \<and> visits \<le> ?n + ?n + int k * ?n"
  proof (cases "usedAtLimit \<ge> budget")
    case True
    then have eq: "level_search ?probe budget ?min ?max (?n + inspected) = (level, visits)" using lv by simp
    have "fst (?probe ?min) \<le> budget" using assms(2) by (simp add: creditsAtLevel_le_iff headroom_minimum)
    from level_search_spec [OF assms(4) this mono eq]
    have "?min \<le> level \<and> level \<le> ?max \<and> headroom cs level \<le> budget \<and>
      (level < ?max \<longrightarrow> budget < headroom cs (level + 1))"
      unfolding creditsAtLevel_le_iff linorder_not_le [symmetric] by blast
    moreover have "visits \<le> (?n + inspected) + int k * ?n"
      using level_search_visits [where probe = ?probe and n = ?n and budget = budget and visits = "?n + inspected",
          OF creditsAtLevel_visits(2) _ assms(5)] eq by simp
    ultimately show ?thesis using insp by simp
  next
    case False
    then have "headroom cs ?max \<le> budget" using creditsAtLevel_le_iff [of cs ?max budget] lim by simp
    moreover have "inspected \<le> ?n + int k * ?n" using insp by (simp add: add_increasing2)
    ultimately show ?thesis using False lv assms(4) by auto
  qed
  have lvl: "level \<le> limit" using found maximum_level_bounds(3) [OF assms(3), of cs] by linarith
  obtain caps used where rest: "fill_remainder limit level cs (map (fill_target limit level) cs)
       (budget - headroom cs level) (headroom cs level) = (caps, used)" by fastforce
  have out: "waterFill cs budget limit = (caps, used, visits + ?n + ?n)"
    using assms lim lv rest by (simp add: waterFill_def Let_def used_at_level [OF lvl])
  show ?thesis
  proof (rule that [OF _ _ _ _ rest out])
    show "visits + ?n + ?n \<le> (int k + 4) * ?n" using found by (simp add: algebra_simps)
  qed (use found in auto)
qed

lemma fillable_mem: "fillable cs \<Longrightarrow> c \<in> set cs \<Longrightarrow> 0 \<le> ac_floor c \<and> ac_floor c \<le> ac_ceiling c"
  by (auto simp: fillable_def list_all_iff)

text \<open>The candidates that take one of the left-over credits are those the next level would raise.\<close>

lemma remainder_count:
  assumes "level < limit"
  shows "sum_list (map (\<lambda>c. if fill_target limit level c = level \<and> level < clip limit c then 1 else 0) cs)
    = headroom cs (level + 1) - headroom cs level"
proof (induction cs)
  case (Cons c cs)
  have "(if fill_target limit level c = level \<and> level < clip limit c then 1 else 0)
      = need (level + 1) c - need level c"
    using assms unfolding fill_target_eq need_def clip_eq_min
    by (cases "ac_floor c \<le> level"; cases "level < ac_ceiling c") (simp_all add: min_def max_def)
  with Cons show ?case by simp
qed simp

lemma waterFill_degenerate:
  assumes "cs \<noteq> []" "0 < budget" "0 \<le> limit" "\<not> minimum_level cs \<le> maximum_level cs limit"
  shows "waterFill cs budget limit = (map ac_floor cs, 0, int (length cs))" "headroom cs limit = 0"
proof -
  show "waterFill cs budget limit = (map ac_floor cs, 0, int (length cs))"
    using assms by (simp add: waterFill_def)
  have "headroom cs limit = headroom cs (maximum_level cs limit)" using headroom_maximum [OF assms(3)] by simp
  also have "\<dots> \<le> headroom cs (minimum_level cs)" using assms(4) by (intro headroom_mono) simp
  finally show "headroom cs limit = 0" using headroom_nonneg [of cs limit] by (simp add: headroom_minimum)
qed

section \<open>The properties of a fill\<close>

text \<open>
  What every branch of a fill has in common: the credits spent are the sum of
  the raises, and there is a level at which every candidate stands, up to one
  left-over credit, unless its floor or its clipped ceiling holds it elsewhere.
\<close>

definition levelled :: "allocation_candidate list \<Rightarrow> int \<Rightarrow> int list \<Rightarrow> int \<Rightarrow> bool"
  where "levelled cs limit caps level \<longleftrightarrow> (\<forall>i < length cs.
       max (ac_floor (cs ! i)) (min (clip limit (cs ! i)) level) \<le> caps ! i \<and>
       caps ! i \<le> max (ac_floor (cs ! i)) (min (clip limit (cs ! i)) (level + 1)))"

definition fill_ok :: "allocation_candidate list \<Rightarrow> int \<Rightarrow> int \<Rightarrow> int list \<Rightarrow> int \<Rightarrow> bool"
  where "fill_ok cs budget limit caps used \<longleftrightarrow>
    length caps = length cs \<and> sum_list caps = sum_list (map ac_floor cs) + used \<and>
    used = min budget (headroom cs limit) \<and> (\<exists>level. levelled cs limit caps level)"

lemma int_less_power_two: "\<exists>k. x < 2 ^ k" for x :: int
proof
  have "x \<le> int (nat x)" by simp
  also have "\<dots> < int (2 ^ nat x)" by (simp only: of_nat_less_iff less_exp)
  also have "\<dots> = 2 ^ nat x" by simp
  finally show "x < 2 ^ nat x" .
qed

lemma waterFill_degenerate_ok:
  assumes "cs \<noteq> []" "0 < budget" "0 \<le> limit" "\<not> minimum_level cs \<le> maximum_level cs limit"
  shows "fill_ok cs budget limit (map ac_floor cs) 0"
proof -
  have "clip limit (cs ! i) \<le> ac_floor (cs ! i)" if "i < length cs" for i
    using that maximum_level_bounds(2) [of "cs ! i" cs limit] minimum_level_le [of "cs ! i" cs] assms(4) by simp
  then have "levelled cs limit (map ac_floor cs) 0" by (fastforce simp: levelled_def)
  then show ?thesis using waterFill_degenerate(2) [OF assms] assms(2) by (auto simp: fill_ok_def)
qed

lemma no_remainder_at_maximum:
  "sum_list (map (\<lambda>c. if fill_target limit level c = level \<and> level < clip limit c then 1 else (0::int)) cs) = 0"
  if "level = maximum_level cs limit"
proof -
  have "\<not> level < clip limit c" if "c \<in> set cs" for c
    using maximum_level_bounds(2) [OF that, of limit] \<open>level = _\<close> by simp
  then show ?thesis by (simp cong: map_cong)
qed

lemma fill_remainder_ok:
  assumes "0 \<le> limit" "level \<le> maximum_level cs limit" "headroom cs level \<le> budget"
    "level < maximum_level cs limit \<Longrightarrow> budget < headroom cs (level + 1)"
    "fill_remainder limit level cs (map (fill_target limit level) cs)
       (budget - headroom cs level) (headroom cs level) = (caps, used)"
  shows "fill_ok cs budget limit caps used"
proof -
  have max: "maximum_level cs limit \<le> limit" by (rule maximum_level_bounds(3) [OF assms(1)])
  then have lim: "level \<le> limit" using assms(2) by linarith
  let ?count = "sum_list (map (\<lambda>c. if fill_target limit level c = level \<and> level < clip limit c then 1 else 0) cs)"
  have spec: "length caps = length cs"
    "\<forall>i < length cs. caps ! i = fill_target limit level (cs ! i) \<or>
       (fill_target limit level (cs ! i) = level \<and> level < clip limit (cs ! i) \<and> caps ! i = level + 1)"
    "used = headroom cs level + min (budget - headroom cs level) ?count"
    "sum_list caps - used = sum_list (map (fill_target limit level) cs) - headroom cs level"
    using fill_remainder_spec [OF _ assms(5)] assms(3) by auto
  have "used = min budget (headroom cs limit)"
  proof (cases "level < maximum_level cs limit")
    case True
    then have "?count = headroom cs (level + 1) - headroom cs level"
      using max by (intro remainder_count) linarith
    moreover have "headroom cs (level + 1) \<le> headroom cs limit"
      using True max by (intro headroom_mono) linarith
    ultimately show ?thesis using spec(3) assms(4) [OF True] by (simp add: min_def)
  next
    case False
    with assms(2) have "level = maximum_level cs limit" by simp
    with no_remainder_at_maximum [OF this] show ?thesis
      using spec(3) assms(3) headroom_maximum [OF assms(1), of cs] by simp
  qed
  moreover have "sum_list (map (fill_target limit level) cs) = sum_list (map ac_floor cs) + headroom cs level"
    unfolding used_at_level [OF lim, symmetric] by (simp add: sum_list_subtractf)
  moreover have "levelled cs limit caps level"
    using spec(2) unfolding fill_target_eq levelled_def by fastforce
  ultimately show ?thesis using spec(1,4) by (auto simp: fill_ok_def)
qed

lemma waterFill_ok:
  assumes "cs \<noteq> []" "0 < budget" "0 \<le> limit" "waterFill cs budget limit = (caps, used, visits)"
  shows "fill_ok cs budget limit caps used"
proof (cases "minimum_level cs \<le> maximum_level cs limit")
  case False
  from waterFill_degenerate [OF assms(1-3) this] waterFill_degenerate_ok [OF assms(1-3) this] assms(4)
  show ?thesis by simp
next
  case True
  obtain k where k: "maximum_level cs limit - minimum_level cs < 2 ^ k" using int_less_power_two by blast
  show ?thesis
    by (rule waterFill_level [OF assms(1-3) True k]) (use assms(3,4) fill_remainder_ok in auto)
qed

lemma waterFill_visits:
  assumes "0 \<le> limit" "fillable cs" "limit < 2 ^ k"
  shows "snd (snd (waterFill cs budget limit)) \<le> (int k + 4) * int (length cs)"
proof -
  have less: "int (length cs) \<le> (int k + 4) * int (length cs)" by (simp add: algebra_simps)
  consider "cs = [] \<or> budget \<le> 0" | "cs \<noteq> []" "0 < budget" "\<not> minimum_level cs \<le> maximum_level cs limit"
    | (fill) "cs \<noteq> []" "0 < budget" "minimum_level cs \<le> maximum_level cs limit" by linarith
  then show ?thesis
  proof cases
    case fill
    have "0 \<le> minimum_level cs" using fill(1) assms(2)
      by (auto simp: minimum_level_def fold_min_eq fillable_def list_all_iff)
    then have k: "maximum_level cs limit - minimum_level cs < 2 ^ k"
      using maximum_level_bounds(3) [OF assms(1), of cs] assms(3) by linarith
    show ?thesis by (rule waterFill_level [OF fill(1,2) assms(1) fill(3) k]) simp
  qed (use less waterFill_degenerate assms(1) in \<open>auto simp: waterFill_def\<close>)
qed

end
