(* ===== verification/PlanBounds.thy ===== *)
theory PlanBounds
  imports Plan
begin

text \<open>
  The bounds on an allocation plan: the candidates of a tier, what writing a
  fill into a plan does to its books, and the limits every finished plan meets,
  for independent tiers and under an instance-wide limit.
\<close>

section \<open>Candidates\<close>

definition wants :: "binding \<Rightarrow> bool"
  where "wants b \<longleftrightarrow> \<not> b_held b \<and> b_active b < b_assignedDemand b"

lemma candidate_keys:
  "map ac_key (allocationCandidates order state budget) = filter (\<lambda>k. wants (the (state k))) order"
  unfolding allocationCandidates_def by (induction order) (auto simp: wants_def Let_def)

lemma candidate_mem:
  assumes "c \<in> set (allocationCandidates order state budget)"
  shows "ac_key c \<in> set order" "wants (the (state (ac_key c)))"
    "ac_floor c = b_active (the (state (ac_key c)))"
    "ac_ceiling c = ac_floor c +
       min (b_assignedDemand (the (state (ac_key c))) - b_active (the (state (ac_key c)))) budget"
  using assms unfolding allocationCandidates_def
  by (auto simp: Let_def wants_def split: if_splits)

lemma candidates_fillable:
  assumes "pool_wf a t p" "0 \<le> budget"
  shows "fillable (allocationCandidates (p_order p) (p_state p) budget)"
  unfolding fillable_def list_all_iff
proof
  fix c assume c: "c \<in> set (allocationCandidates (p_order p) (p_state p) budget)"
  note m = candidate_mem [OF c]
  show "0 \<le> ac_floor c \<and> ac_floor c \<le> ac_ceiling c"
    using m(2,3,4) pool_wfD(5) [OF assms(1) m(1)] assms(2) by (simp add: wants_def)
qed

lemma candidates_distinct: "distinct order \<Longrightarrow> distinct (map ac_key (allocationCandidates order state budget))"
  by (simp add: candidate_keys)

section \<open>Writing a fill into a plan\<close>

lemma setDesired_total [simp]:
  "ap_totalAdvertised (setDesiredCapacity t k c plan) = ap_totalAdvertised plan + (c - ap_desired plan k)"
  by (simp add: setDesiredCapacity_def Let_def)

lemma setDesiredCapacities_Cons:
  "setDesiredCapacities t (c # cs) (v # vs) plan = setDesiredCapacities t cs vs (setDesiredCapacity t (ac_key c) v plan)"
  by (simp add: setDesiredCapacities_def)

lemma setDesiredCapacities_Nil [simp]: "setDesiredCapacities t [] vs plan = plan"
  by (simp add: setDesiredCapacities_def)

lemma setDesiredCapacities_spec:
  assumes "pools_wf a" "(t, p) \<in> set (a_pools a)" "plan_books a plan"
    "set (map ac_key cs) \<subseteq> set (p_order p)" "distinct (map ac_key cs)" "length caps = length cs"
  defines "plan' \<equiv> setDesiredCapacities t cs caps plan"
  shows "plan_books a plan'"
    "\<forall>k. k \<notin> set (map ac_key cs) \<longrightarrow> ap_desired plan' k = ap_desired plan k"
    "\<forall>i < length cs. ap_desired plan' (ac_key (cs ! i)) = caps ! i"
    "tsum (ap_desired plan') p = tsum (ap_desired plan) p +
       (sum_list caps - sum_list (map (\<lambda>c. ap_desired plan (ac_key c)) cs))"
    "ap_totalAdvertised plan' = ap_totalAdvertised plan +
       (sum_list caps - sum_list (map (\<lambda>c. ap_desired plan (ac_key c)) cs))"
proof -
  have "plan_books a (setDesiredCapacities t cs caps plan) \<and>
    (\<forall>k. k \<notin> set (map ac_key cs) \<longrightarrow> ap_desired (setDesiredCapacities t cs caps plan) k = ap_desired plan k) \<and>
    (\<forall>i < length cs. ap_desired (setDesiredCapacities t cs caps plan) (ac_key (cs ! i)) = caps ! i) \<and>
    tsum (ap_desired (setDesiredCapacities t cs caps plan)) p = tsum (ap_desired plan) p +
       (sum_list caps - sum_list (map (\<lambda>c. ap_desired plan (ac_key c)) cs)) \<and>
    ap_totalAdvertised (setDesiredCapacities t cs caps plan) = ap_totalAdvertised plan +
       (sum_list caps - sum_list (map (\<lambda>c. ap_desired plan (ac_key c)) cs))"
    using assms(3-6)
  proof (induction cs arbitrary: caps plan)
    case (Cons c cs)
    from Cons.prems(4) obtain v vs where caps: "caps = v # vs" by (cases caps) auto
    let ?plan = "setDesiredCapacity t (ac_key c) v plan"
    have c: "ac_key c \<in> set (p_order p)" "ac_key c \<notin> set (map ac_key cs)" using Cons.prems(2,3) by auto
    have same: "sum_list (map (\<lambda>c. ap_desired ?plan (ac_key c)) cs) = sum_list (map (\<lambda>c. ap_desired plan (ac_key c)) cs)"
      using c(2) by (intro arg_cong [where f = sum_list] map_cong) (auto simp: image_iff)
    have dist: "distinct (p_order p)" using pool_wfD(1) [OF pools_wfD(2) [OF assms(1,2)]] .
    have tier: "tsum (ap_desired ?plan) p = tsum (ap_desired plan) p - ap_desired plan (ac_key c) + v"
      using c(1) by (simp only: desired_setDesired tsum_upd [OF dist] if_True)
    have bk: "plan_books a ?plan" by (rule setDesired_books [OF assms(1) Cons.prems(1) assms(2) c(1)])
    have ih: "plan_books a (setDesiredCapacities t cs vs ?plan)"
      "\<forall>k. k \<notin> set (map ac_key cs) \<longrightarrow> ap_desired (setDesiredCapacities t cs vs ?plan) k = ap_desired ?plan k"
      "\<forall>i < length cs. ap_desired (setDesiredCapacities t cs vs ?plan) (ac_key (cs ! i)) = vs ! i"
      "tsum (ap_desired (setDesiredCapacities t cs vs ?plan)) p = tsum (ap_desired ?plan) p +
         (sum_list vs - sum_list (map (\<lambda>c. ap_desired ?plan (ac_key c)) cs))"
      "ap_totalAdvertised (setDesiredCapacities t cs vs ?plan) = ap_totalAdvertised ?plan +
         (sum_list vs - sum_list (map (\<lambda>c. ap_desired ?plan (ac_key c)) cs))"
      using Cons.IH [of ?plan vs] Cons.prems bk by (simp_all add: caps del: desired_setDesired)
    have nth: "\<forall>i < length (c # cs). ap_desired (setDesiredCapacities t cs vs ?plan) (ac_key ((c # cs) ! i)) = (v # vs) ! i"
      using ih(2,3) c(2) by (auto simp: nth_Cons split: nat.splits)
    show ?case
      unfolding caps setDesiredCapacities_Cons
      using ih(1,2,4,5) nth tier same by simp
  qed simp
  then show "plan_books a plan'"
    "\<forall>k. k \<notin> set (map ac_key cs) \<longrightarrow> ap_desired plan' k = ap_desired plan k"
    "\<forall>i < length cs. ap_desired plan' (ac_key (cs ! i)) = caps ! i"
    "tsum (ap_desired plan') p = tsum (ap_desired plan) p +
       (sum_list caps - sum_list (map (\<lambda>c. ap_desired plan (ac_key c)) cs))"
    "ap_totalAdvertised plan' = ap_totalAdvertised plan +
       (sum_list caps - sum_list (map (\<lambda>c. ap_desired plan (ac_key c)) cs))"
    unfolding plan'_def by blast+
qed

section \<open>One tier\<close>

text \<open>
  What a plan may offer one binding: never less than it runs; exactly that
  while held; one credit at most to a silent binding; otherwise no more than
  its demand.
\<close>

definition offer_ok :: "binding \<Rightarrow> int \<Rightarrow> bool"
  where "offer_ok b v \<longleftrightarrow> b_active b \<le> v \<and>
    v \<le> (if b_held b then b_active b else if silent b then 1 else max (b_active b) (b_assignedDemand b))"

definition offers_ok :: "pool \<Rightarrow> (binding_key \<Rightarrow> int) \<Rightarrow> bool"
  where "offers_ok p d \<longleftrightarrow> (\<forall>k \<in> set (p_order p). offer_ok (the (p_state p k)) (d k))"

lemma offer_ok_active [simp]: "offer_ok b (b_active b)"
  by (auto simp: offer_ok_def silent_def)

lemma offer_ok_silent: "silent b \<Longrightarrow> offer_ok b 1"
  by (auto simp: offer_ok_def silent_def)

lemma offer_ok_wants: "wants b \<Longrightarrow> b_active b \<le> v \<Longrightarrow> v \<le> b_assignedDemand b \<Longrightarrow> 0 \<le> b_active b \<Longrightarrow> offer_ok b v"
  by (auto simp: offer_ok_def wants_def silent_def)

lemma levelled_offer:
  assumes "levelled cs limit caps level" "i < length cs" "ac_floor (cs ! i) \<le> ac_ceiling (cs ! i)"
  shows "ac_floor (cs ! i) \<le> caps ! i" "caps ! i \<le> ac_ceiling (cs ! i)"
proof -
  have "max (ac_floor (cs ! i)) (min (clip limit (cs ! i)) level) \<le> caps ! i"
    "caps ! i \<le> max (ac_floor (cs ! i)) (min (clip limit (cs ! i)) (level + 1))"
    using assms(1,2) unfolding levelled_def by blast+
  then show "ac_floor (cs ! i) \<le> caps ! i" "caps ! i \<le> ac_ceiling (cs ! i)"
    using assms(3) by (auto simp: clip_eq_min)
qed

lemma fill_tier:
  assumes wf: "pools_wf a" and tp: "(t, p) \<in> set (a_pools a)" and bk: "plan_books a plan"
    and seed: "\<And>k. k \<in> set (p_order p) \<Longrightarrow> ap_desired plan k = active_of p k"
    and cs: "cs = allocationCandidates (p_order p) (p_state p) cb" "cs \<noteq> []"
    and pos: "0 \<le> cb" "0 < budget" "0 \<le> limit"
    and wfill: "waterFill cs budget limit = (caps, used, visits)"
  defines "plan' \<equiv> setDesiredCapacities t cs caps plan"
  shows "plan_books a plan'" "k \<notin> set (p_order p) \<Longrightarrow> ap_desired plan' k = ap_desired plan k"
    "used = min budget (headroom cs limit)"
    "tsum (ap_desired plan') p = tsum (ap_desired plan) p + used"
    "ap_totalAdvertised plan' = ap_totalAdvertised plan + used"
    "k \<in> set (p_order p) \<Longrightarrow> \<not> wants (the (p_state p k)) \<Longrightarrow> ap_desired plan' k = active_of p k"
    "offers_ok p (ap_desired plan')"
    "c \<in> set cs \<Longrightarrow> ac_floor c \<le> ap_desired plan' (ac_key c) \<and> ap_desired plan' (ac_key c) \<le> ac_ceiling c"
    "sum_list (map (\<lambda>c. ap_desired plan' (ac_key c)) cs) = sum_list (map ac_floor cs) + used"
proof -
  note pwf = pools_wfD(2) [OF wf tp]
  have ok: "fill_ok cs budget limit caps used" by (rule waterFill_ok [OF cs(2) pos(2,3) wfill])
  then obtain level where lev: "levelled cs limit caps level" and len: "length caps = length cs"
    and sum: "sum_list caps = sum_list (map ac_floor cs) + used" and used: "used = min budget (headroom cs limit)"
    unfolding fill_ok_def by blast
  have sub: "set (map ac_key cs) \<subseteq> set (p_order p)" by (auto simp: cs(1) dest: candidate_mem(1))
  have dist: "distinct (map ac_key cs)" unfolding cs(1) by (rule candidates_distinct [OF pool_wfD(1) [OF pwf]])
  note spec = setDesiredCapacities_spec [OF wf tp bk sub dist len, folded plan'_def]
  have floors: "sum_list (map (\<lambda>c. ap_desired plan (ac_key c)) cs) = sum_list (map ac_floor cs)"
    using candidate_mem [of _ "p_order p" "p_state p" cb] seed
    by (intro arg_cong [where f = sum_list] map_cong) (auto simp: cs(1))
  show "plan_books a plan'" by (rule spec(1))
  show "used = min budget (headroom cs limit)" by (rule used)
  show "tsum (ap_desired plan') p = tsum (ap_desired plan) p + used" using spec(4) floors sum by simp
  show "ap_totalAdvertised plan' = ap_totalAdvertised plan + used" using spec(5) floors sum by simp
  show "k \<notin> set (p_order p) \<Longrightarrow> ap_desired plan' k = ap_desired plan k" for k using spec(2) sub by blast
  show rest: "ap_desired plan' k = active_of p k" if "k \<in> set (p_order p)" "\<not> wants (the (p_state p k))" for k
  proof -
    have "k \<notin> set (map ac_key cs)" using that(2) by (auto simp: cs(1) dest: candidate_mem(2))
    then show ?thesis using spec(2) seed [OF that(1)] by simp
  qed
  have written: "map (\<lambda>c. ap_desired plan' (ac_key c)) cs = caps"
    using spec(3) len by (auto intro: nth_equalityI)
  then show "sum_list (map (\<lambda>c. ap_desired plan' (ac_key c)) cs) = sum_list (map ac_floor cs) + used"
    using sum by simp
  have fl: "fillable cs" unfolding cs(1) by (rule candidates_fillable [OF pwf pos(1)])
  show range: "ac_floor c \<le> ap_desired plan' (ac_key c) \<and> ap_desired plan' (ac_key c) \<le> ac_ceiling c"
    if c: "c \<in> set cs" for c
  proof -
    obtain i where i: "i < length cs" "cs ! i = c" using c by (auto simp: in_set_conv_nth)
    then show ?thesis using levelled_offer [OF lev i(1)] fillable_mem [OF fl c] spec(3) by auto
  qed
  have "offer_ok (the (p_state p k)) (ap_desired plan' k)" if k: "k \<in> set (p_order p)" for k
  proof (cases "wants (the (p_state p k))")
    case True
    with k have "k \<in> set (map ac_key cs)" by (simp only: cs(1) candidate_keys) simp
    then obtain c where c: "c \<in> set cs" "ac_key c = k" by auto
    then show ?thesis
      using range [OF c(1)] candidate_mem(3,4) [of c "p_order p" "p_state p" cb] cs(1) True pool_wfD(5) [OF pwf k]
      by (intro offer_ok_wants) (auto simp: wants_def)
  qed (simp add: rest k)
  then show "offers_ok p (ap_desired plan')" by (simp add: offers_ok_def)
qed

section \<open>Independent tiers\<close>

lemma plan_books_irrelevant [simp]:
  "plan_books a (plan\<lparr>ap_allocationVisits := v\<rparr>) = plan_books a plan"
  "plan_books a (plan\<lparr>ap_discoveryByTier := h\<rparr>) = plan_books a plan"
  by (simp_all add: plan_books_def)

lemma seeded_tsum:
  assumes "pool_wf a t p" "\<And>k. k \<in> set (p_order p) \<Longrightarrow> d k = active_of p k"
  shows "tsum d p = p_active p"
proof -
  have "tsum d p = psum b_active p"
    unfolding tsum_def psum_def using assms(2) by (intro arg_cong [where f = sum_list] map_cong) auto
  then show ?thesis using pool_wfD(7) [OF assms(1)] by simp
qed

lemma seeded_offers: "(\<And>k. k \<in> set (p_order p) \<Longrightarrow> d k = active_of p k) \<Longrightarrow> offers_ok p d"
  by (simp add: offers_ok_def)

text \<open>A tier's announcements fit its limit, and no wanted credit of the tier is left unused.\<close>

definition tier_fits :: "pool \<Rightarrow> (binding_key \<Rightarrow> int) \<Rightarrow> bool"
  where "tier_fits p d \<longleftrightarrow> offers_ok p d \<and> tsum d p \<le> max (p_parallelism p) (p_active p)"

definition tier_conserves :: "pool \<Rightarrow> (binding_key \<Rightarrow> int) \<Rightarrow> bool"
  where "tier_conserves p d \<longleftrightarrow>
    (\<forall>k \<in> set (p_order p). wants (the (p_state p k)) \<longrightarrow> d k < b_assignedDemand (the (p_state p k)) \<longrightarrow>
       p_parallelism p \<le> tsum d p)"

lemma sum_list_eq_pointwise:
  fixes f g :: "'a \<Rightarrow> int"
  assumes "\<And>x. x \<in> set xs \<Longrightarrow> f x \<le> g x" "sum_list (map g xs) \<le> sum_list (map f xs)" "x \<in> set xs"
  shows "f x = g x"
proof -
  have "g x - f x \<le> sum_list (map (\<lambda>x. g x - f x) xs)"
    using assms(1,3) by (intro member_le_sum_list_int) auto
  then show ?thesis using assms by (fastforce simp: sum_list_subtractf)
qed

text \<open>The state of a plan after a tier has been allocated.\<close>

definition tier_done :: "allocator \<Rightarrow> pool \<Rightarrow> allocation_plan \<Rightarrow> allocation_plan \<Rightarrow> bool"
  where "tier_done a p plan plan' \<longleftrightarrow> plan_books a plan' \<and>
    (\<forall>k. k \<notin> set (p_order p) \<longrightarrow> ap_desired plan' k = ap_desired plan k) \<and>
    (\<forall>k \<in> set (p_order p). \<not> wants (the (p_state p k)) \<longrightarrow> ap_desired plan' k = active_of p k) \<and>
    tier_fits p (ap_desired plan') \<and> tier_conserves p (ap_desired plan')"

lemma full_headroom:
  assumes "fillable cs"
  shows "headroom cs (highestCeiling cs) = sum_list (map (\<lambda>c. ac_ceiling c - ac_floor c) cs)"
  unfolding headroom_def
proof (intro arg_cong [where f = sum_list] map_cong refl)
  fix c assume "c \<in> set cs"
  then show "need (highestCeiling cs) c = ac_ceiling c - ac_floor c"
    using highestCeiling_bounds(2) fillable_mem [OF assms] by (fastforce simp: need_def)
qed

lemma fill_conserves:
  assumes pwf: "pool_wf a t p" and cs: "cs = allocationCandidates (p_order p) (p_state p) budget"
    and budget: "budget = p_parallelism p - p_active p" "0 < budget"
    and range: "\<And>c. c \<in> set cs \<Longrightarrow> d (ac_key c) \<le> ac_ceiling c"
    and sum: "sum_list (map (\<lambda>c. d (ac_key c)) cs) = sum_list (map ac_floor cs) + used"
    and used: "used = min budget (headroom cs (highestCeiling cs))" and tier: "tsum d p = p_active p + used"
  shows "tier_conserves p d"
  unfolding tier_conserves_def
proof (intro ballI impI)
  fix k assume k: "k \<in> set (p_order p)" "wants (the (p_state p k))" "d k < b_assignedDemand (the (p_state p k))"
  have fl: "fillable cs" unfolding cs using candidates_fillable [OF pwf] budget(2) by simp
  show "p_parallelism p \<le> tsum d p"
  proof (rule ccontr)
    assume "\<not> ?thesis"
    then have less: "headroom cs (highestCeiling cs) < budget" "used = headroom cs (highestCeiling cs)"
      using used tier budget(1) by auto
    have "k \<in> set (map ac_key cs)" using k(1,2) by (simp only: cs candidate_keys) simp
    then obtain c where c: "c \<in> set cs" "ac_key c = k" by auto
    have "sum_list (map ac_ceiling cs) \<le> sum_list (map (\<lambda>c. d (ac_key c)) cs)"
      unfolding sum less(2) full_headroom [OF fl] by (simp add: sum_list_subtractf)
    from sum_list_eq_pointwise [OF range this c(1)] have at: "d k = ac_ceiling c" using c(2) by simp
    have "ac_ceiling c - ac_floor c \<le> headroom cs (highestCeiling cs)"
      unfolding full_headroom [OF fl] using fillable_mem [OF fl] c(1) by (intro member_le_sum_list_int) auto
    then show False using candidate_mem(3,4) [of c "p_order p" "p_state p" budget] c cs at k(3) less(1) by simp
  qed
qed

lemma allocateTier_done:
  assumes wf: "pools_wf a" and tp: "(t, p) \<in> set (a_pools a)" and bk: "plan_books a plan"
    and seed: "\<And>k. k \<in> set (p_order p) \<Longrightarrow> ap_desired plan k = active_of p k"
  shows "tier_done a p plan (allocateTier t p plan)"
proof -
  define budget where "budget = p_parallelism p - p_active p"
  define cs where "cs = allocationCandidates (p_order p) (p_state p) budget"
  obtain caps used visits where wfill: "waterFill cs budget (highestCeiling cs) = (caps, used, visits)"
    by (cases "waterFill cs budget (highestCeiling cs)")
  note pwf = pools_wfD(2) [OF wf tp]
  note sum0 = seeded_tsum [OF pwf seed]
  have keys: "map ac_key cs = filter (\<lambda>k. wants (the (p_state p k))) (p_order p)"
    by (simp add: cs_def candidate_keys)
  consider (full) "budget \<le> 0" | (idle) "0 < budget" "cs = []" | (fill) "0 < budget" "cs \<noteq> []" by linarith
  then show ?thesis
  proof cases
    case full
    then have "allocateTier t p plan = plan" by (simp add: allocateTier_def budget_def)
    then show ?thesis using full bk seed sum0
      by (auto simp: tier_done_def tier_fits_def tier_conserves_def budget_def intro: seeded_offers)
  next
    case idle
    then have out: "allocateTier t p plan = plan\<lparr>ap_allocationVisits := ap_allocationVisits plan + visits\<rparr>"
      using wfill by (simp add: allocateTier_def budget_def [symmetric] cs_def [symmetric] Let_def)
    have "\<not> wants (the (p_state p k))" if "k \<in> set (p_order p)" for k
      using keys [symmetric] idle that by (simp add: filter_empty_conv)
    then show ?thesis unfolding out using bk seed sum0
      by (auto simp: tier_done_def tier_fits_def tier_conserves_def intro: seeded_offers)
  next
    case fill
    let ?plan = "plan\<lparr>ap_allocationVisits := ap_allocationVisits plan + visits\<rparr>"
    have out: "allocateTier t p plan = setDesiredCapacities t cs caps ?plan"
      using wfill fill by (simp add: allocateTier_def budget_def [symmetric] cs_def [symmetric] Let_def)
    have "plan_books a ?plan" "\<And>k. k \<in> set (p_order p) \<Longrightarrow> ap_desired ?plan k = active_of p k"
      using bk seed by simp_all
    note ft = fill_tier [OF wf tp this cs_def fill(2) _ fill(1) highestCeiling_bounds(1) wfill, folded out]
    have tier: "tsum (ap_desired (allocateTier t p plan)) p = p_active p + used" using ft(4) fill sum0 by simp
    have "tier_conserves p (ap_desired (allocateTier t p plan))"
      by (rule fill_conserves [OF pwf cs_def budget_def fill(1) _ _ _ tier]) (use ft(3,8,9) fill in auto)
    then show ?thesis using ft fill tier by (auto simp: tier_done_def tier_fits_def budget_def)
  qed
qed

lemma offers_ok_upd:
  "offers_ok p d \<Longrightarrow> offer_ok (the (p_state p k)) v \<Longrightarrow> offers_ok p (d(k := v))"
  by (auto simp: offers_ok_def)

lemma setTierDiscovery_done:
  assumes wf: "pools_wf a" and tp: "(t, p) \<in> set (a_pools a)" and dn: "tier_done a p plan0 plan"
  defines "plan' \<equiv> setTierDiscovery t p plan"
  shows "plan_books a plan'" "k \<notin> set (p_order p) \<Longrightarrow> ap_desired plan' k = ap_desired plan0 k"
    "tier_fits p (ap_desired plan')" "tier_conserves p (ap_desired plan')"
proof -
  note pwf = pools_wfD(2) [OF wf tp]
  define holder where "holder = p_order p ! p_discovery p"
  consider (skip) "ap_desired plan' = ap_desired plan" "plan_books a plan'"
    | (give) "holder \<in> set (p_order p)" "silent (the (p_state p holder))"
        "tsum (ap_desired plan) p < p_parallelism p" "plan_books a plan'"
        "ap_desired plan' = (ap_desired plan)(holder := 1)"
  proof (cases "p_order p = []")
    case True
    with dn that(1) show thesis by (simp add: plan'_def setTierDiscovery_def tier_done_def)
  next
    case False
    let ?plan = "plan\<lparr>ap_discoveryByTier := (ap_discoveryByTier plan)(t := holder)\<rparr>"
    have mem: "holder \<in> set (p_order p)" using pool_wfD(4) [OF pwf False] by (simp add: holder_def)
    have bk: "plan_books a ?plan" using dn by (simp add: tier_done_def)
    have total: "totalForTier ?plan t = tsum (ap_desired plan) p" using totalForTier_books [OF bk tp] by simp
    show thesis
    proof (cases "p_parallelism p \<le> tsum (ap_desired plan) p \<or> \<not> silent (the (p_state p holder))")
      case True
      then have "plan' = ?plan"
        using False by (auto simp: plan'_def setTierDiscovery_def Let_def total holder_def [symmetric])
      with bk that(1) show thesis by simp
    next
      case give: False
      then have "plan' = setDesiredCapacity t holder 1 ?plan"
        using False by (auto simp: plan'_def setTierDiscovery_def Let_def total holder_def [symmetric])
      with setDesired_books [OF wf bk tp mem] give mem that(2) show thesis by simp
    qed
  qed
  then have "plan_books a plan' \<and> (\<forall>k. k \<notin> set (p_order p) \<longrightarrow> ap_desired plan' k = ap_desired plan0 k) \<and>
    tier_fits p (ap_desired plan') \<and> tier_conserves p (ap_desired plan')"
  proof cases
    case skip
    then show ?thesis using dn by (simp add: tier_done_def)
  next
    case give
    have zero: "ap_desired plan holder = 0"
      using dn give(1,2) by (simp add: tier_done_def silent_def wants_def)
    have tier: "tsum (ap_desired plan') p = tsum (ap_desired plan) p + 1"
      using give(1,5) zero tsum_upd [OF pool_wfD(1) [OF pwf], of "ap_desired plan" holder 1] by simp
    have "offers_ok p (ap_desired plan')"
      unfolding give(5) using dn give(2) by (intro offers_ok_upd offer_ok_silent) (auto simp: tier_done_def tier_fits_def)
    moreover have "tier_conserves p (ap_desired plan')"
      using dn give(2,3) unfolding tier_conserves_def tier
      by (auto simp: give(5) tier_done_def tier_conserves_def silent_def wants_def split: if_splits)
    ultimately show ?thesis using dn give tier by (auto simp: tier_done_def tier_fits_def)
  qed
  then show "plan_books a plan'" "k \<notin> set (p_order p) \<Longrightarrow> ap_desired plan' k = ap_desired plan0 k"
    "tier_fits p (ap_desired plan')" "tier_conserves p (ap_desired plan')" by blast+
qed

lemma tier_fits_cong: "(\<And>k. k \<in> set (p_order p) \<Longrightarrow> d' k = d k) \<Longrightarrow> tier_fits p d \<Longrightarrow> tier_fits p d'"
  unfolding tier_fits_def offers_ok_def tsum_def by (simp cong: map_cong)

lemma tier_conserves_cong:
  "(\<And>k. k \<in> set (p_order p) \<Longrightarrow> d' k = d k) \<Longrightarrow> tier_conserves p d \<Longrightarrow> tier_conserves p d'"
  unfolding tier_conserves_def tsum_def by (simp cong: map_cong)

definition allocateTiers :: "(tier_id, pool) gomap \<Rightarrow> allocation_plan \<Rightarrow> allocation_plan"
  where "allocateTiers ps plan =
    fold (\<lambda>(tierID, p) plan. setTierDiscovery tierID p (allocateTier tierID p plan)) ps plan"

lemma allocateTiers_spec:
  assumes wf: "pools_wf a" and "set ps \<subseteq> set (a_pools a)" "distinct ps" "plan_books a plan"
    and "\<And>t p k. (t, p) \<in> set ps \<Longrightarrow> k \<in> set (p_order p) \<Longrightarrow> ap_desired plan k = active_of p k"
  shows "plan_books a (allocateTiers ps plan) \<and>
    (\<forall>(t, p) \<in> set ps. tier_fits p (ap_desired (allocateTiers ps plan)) \<and>
      tier_conserves p (ap_desired (allocateTiers ps plan))) \<and>
    (\<forall>k. (\<forall>(t, p) \<in> set ps. k \<notin> set (p_order p)) \<longrightarrow> ap_desired (allocateTiers ps plan) k = ap_desired plan k)"
  using assms(2-)
proof (induction ps arbitrary: plan)
  case (Cons x ps)
  obtain t p where x: "x = (t, p)" by fastforce
  have tp: "(t, p) \<in> set (a_pools a)" using Cons.prems(1) x by auto
  have seed: "ap_desired plan k = active_of p k" if "k \<in> set (p_order p)" for k
    using Cons.prems(4) [of t p] x that by simp
  let ?plan = "setTierDiscovery t p (allocateTier t p plan)"
  have dn: "tier_done a p plan (allocateTier t p plan)"
    by (rule allocateTier_done [OF wf tp Cons.prems(3)]) (rule seed)
  note one = setTierDiscovery_done [OF wf tp dn]
  have apart: "k \<notin> set (p_order p)" if "(t', p') \<in> set ps" "k \<in> set (p_order p')" for t' p' k
    using tiers_disjoint [OF wf tp, of t' p' k] that Cons.prems(1,2) x by auto
  have seed': "ap_desired ?plan k = active_of p' k" if "(t', p') \<in> set ps" "k \<in> set (p_order p')" for t' p' k
    using one(2) [OF apart [OF that]] Cons.prems(4) [of t' p' k] that by simp
  have step: "allocateTiers (x # ps) plan = allocateTiers ps ?plan" by (simp add: allocateTiers_def x)
  have "set ps \<subseteq> set (a_pools a)" "distinct ps" using Cons.prems(1,2) by auto
  then have ih: "plan_books a (allocateTiers (x # ps) plan) \<and>
    (\<forall>(t, p) \<in> set ps. tier_fits p (ap_desired (allocateTiers (x # ps) plan)) \<and>
      tier_conserves p (ap_desired (allocateTiers (x # ps) plan))) \<and>
    (\<forall>k. (\<forall>(t, p) \<in> set ps. k \<notin> set (p_order p)) \<longrightarrow>
      ap_desired (allocateTiers (x # ps) plan) k = ap_desired ?plan k)"
    unfolding step by (rule Cons.IH) (use one(1) seed' in auto)
  have same: "ap_desired (allocateTiers (x # ps) plan) k = ap_desired ?plan k" if "k \<in> set (p_order p)" for k
    using ih apart that by blast
  have "tier_fits p (ap_desired (allocateTiers (x # ps) plan))"
    "tier_conserves p (ap_desired (allocateTiers (x # ps) plan))"
    using tier_fits_cong [OF same one(3)] tier_conserves_cong [OF same one(4)] by auto
  then show ?case using ih one(2) by (auto simp: x)
qed (simp add: allocateTiers_def)

end
