(* ===== verification/PlanGlobal.thy ===== *)
theory PlanGlobal
  imports PlanBounds
begin

text \<open>
  The instance-wide allocation: the level \<^verbatim>\<open>allocateGlobal\<close> settles on, the
  bounds its fills and its left-over pass keep, and the limits of every plan
  \<^verbatim>\<open>buildPlan\<close> returns.
\<close>

section \<open>The tiers of an instance-wide allocation\<close>

lemma globalTiers_mem:
  assumes "x \<in> set (globalTiers pools budget)"
  obtains p where "(ta_tierID x, p) \<in> set pools" "ta_budget x = p_parallelism p - p_active p" "0 < ta_budget x"
    "ta_candidates x = allocationCandidates (p_order p) (p_state p) (min (ta_budget x) budget)"
    "ta_candidates x \<noteq> []"
proof -
  from assms obtain t p where tp: "(t, p) \<in> set pools" and
    x: "x \<in> set (let tierBudget = p_parallelism p - p_active p in
       if tierBudget \<le> 0 then []
       else
         (let candidateBudget = (if tierBudget < budget then tierBudget else budget);
              candidates = allocationCandidates (p_order p) (p_state p) candidateBudget
          in if candidates = [] then []
             else [\<lparr>ta_tierID = t, ta_budget = tierBudget, ta_candidates = candidates\<rparr>]))"
    unfolding globalTiers_def by auto
  have cb: "(if p_parallelism p - p_active p < budget then p_parallelism p - p_active p else budget) =
      min (p_parallelism p - p_active p) budget" by simp
  show ?thesis by (rule that [of p]) (use tp x in \<open>auto simp: Let_def cb split: if_splits\<close>)
qed

lemma globalTiers_distinct:
  assumes "distinct (keys pools)"
  shows "distinct (map ta_tierID (globalTiers pools budget))"
proof -
  let ?has = "\<lambda>p. 0 < p_parallelism p - p_active p \<and>
     allocationCandidates (p_order p) (p_state p) (min (p_parallelism p - p_active p) budget) \<noteq> []"
  have "map ta_tierID (globalTiers pools budget) = map fst (filter (\<lambda>(t, p). ?has p) pools)"
  proof (induction pools)
    case (Cons x pools)
    obtain t p where x: "x = (t, p)" by fastforce
    have cb: "(if p_parallelism p - p_active p < budget then p_parallelism p - p_active p else budget) =
      min (p_parallelism p - p_active p) budget" by simp
    show ?case using Cons by (auto simp: globalTiers_def x Let_def cb)
  qed (simp add: globalTiers_def)
  then show ?thesis using assms by (simp only: distinct_map_filter)
qed

section \<open>The level\<close>

definition tier_cost :: "int \<Rightarrow> tier_allocation \<Rightarrow> int"
  where "tier_cost level t = min (ta_budget t) (headroom (ta_candidates t) level)"

definition total_cost :: "tier_allocation list \<Rightarrow> int \<Rightarrow> int"
  where "total_cost ts level = sum_list (map (tier_cost level) ts)"

lemma tier_cost_mono: "l \<le> l' \<Longrightarrow> tier_cost l t \<le> tier_cost l' t"
  using headroom_mono [of l l' "ta_candidates t"] by (simp add: tier_cost_def min_def)

lemma total_cost_mono: "l \<le> l' \<Longrightarrow> total_cost ts l \<le> total_cost ts l'"
  unfolding total_cost_def by (intro sum_list_le_pointwise tier_cost_mono)

lemma creditsAt_cost:
  assumes "\<forall>t \<in> set ts. 0 < ta_budget t" "acc \<le> budget"
  shows "fst (creditsAt ts budget level acc visits) =
    (if acc + total_cost ts level \<le> budget then acc + total_cost ts level else budget + 1)"
  using assms
proof (induction ts arbitrary: acc visits)
  case (Cons t ts)
  obtain credits inspected where ca: "creditsAtLevel (ta_candidates t) level (ta_budget t) = (credits, inspected)"
    by fastforce
  have cost: "(if credits > ta_budget t then ta_budget t else credits) = tier_cost level t"
    using creditsAtLevel_exact [of "ta_candidates t" level "ta_budget t"]
      creditsAtLevel_above [of "ta_budget t" "ta_candidates t" level] ca
    by (cases "headroom (ta_candidates t) level \<le> ta_budget t") (auto simp: tier_cost_def)
  have rest: "0 \<le> total_cost ts level" unfolding total_cost_def
    using Cons.prems(1) by (intro sum_list_nonneg_int) (fastforce simp: tier_cost_def)
  show ?case
  proof (cases "acc + tier_cost level t > budget")
    case True
    then show ?thesis using rest by (simp add: ca cost total_cost_def)
  next
    case False
    then show ?thesis using Cons.IH [of "acc + tier_cost level t"] Cons.prems(1)
      by (simp add: ca cost total_cost_def add.assoc)
  qed
qed (simp add: total_cost_def)

lemma creditsAt_le_iff:
  assumes "\<forall>t \<in> set ts. 0 < ta_budget t" "0 < budget"
  shows "fst (creditsAt ts budget level 0 0) \<le> budget \<longleftrightarrow> total_cost ts level \<le> budget"
  using creditsAt_cost [OF assms(1), of 0 budget level 0] assms(2) by auto

lemma concat_minimum_cost:
  assumes "\<forall>t \<in> set ts. 0 < ta_budget t"
  shows "total_cost ts (minimum_level (concat (map ta_candidates ts))) = 0"
proof -
  have "headroom (ta_candidates t) (minimum_level (concat (map ta_candidates ts))) = 0" if "t \<in> set ts" for t
  proof -
    have "need (minimum_level (concat (map ta_candidates ts))) c = 0" if "c \<in> set (ta_candidates t)" for c
      using minimum_level_le [of c "concat (map ta_candidates ts)"] that \<open>t \<in> set ts\<close> by (fastforce simp: need_def)
    then show ?thesis by (simp add: headroom_def cong: map_cong)
  qed
  then have "map (tier_cost (minimum_level (concat (map ta_candidates ts)))) ts = map (\<lambda>_. 0) ts"
    using assms by (auto simp: tier_cost_def)
  then show ?thesis by (simp add: total_cost_def sum_list_0 del: map_eq_conv)
qed

lemma minimum_level_mem: "cs \<noteq> [] \<Longrightarrow> \<exists>c \<in> set cs. minimum_level cs = ac_floor c"
proof -
  assume ne: "cs \<noteq> []"
  have "minimum_level cs \<in> set (ac_floor (hd cs) # map ac_floor cs)"
    unfolding minimum_level_def fold_min_eq by (rule Min_in) auto
  then show ?thesis using ne hd_in_set [of cs] by auto
qed

lemma global_level_spec:
  assumes "ts \<noteq> []" "\<forall>t \<in> set ts. 0 < ta_budget t \<and> ta_candidates t \<noteq> [] \<and> fillable (ta_candidates t)"
    "0 < budget" "global_level ts budget = (level, visits)"
  shows "0 \<le> level" "level \<le> highestCeiling (concat (map ta_candidates ts))" "total_cost ts level \<le> budget"
    "level < highestCeiling (concat (map ta_candidates ts)) \<Longrightarrow> budget < total_cost ts (level + 1)"
proof -
  let ?cs = "concat (map ta_candidates ts)"
  let ?min = "minimum_level ?cs" and ?max = "highestCeiling ?cs"
  have pos: "\<forall>t \<in> set ts. 0 < ta_budget t" using assms(2) by blast
  have ne: "?cs \<noteq> []" using assms(1,2) by (cases ts) auto
  obtain c where c: "c \<in> set ?cs" "?min = ac_floor c" using minimum_level_mem [OF ne] by blast
  have fl: "0 \<le> ac_floor c \<and> ac_floor c \<le> ac_ceiling c" using c(1) assms(2) fillable_mem by fastforce
  have le: "?min \<le> ?max" using highestCeiling_bounds(2) [OF c(1)] c(2) fl by linarith
  have min0: "fst (creditsAt ts budget ?min 0 0) \<le> budget"
    using creditsAt_le_iff [OF pos assms(3)] concat_minimum_cost [OF pos] assms(3) by simp
  have mono: "\<forall>l l'. l \<le> l' \<longrightarrow> fst (creditsAt ts budget l' 0 0) \<le> budget \<longrightarrow> fst (creditsAt ts budget l 0 0) \<le> budget"
    unfolding creditsAt_le_iff [OF pos assms(3)] by (meson total_cost_mono order_trans)
  obtain credits v where top: "creditsAt ts budget ?max 0 0 = (credits, v)" by fastforce
  have "0 \<le> level \<and> level \<le> ?max \<and> total_cost ts level \<le> budget \<and> (level < ?max \<longrightarrow> budget < total_cost ts (level + 1))"
  proof (cases "credits > budget")
    case True
    then have "level_search (\<lambda>middle. creditsAt ts budget middle 0 0) budget ?min ?max v = (level, visits)"
      using assms(4) top by (simp add: global_level_def Let_def)
    from level_search_spec [OF le min0 mono this] show ?thesis
      using fl c(2) by (simp add: creditsAt_le_iff [OF pos assms(3)] linorder_not_le [symmetric])
  next
    case False
    then show ?thesis
      using assms(4) top creditsAt_le_iff [OF pos assms(3), of ?max] highestCeiling_bounds(1) [of ?cs]
      by (auto simp: global_level_def Let_def)
  qed
  then show "0 \<le> level" "level \<le> ?max" "total_cost ts level \<le> budget" "level < ?max \<Longrightarrow> budget < total_cost ts (level + 1)"
    by blast+
qed

section \<open>Filling every tier to the level\<close>

definition of_tier :: "allocator \<Rightarrow> int \<Rightarrow> tier_allocation \<Rightarrow> pool \<Rightarrow> bool"
  where "of_tier a budget x p \<longleftrightarrow> (ta_tierID x, p) \<in> set (a_pools a) \<and>
    ta_budget x = p_parallelism p - p_active p \<and> 0 < ta_budget x \<and>
    ta_candidates x = allocationCandidates (p_order p) (p_state p) (min (ta_budget x) budget) \<and>
    ta_candidates x \<noteq> []"

lemma of_tier_unique:
  "pools_wf a \<Longrightarrow> of_tier a b x p \<Longrightarrow> (ta_tierID x, p') \<in> set (a_pools a) \<Longrightarrow> p' = p"
  unfolding of_tier_def using pools_wfD(1) eq_key_imp_eq_value by metis

lemma fillTier_step:
  assumes wf: "pools_wf a" and x: "of_tier a budget x p" and pos: "0 < budget" "0 \<le> level"
    and bk: "plan_books a (gf_plan g)"
    and seed: "\<And>k. k \<in> set (p_order p) \<Longrightarrow> ap_desired (gf_plan g) k = active_of p k"
  defines "g' \<equiv> fillTier level x g"
  shows "plan_books a (gf_plan g')"
    "k \<notin> set (p_order p) \<Longrightarrow> ap_desired (gf_plan g') k = ap_desired (gf_plan g) k"
    "offers_ok p (ap_desired (gf_plan g'))"
    "tsum (ap_desired (gf_plan g')) p = p_active p + tier_cost level x"
    "ap_totalAdvertised (gf_plan g') = ap_totalAdvertised (gf_plan g) + tier_cost level x"
    "gf_used g' = gf_used g + tier_cost level x"
    "gf_remainingByTier g' = (gf_remainingByTier g)(ta_tierID x := ta_budget x - tier_cost level x)"
proof -
  obtain caps used visits where wfill: "waterFill (ta_candidates x) (ta_budget x) level = (caps, used, visits)"
    by (cases "waterFill (ta_candidates x) (ta_budget x) level")
  have tp: "(ta_tierID x, p) \<in> set (a_pools a)" and tb: "0 < ta_budget x" and ne: "ta_candidates x \<noteq> []"
    and cs: "ta_candidates x = allocationCandidates (p_order p) (p_state p) (min (ta_budget x) budget)"
    using x by (auto simp: of_tier_def)
  have cb: "0 \<le> min (ta_budget x) budget" using tb pos by simp
  have out: "gf_plan g' = setDesiredCapacities (ta_tierID x) (ta_candidates x) caps (gf_plan g)"
    "gf_used g' = gf_used g + used"
    "gf_remainingByTier g' = (gf_remainingByTier g)(ta_tierID x := ta_budget x - used)"
    by (simp_all add: g'_def fillTier_def wfill)
  have ft: "plan_books a (gf_plan g')"
    "\<And>k. k \<notin> set (p_order p) \<Longrightarrow> ap_desired (gf_plan g') k = ap_desired (gf_plan g) k"
    "used = tier_cost level x"
    "tsum (ap_desired (gf_plan g')) p = tsum (ap_desired (gf_plan g)) p + used"
    "ap_totalAdvertised (gf_plan g') = ap_totalAdvertised (gf_plan g) + used"
    "offers_ok p (ap_desired (gf_plan g'))"
    using fill_tier [OF wf tp bk _ cs ne cb tb pos(2) wfill] seed by (auto simp: out(1) tier_cost_def)
  show "tsum (ap_desired (gf_plan g')) p = p_active p + tier_cost level x"
    using ft(3,4) seeded_tsum [OF pools_wfD(2) [OF wf tp] seed] by simp
  show "plan_books a (gf_plan g')" "offers_ok p (ap_desired (gf_plan g'))"
    "ap_totalAdvertised (gf_plan g') = ap_totalAdvertised (gf_plan g) + tier_cost level x"
    "gf_used g' = gf_used g + tier_cost level x"
    "gf_remainingByTier g' = (gf_remainingByTier g)(ta_tierID x := ta_budget x - tier_cost level x)"
    using ft out by simp_all
  show "k \<notin> set (p_order p) \<Longrightarrow> ap_desired (gf_plan g') k = ap_desired (gf_plan g) k" by (rule ft(2))
qed

text \<open>The state after a list of tiers has been filled, relative to the state before.\<close>

definition filled :: "allocator \<Rightarrow> int \<Rightarrow> int \<Rightarrow> tier_allocation list \<Rightarrow> global_fill \<Rightarrow> global_fill \<Rightarrow> bool"
  where "filled a budget level ts g g' \<longleftrightarrow> plan_books a (gf_plan g') \<and>
    (\<forall>x \<in> set ts. \<forall>p. of_tier a budget x p \<longrightarrow>
      offers_ok p (ap_desired (gf_plan g')) \<and>
      tsum (ap_desired (gf_plan g')) p = p_active p + tier_cost level x \<and>
      gf_remainingByTier g' (ta_tierID x) = ta_budget x - tier_cost level x) \<and>
    (\<forall>t. t \<notin> set (map ta_tierID ts) \<longrightarrow> gf_remainingByTier g' t = gf_remainingByTier g t) \<and>
    (\<forall>k. (\<forall>x \<in> set ts. \<forall>p. of_tier a budget x p \<longrightarrow> k \<notin> set (p_order p)) \<longrightarrow>
      ap_desired (gf_plan g') k = ap_desired (gf_plan g) k) \<and>
    gf_used g' = gf_used g + total_cost ts level \<and>
    ap_totalAdvertised (gf_plan g') = ap_totalAdvertised (gf_plan g) + total_cost ts level"

lemma filledD:
  assumes "filled a budget level ts g g'"
  shows "plan_books a (gf_plan g')"
    "x \<in> set ts \<Longrightarrow> of_tier a budget x p \<Longrightarrow> offers_ok p (ap_desired (gf_plan g'))"
    "x \<in> set ts \<Longrightarrow> of_tier a budget x p \<Longrightarrow> tsum (ap_desired (gf_plan g')) p = p_active p + tier_cost level x"
    "x \<in> set ts \<Longrightarrow> of_tier a budget x p \<Longrightarrow>
       gf_remainingByTier g' (ta_tierID x) = ta_budget x - tier_cost level x"
    "t \<notin> set (map ta_tierID ts) \<Longrightarrow> gf_remainingByTier g' t = gf_remainingByTier g t"
    "(\<And>x p. x \<in> set ts \<Longrightarrow> of_tier a budget x p \<Longrightarrow> k \<notin> set (p_order p)) \<Longrightarrow>
       ap_desired (gf_plan g') k = ap_desired (gf_plan g) k"
    "gf_used g' = gf_used g + total_cost ts level"
    "ap_totalAdvertised (gf_plan g') = ap_totalAdvertised (gf_plan g) + total_cost ts level"
  using assms unfolding filled_def by blast+

lemma offers_ok_cong: "(\<And>k. k \<in> set (p_order p) \<Longrightarrow> d' k = d k) \<Longrightarrow> offers_ok p d \<Longrightarrow> offers_ok p d'"
  by (simp add: offers_ok_def)

lemma tsum_cong: "(\<And>k. k \<in> set (p_order p) \<Longrightarrow> d' k = d k) \<Longrightarrow> tsum d' p = tsum d p"
  by (simp add: tsum_def cong: map_cong)

lemma of_tier_disjoint:
  assumes "pools_wf a" "of_tier a b x p" "of_tier a b' y q" "k \<in> set (p_order p)" "k \<in> set (p_order q)"
  shows "ta_tierID y = ta_tierID x"
  using assms tiers_disjoint [of a "ta_tierID x" p "ta_tierID y" q k] by (simp add: of_tier_def)

lemma fillTiers_spec:
  assumes wf: "pools_wf a" and pos: "0 < budget" "0 \<le> level"
    and "\<forall>x \<in> set ts. \<exists>p. of_tier a budget x p" "distinct (map ta_tierID ts)" "plan_books a (gf_plan g)"
    and "\<forall>x \<in> set ts. \<forall>p. of_tier a budget x p \<longrightarrow>
        (\<forall>k \<in> set (p_order p). ap_desired (gf_plan g) k = active_of p k)"
  shows "filled a budget level ts g (fold (fillTier level) ts g)"
  using assms(4-)
proof (induction ts arbitrary: g)
  case (Cons x ts)
  obtain p where p: "of_tier a budget x p" using Cons.prems(1) by auto
  have seed: "ap_desired (gf_plan g) k = active_of p k" if "k \<in> set (p_order p)" for k
    using Cons.prems(4) p that by simp
  define g1 where "g1 = fillTier level x g"
  define g' where "g' = fold (fillTier level) ts g1"
  have one: "plan_books a (gf_plan g1)"
    "\<And>k. k \<notin> set (p_order p) \<Longrightarrow> ap_desired (gf_plan g1) k = ap_desired (gf_plan g) k"
    "offers_ok p (ap_desired (gf_plan g1))" "tsum (ap_desired (gf_plan g1)) p = p_active p + tier_cost level x"
    "ap_totalAdvertised (gf_plan g1) = ap_totalAdvertised (gf_plan g) + tier_cost level x"
    "gf_used g1 = gf_used g + tier_cost level x"
    "gf_remainingByTier g1 = (gf_remainingByTier g)(ta_tierID x := ta_budget x - tier_cost level x)"
    unfolding g1_def using fillTier_step [OF wf p pos Cons.prems(3)] seed by blast+
  have new: "ta_tierID x \<notin> set (map ta_tierID ts)" using Cons.prems(2) by simp
  have apart: "k \<notin> set (p_order p)" if "y \<in> set ts" "of_tier a budget y q" "k \<in> set (p_order q)" for y q k
    using of_tier_disjoint [OF wf p that(2) _ that(3)] that(1) new by (metis image_eqI list.set_map)
  have ih: "filled a budget level ts g1 g'"
    unfolding g'_def
  proof (rule Cons.IH [OF _ _ one(1)])
    show "\<forall>y \<in> set ts. \<forall>q. of_tier a budget y q \<longrightarrow> (\<forall>k \<in> set (p_order q). ap_desired (gf_plan g1) k = active_of q k)"
      using Cons.prems(4) one(2) apart by (metis list.set_intros(2))
  qed (use Cons.prems in auto)
  have same: "ap_desired (gf_plan g') k = ap_desired (gf_plan g1) k" if "k \<in> set (p_order p)" for k
    using filledD(6) [OF ih] apart that by blast
  have mine: "offers_ok q (ap_desired (gf_plan g')) \<and> tsum (ap_desired (gf_plan g')) q = p_active q + tier_cost level x \<and>
      gf_remainingByTier g' (ta_tierID x) = ta_budget x - tier_cost level x" if "of_tier a budget x q" for q
  proof -
    have "q = p" using of_tier_unique [OF wf p] that by (simp add: of_tier_def)
    then show ?thesis
      using offers_ok_cong [OF same one(3)] tsum_cong [OF same] one(4,7) filledD(5) [OF ih new] by simp
  qed
  have "filled a budget level (x # ts) g g'"
    unfolding filled_def
  proof (intro conjI allI impI)
    show "\<forall>y \<in> set (x # ts). \<forall>q. of_tier a budget y q \<longrightarrow> offers_ok q (ap_desired (gf_plan g')) \<and>
      tsum (ap_desired (gf_plan g')) q = p_active q + tier_cost level y \<and>
      gf_remainingByTier g' (ta_tierID y) = ta_budget y - tier_cost level y"
      using mine filledD(2-4) [OF ih] by (metis set_ConsD)
    show "ap_desired (gf_plan g') k = ap_desired (gf_plan g) k"
      if "\<forall>y \<in> set (x # ts). \<forall>q. of_tier a budget y q \<longrightarrow> k \<notin> set (p_order q)" for k
      using filledD(6) [OF ih, of k] one(2) [of k] that p by simp
  qed (use filledD [OF ih] one(5-7) in \<open>auto simp: total_cost_def\<close>)
  then show ?case by (simp add: g1_def g'_def)
qed (simp add: total_cost_def filled_def)

section \<open>The left-over credits\<close>

lemma key_pool:
  assumes "pools_wf a" "k \<in> set (a_order a)"
  obtains p where "(tierKey a k, p) \<in> set (a_pools a)" "map_of (a_pools a) (tierKey a k) = Some p"
    "k \<in> set (p_order p)" "poolOf a k = Some p" "binding_of a k = p_state p k"
proof -
  from assms pools_wfD(6) obtain t where t: "a_tierOf a k = Some t" by blast
  from pools_wfD(4) [OF assms(1) t] obtain p where p: "map_of (a_pools a) t = Some p" "k \<in> set (p_order p)" by blast
  show ?thesis
    by (rule that [of p]) (use t p in \<open>auto simp: tierKey_def poolOf_def binding_of_def dest: map_of_SomeD\<close>)
qed

text \<open>Every tier has offers in bounds and keeps its remaining budget in reserve.\<close>

definition reserve_ok :: "allocator \<Rightarrow> (tier_id \<Rightarrow> int) \<Rightarrow> (binding_key \<Rightarrow> int) \<Rightarrow> bool"
  where "reserve_ok a byTier d \<longleftrightarrow> (\<forall>t. 0 \<le> byTier t) \<and>
    (\<forall>(t, p) \<in> set (a_pools a). offers_ok p d \<and> tsum d p + byTier t \<le> max (p_parallelism p) (p_active p))"

lemma reserve_ok_raise:
  assumes wf: "pools_wf a" and r: "reserve_ok a byTier d" and tp: "(t, p) \<in> set (a_pools a)" "k \<in> set (p_order p)"
    and offer: "offer_ok (the (p_state p k)) v" and room: "v - d k \<le> n" "0 \<le> byTier t - n"
  shows "reserve_ok a (byTier(t := byTier t - n)) (d(k := v))"
proof -
  have "offers_ok q (d(k := v)) \<and> tsum (d(k := v)) q + (byTier(t := byTier t - n)) s \<le> max (p_parallelism q) (p_active q)"
    if sq: "(s, q) \<in> set (a_pools a)" for s q
  proof (cases "k \<in> set (p_order q)")
    case True
    then have "s = t \<and> q = p" using tiers_disjoint [OF wf tp(1) sq tp(2)] by blast
    moreover have "offers_ok p d" "tsum d p + byTier t \<le> max (p_parallelism p) (p_active p)"
      using r tp(1) by (auto simp: reserve_ok_def)
    ultimately show ?thesis
      using offer room tp(2) tsum_upd [OF pool_wfD(1) [OF pools_wfD(2) [OF wf tp(1)]], of d k v]
      by (auto intro: offers_ok_upd)
  next
    case False
    then have "s \<noteq> t" using tp sq pools_wfD(1) [OF wf] eq_key_imp_eq_value by fastforce
    moreover have "offers_ok q d" "tsum d q + byTier s \<le> max (p_parallelism q) (p_active q)"
      using r sq by (auto simp: reserve_ok_def)
    ultimately show ?thesis
      using False tsum_upd [OF pool_wfD(1) [OF pools_wfD(2) [OF wf sq]], of d k v] by (auto simp: offers_ok_def)
  qed
  then show ?thesis using r room(2) by (auto simp: reserve_ok_def)
qed

lemma reserve_ok_drop:
  assumes "reserve_ok a byTier d"
  shows "reserve_ok a (\<lambda>_. 0) d"
proof -
  have "tsum d p \<le> max (p_parallelism p) (p_active p)" "offers_ok p d" if "(t, p) \<in> set (a_pools a)" for t p
  proof -
    have "tsum d p + byTier t \<le> max (p_parallelism p) (p_active p)" "offers_ok p d" "0 \<le> byTier t"
      using assms that by (auto simp: reserve_ok_def)
    then show "tsum d p \<le> max (p_parallelism p) (p_active p)" "offers_ok p d" by linarith+
  qed
  then show ?thesis by (auto simp: reserve_ok_def)
qed

lemma globalRemainder_spec:
  assumes wf: "pools_wf a"
    and "set ks \<subseteq> set (a_order a)" "0 \<le> remaining" "plan_books a plan" "reserve_ok a byTier (ap_desired plan)"
  shows "plan_books a (globalRemainder a level ks remaining byTier plan) \<and>
    reserve_ok a (\<lambda>_. 0) (ap_desired (globalRemainder a level ks remaining byTier plan)) \<and>
    ap_totalAdvertised (globalRemainder a level ks remaining byTier plan) \<le> ap_totalAdvertised plan + remaining"
  using assms(2-)
proof (induction ks arbitrary: remaining byTier plan)
  case Nil
  then show ?case using reserve_ok_drop by simp
next
  case (Cons k ks)
  have sub: "set ks \<subseteq> set (a_order a)" "k \<in> set (a_order a)" using Cons.prems(1) by auto
  obtain p where p: "(tierKey a k, p) \<in> set (a_pools a)" "k \<in> set (p_order p)" "binding_of a k = p_state p k"
    using key_pool [OF wf sub(2)] by blast
  let ?b = "the (p_state p k)" and ?v = "ap_desired plan k"
  consider (stop) "remaining = 0"
    | (skip) "remaining \<noteq> 0" "byTier (tierKey a k) = 0 \<or> b_held ?b \<or> ?v \<noteq> level \<or> ?v \<ge> b_assignedDemand ?b"
    | (give) "remaining \<noteq> 0" "byTier (tierKey a k) \<noteq> 0" "\<not> b_held ?b" "?v = level" "?v < b_assignedDemand ?b"
    by linarith
  then show ?case
  proof cases
    case stop
    then show ?thesis using Cons.prems reserve_ok_drop by simp
  next
    case skip
    then have "globalRemainder a level (k # ks) remaining byTier plan = globalRemainder a level ks remaining byTier plan"
      using p(3) by (auto simp: Let_def)
    then show ?thesis using Cons.IH [OF sub(1) Cons.prems(2-4)] by simp
  next
    case give
    let ?plan = "setDesiredCapacity (tierKey a k) k (?v + 1) plan"
    let ?by = "byTier(tierKey a k := byTier (tierKey a k) - 1)"
    have step: "globalRemainder a level (k # ks) remaining byTier plan = globalRemainder a level ks (remaining - 1) ?by ?plan"
      using give p(3) by (simp add: Let_def)
    have "offer_ok ?b ?v" using Cons.prems(4) p(1,2) by (auto simp: reserve_ok_def offers_ok_def)
    then have "offer_ok ?b (?v + 1)"
      using give(3,5) pool_wfD(5) [OF pools_wfD(2) [OF wf p(1)] p(2)] by (auto simp: offer_ok_def silent_def)
    moreover have "0 \<le> byTier (tierKey a k) - 1"
    proof -
      have "0 \<le> byTier (tierKey a k)" using Cons.prems(4) by (simp add: reserve_ok_def)
      with give(2) show ?thesis by linarith
    qed
    ultimately have res: "reserve_ok a ?by (ap_desired ?plan)"
      using reserve_ok_raise [OF wf Cons.prems(4) p(1,2), of "?v + 1" 1] by simp
    have pos: "0 \<le> remaining - 1" using give(1) Cons.prems(2) by linarith
    note ih = Cons.IH [OF sub(1) pos setDesired_books [OF wf Cons.prems(3) p(1,2)] res]
    have "ap_totalAdvertised ?plan + (remaining - 1) = ap_totalAdvertised plan + remaining" by simp
    with ih show ?thesis unfolding step by (simp only:)
  qed
qed

section \<open>Every plan\<close>

definition plan_within :: "allocator \<Rightarrow> allocation_plan \<Rightarrow> bool"
  where "plan_within a plan \<longleftrightarrow> plan_books a plan \<and> reserve_ok a (\<lambda>_. 0) (ap_desired plan)"

lemma globalTiers_of_tier:
  "x \<in> set (globalTiers (a_pools a) budget) \<Longrightarrow> \<exists>p. of_tier a budget x p"
  by (erule globalTiers_mem) (auto simp: of_tier_def)

lemma seed_within:
  assumes "pools_wf a"
  shows "plan_within a (fold seedTier (a_pools a) (emptyPlan g))"
proof -
  note seed = seed_books [OF assms, where g = g]
  have "offers_ok p (ap_desired (fold seedTier (a_pools a) (emptyPlan g)))"
    "tsum (ap_desired (fold seedTier (a_pools a) (emptyPlan g))) p = p_active p"
    if "(t, p) \<in> set (a_pools a)" for t p
    using seeded_offers seeded_tsum [OF pools_wfD(2) [OF assms that]] seed(2) [OF that] by auto
  then show ?thesis using seed(1) by (auto simp: plan_within_def reserve_ok_def)
qed

lemma filled_reserve:
  assumes wf: "pools_wf a" and g: "filled a budget level ts g0 g" and none: "gf_remainingByTier g0 = (\<lambda>_. 0)"
    and tiers: "\<forall>x \<in> set ts. \<exists>p. of_tier a budget x p"
    and seed: "\<And>t p k. (t, p) \<in> set (a_pools a) \<Longrightarrow> k \<in> set (p_order p) \<Longrightarrow> ap_desired (gf_plan g0) k = active_of p k"
  shows "reserve_ok a (gf_remainingByTier g) (ap_desired (gf_plan g))"
proof -
  have "0 \<le> gf_remainingByTier g t" for t
  proof (cases "t \<in> set (map ta_tierID ts)")
    case True
    then obtain x where x: "x \<in> set ts" "ta_tierID x = t" by auto
    with tiers obtain p where "of_tier a budget x p" by blast
    then show ?thesis using filledD(4) [OF g x(1)] x(2) by (simp add: tier_cost_def)
  qed (use filledD(5) [OF g] none in simp)
  moreover have "offers_ok p (ap_desired (gf_plan g)) \<and>
      tsum (ap_desired (gf_plan g)) p + gf_remainingByTier g t \<le> max (p_parallelism p) (p_active p)"
    if tp: "(t, p) \<in> set (a_pools a)" for t p
  proof (cases "t \<in> set (map ta_tierID ts)")
    case True
    then obtain x where x: "x \<in> set ts" "ta_tierID x = t" by auto
    with tiers obtain q where q: "of_tier a budget x q" by blast
    then have "q = p" using of_tier_unique [OF wf q] tp x(2) by simp
    with q have "ta_budget x = p_parallelism p - p_active p" by (simp add: of_tier_def)
    then show ?thesis using filledD(2-4) [OF g x(1) q] x(2) \<open>q = p\<close> by simp
  next
    case False
    have "ap_desired (gf_plan g) k = active_of p k" if k: "k \<in> set (p_order p)" for k
    proof -
      have "k \<notin> set (p_order q)" if "x \<in> set ts" "of_tier a budget x q" for x q
        using tiers_disjoint [OF wf tp _ k, of "ta_tierID x" q] that False by (auto simp: of_tier_def)
      then show ?thesis using filledD(6) [OF g] seed [OF tp k] by simp
    qed
    then show ?thesis
      using seeded_offers seeded_tsum [OF pools_wfD(2) [OF wf tp]] filledD(5) [OF g False] none by simp
  qed
  ultimately show ?thesis by (auto simp: reserve_ok_def)
qed

lemma allocateGlobal_within:
  assumes wf: "pools_wf a"
  defines "plan0 \<equiv> fold seedTier (a_pools a) (emptyPlan (a_planGeneration a))"
  shows "plan_within a (allocateGlobal a plan0)"
    "ap_totalAdvertised (allocateGlobal a plan0) \<le> max (a_globalParallelism a) (a_activeCount a)"
proof -
  define budget where "budget = a_globalParallelism a - a_activeCount a"
  define ts where "ts = globalTiers (a_pools a) budget"
  have base: "plan_within a plan0" unfolding plan0_def by (rule seed_within [OF wf])
  have total0: "ap_totalAdvertised plan0 = a_activeCount a" unfolding plan0_def by (rule seed_books(3) [OF wf])
  have seed: "ap_desired plan0 k = active_of p k" if "(t, p) \<in> set (a_pools a)" "k \<in> set (p_order p)" for t p k
    unfolding plan0_def using seed_books(2) [OF wf that] .
  have "plan_within a (allocateGlobal a plan0) \<and>
    ap_totalAdvertised (allocateGlobal a plan0) \<le> max (a_globalParallelism a) (a_activeCount a)"
  proof (cases "budget \<le> 0 \<or> ts = []")
    case True
    then have "allocateGlobal a plan0 = plan0" by (auto simp: allocateGlobal_def budget_def ts_def Let_def)
    with base total0 show ?thesis by simp
  next
    case False
    then have pos: "0 < budget" and ne: "ts \<noteq> []" by auto
    obtain level visits where lv: "global_level ts budget = (level, visits)" by fastforce
    define g0 where "g0 = \<lparr>gf_plan = plan0, gf_used = 0, gf_remainingByTier = (\<lambda>_. 0), gf_visits = visits\<rparr>"
    define g where "g = fold (fillTier level) ts g0"
    define final where "final = globalRemainder a level (a_order a) (budget - gf_used g) (gf_remainingByTier g) (gf_plan g)"
    have out: "allocateGlobal a plan0 = final\<lparr>ap_allocationVisits :=
        ap_allocationVisits final + gf_visits g + int (length (a_order a))\<rparr>"
      using pos ne by (simp add: allocateGlobal_def budget_def [symmetric] ts_def [symmetric] lv Let_def
          g0_def [symmetric] g_def [symmetric] final_def [symmetric])
    have tiers: "\<forall>x \<in> set ts. \<exists>p. of_tier a budget x p" using globalTiers_of_tier by (auto simp: ts_def)
    have shape: "\<forall>x \<in> set ts. 0 < ta_budget x \<and> ta_candidates x \<noteq> [] \<and> fillable (ta_candidates x)"
    proof
      fix x assume "x \<in> set ts"
      with tiers obtain p where "of_tier a budget x p" by blast
      then show "0 < ta_budget x \<and> ta_candidates x \<noteq> [] \<and> fillable (ta_candidates x)"
        using candidates_fillable [OF pools_wfD(2) [OF wf]] pos by (fastforce simp: of_tier_def)
    qed
    note level = global_level_spec [OF ne shape pos lv]
    have g: "filled a budget level ts g0 g"
      unfolding g_def
      by (rule fillTiers_spec [OF wf pos level(1) tiers])
        (use base seed globalTiers_distinct [OF pools_wfD(1) [OF wf]] in
          \<open>auto simp: g0_def plan_within_def ts_def of_tier_def\<close>)
    have res: "reserve_ok a (gf_remainingByTier g) (ap_desired (gf_plan g))"
      by (rule filled_reserve [OF wf g _ tiers]) (use seed in \<open>auto simp: g0_def\<close>)
    have left: "0 \<le> budget - gf_used g" using filledD(7) [OF g] level(3) by (simp add: g0_def)
    have fin: "plan_within a final" "ap_totalAdvertised final \<le> ap_totalAdvertised (gf_plan g) + (budget - gf_used g)"
      using globalRemainder_spec [OF wf _ left filledD(1) [OF g] res, of "a_order a" level]
      by (auto simp: plan_within_def final_def)
    have "ap_totalAdvertised (gf_plan g) + (budget - gf_used g) = a_globalParallelism a"
      using filledD(7,8) [OF g] total0 by (simp add: g0_def budget_def)
    with fin out show ?thesis by (simp add: plan_within_def)
  qed
  then show "plan_within a (allocateGlobal a plan0)"
    "ap_totalAdvertised (allocateGlobal a plan0) \<le> max (a_globalParallelism a) (a_activeCount a)" by blast+
qed

lemma reserve_ok_room:
  assumes "pools_wf a" "reserve_ok a (\<lambda>_. 0) d" "(t, p) \<in> set (a_pools a)" "tsum d p < p_parallelism p"
  shows "reserve_ok a ((\<lambda>_. 0)(t := 1)) d"
proof -
  have "offers_ok q d \<and> tsum d q + ((\<lambda>_. 0)(t := 1)) s \<le> max (p_parallelism q) (p_active q)"
    if sq: "(s, q) \<in> set (a_pools a)" for s q
  proof (cases "s = t")
    case True
    then have "q = p" using sq assms(1,3) pools_wfD(1) eq_key_imp_eq_value by metis
    then show ?thesis using True assms(2-4) by (auto simp: reserve_ok_def)
  next
    case False
    have "offers_ok q d \<and> tsum d q + 0 \<le> max (p_parallelism q) (p_active q)"
      using assms(2) sq unfolding reserve_ok_def by blast
    with False show ?thesis by simp
  qed
  then show ?thesis by (auto simp: reserve_ok_def)
qed

lemma setGlobalDiscovery_within:
  assumes wf: "pools_wf a" and plan: "plan_within a plan"
    and bound: "ap_totalAdvertised plan \<le> max (a_globalParallelism a) (a_activeCount a)"
  shows "plan_within a (setGlobalDiscovery a plan)"
    "ap_totalAdvertised (setGlobalDiscovery a plan) \<le> max (a_globalParallelism a) (a_activeCount a)"
proof -
  define holder where "holder = a_order a ! a_discovery a"
  have "plan_within a (setGlobalDiscovery a plan) \<and>
    ap_totalAdvertised (setGlobalDiscovery a plan) \<le> max (a_globalParallelism a) (a_activeCount a)"
  proof (cases "a_order a = []")
    case True
    with plan bound show ?thesis by (simp add: setGlobalDiscovery_def)
  next
    case False
    then have "holder \<in> set (a_order a)" using pools_wfD(7) [OF wf] by (simp add: holder_def)
    then obtain p where p: "(tierKey a holder, p) \<in> set (a_pools a)" "map_of (a_pools a) (tierKey a holder) = Some p"
      "holder \<in> set (p_order p)" using key_pool [OF wf] by metis
    let ?plan = "plan\<lparr>ap_discoveryByTier := (ap_discoveryByTier plan)(tierKey a holder := holder)\<rparr>"
    have w: "plan_within a ?plan" using plan by (simp add: plan_within_def)
    have bk: "plan_books a ?plan" using w by (simp add: plan_within_def)
    have total: "totalForTier ?plan (tierKey a holder) = tsum (ap_desired plan) p"
      using totalForTier_books [OF bk p(1)] by simp
    show ?thesis
    proof (cases "a_globalParallelism a \<le> ap_totalAdvertised plan \<or> p_parallelism p \<le> tsum (ap_desired plan) p \<or>
        \<not> silent (the (p_state p holder))")
      case True
      then have "setGlobalDiscovery a plan = ?plan"
        using False total p(2) by (auto simp: setGlobalDiscovery_def Let_def holder_def [symmetric])
      with w bound show ?thesis by simp
    next
      case give: False
      then have out: "setGlobalDiscovery a plan = setDesiredCapacity (tierKey a holder) holder 1 ?plan"
        using False total p(2) by (auto simp: setGlobalDiscovery_def Let_def holder_def [symmetric])
      have "0 \<le> ap_desired plan holder"
      proof -
        have "offer_ok (the (p_state p holder)) (ap_desired plan holder)"
          using w p(1,3) by (auto simp: plan_within_def reserve_ok_def offers_ok_def)
        with give show ?thesis by (simp add: offer_ok_def silent_def)
      qed
      moreover have "reserve_ok a ((\<lambda>_. 0)(tierKey a holder := 1)) (ap_desired plan)"
        using reserve_ok_room [OF wf _ p(1)] w give by (simp add: plan_within_def)
      ultimately have "reserve_ok a (\<lambda>_. 0) ((ap_desired plan)(holder := 1))"
        using reserve_ok_drop [OF reserve_ok_raise [OF wf _ p(1,3) offer_ok_silent]] give by fastforce
      moreover have "plan_books a (setDesiredCapacity (tierKey a holder) holder 1 ?plan)"
        by (rule setDesired_books [OF wf bk p(1,3)])
      moreover have "ap_totalAdvertised plan + (1 - ap_desired plan holder) \<le> max (a_globalParallelism a) (a_activeCount a)"
        using give \<open>0 \<le> ap_desired plan holder\<close> by linarith
      ultimately show ?thesis by (simp add: out plan_within_def)
    qed
  qed
  then show "plan_within a (setGlobalDiscovery a plan)"
    "ap_totalAdvertised (setGlobalDiscovery a plan) \<le> max (a_globalParallelism a) (a_activeCount a)" by blast+
qed

lemma buildPlan_tiers:
  assumes "pools_wf a" "\<not> a_globalParallelism a > 0"
  shows "plan_books a (buildPlan a)"
    "(t, p) \<in> set (a_pools a) \<Longrightarrow> tier_fits p (ap_desired (buildPlan a))"
    "(t, p) \<in> set (a_pools a) \<Longrightarrow> tier_conserves p (ap_desired (buildPlan a))"
proof -
  have out: "buildPlan a = allocateTiers (a_pools a) (fold seedTier (a_pools a) (emptyPlan (a_planGeneration a)))"
    using assms(2) by (simp add: buildPlan_def allocateTiers_def)
  have "distinct (a_pools a)" using pools_wfD(1) [OF assms(1)] by (simp add: distinct_map)
  note all = allocateTiers_spec [OF assms(1) subset_refl this seed_books(1) [OF assms(1)],
      of "a_planGeneration a", folded out]
  from all seed_books(2) [OF assms(1)] show "plan_books a (buildPlan a)"
    "(t, p) \<in> set (a_pools a) \<Longrightarrow> tier_fits p (ap_desired (buildPlan a))"
    "(t, p) \<in> set (a_pools a) \<Longrightarrow> tier_conserves p (ap_desired (buildPlan a))" by blast+
qed

lemma buildPlan_within:
  assumes "pools_wf a"
  shows "plan_within a (buildPlan a)"
    "a_globalParallelism a > 0 \<Longrightarrow>
      ap_totalAdvertised (buildPlan a) \<le> max (a_globalParallelism a) (a_activeCount a)"
proof -
  have "plan_within a (buildPlan a) \<and> (a_globalParallelism a > 0 \<longrightarrow>
      ap_totalAdvertised (buildPlan a) \<le> max (a_globalParallelism a) (a_activeCount a))"
  proof (cases "a_globalParallelism a > 0")
    case True
    then show ?thesis
      using setGlobalDiscovery_within [OF assms allocateGlobal_within [OF assms]] by (simp add: buildPlan_def)
  next
    case False
    then show ?thesis using buildPlan_tiers [OF assms False]
      by (auto simp: plan_within_def reserve_ok_def tier_fits_def)
  qed
  then show "plan_within a (buildPlan a)" "a_globalParallelism a > 0 \<Longrightarrow>
      ap_totalAdvertised (buildPlan a) \<le> max (a_globalParallelism a) (a_activeCount a)" by blast+
qed

end
