(* ===== verification/Allocator.thy ===== *)
theory Allocator
  imports Plan
begin

text \<open>
  The operations of \<^verbatim>\<open>internal/allocator/allocator.go\<close>, each the whole critical
  section the source runs under \<^verbatim>\<open>a.mu\<close>, as a function from allocator to
  allocator.  A write through a pool or binding pointer is a write of the entry
  the pointer was read from.
\<close>

section \<open>Construction and plans\<close>

definition NewWithGlobalParallelism :: "int \<Rightarrow> allocator"
  where "NewWithGlobalParallelism globalParallelism =
    \<lparr>a_globalParallelism = globalParallelism, a_pools = [], a_tierOf = Map.empty, a_order = [],
     a_discovery = 0, a_discoveryGeneration = 0, a_activeCount = 0, a_remoteCapacity = 0,
     a_unknownSessions = 0, a_planGeneration = 0, a_plan = None, a_held = False\<rparr>"

definition New :: allocator
  where "New = NewWithGlobalParallelism 0"

definition invalidatePlan :: "allocator \<Rightarrow> allocator"
  where "invalidatePlan a = a\<lparr>a_planGeneration := a_planGeneration a + 1, a_plan := None\<rparr>"

definition planLocked :: "allocator \<Rightarrow> allocation_plan \<times> allocator"
  where "planLocked a =
    (case a_plan a of Some plan \<Rightarrow> (plan, a)
     | None \<Rightarrow> (let plan = buildPlan a in (plan, a\<lparr>a_plan := Some plan\<rparr>)))"

definition Plan :: "allocator \<Rightarrow> allocation_plan \<times> allocator"
  where "Plan a = (case a_plan a of Some plan \<Rightarrow> (plan, a) | None \<Rightarrow> planLocked a)"

definition Advertised :: "allocator \<Rightarrow> binding_key \<Rightarrow> int"
  where "Advertised a key = ap_desired (fst (Plan a)) key"

definition AdvertisedAll :: "allocator \<Rightarrow> tier_id \<Rightarrow> (binding_key, int) gomap option"
  where "AdvertisedAll a tierID = ap_byTier (fst (Plan a)) tierID"

definition DiscoveryHolder :: "allocator \<Rightarrow> tier_id \<Rightarrow> binding_key"
  where "DiscoveryHolder a tierID = ap_discoveryByTier (fst (Plan a)) tierID"

section \<open>Writes through pointers\<close>

definition on_pool :: "binding_key \<Rightarrow> (pool \<Rightarrow> pool) \<Rightarrow> allocator \<Rightarrow> allocator"
  where "on_pool key f a =
    (case poolOf a key of None \<Rightarrow> a
     | Some p \<Rightarrow> a\<lparr>a_pools := AList.update (tierKey a key) (f p) (a_pools a)\<rparr>)"

definition on_binding :: "binding_key \<Rightarrow> (binding \<Rightarrow> binding) \<Rightarrow> allocator \<Rightarrow> allocator"
  where "on_binding key f = on_pool key (\<lambda>p.
    (case p_state p key of None \<Rightarrow> p | Some b \<Rightarrow> p\<lparr>p_state := (p_state p)(key \<mapsto> f b)\<rparr>))"

section \<open>The discovery pointer\<close>

fun nextDiscovery_from :: "allocator \<Rightarrow> binding_key list \<Rightarrow> nat \<Rightarrow> nat \<Rightarrow> nat \<Rightarrow> nat"
  where
    "nextDiscovery_from a order current i 0 = current"
  | "nextDiscovery_from a order current i (Suc fuel) =
      (let next = (current + i) mod length order in
       case binding_of a (order ! next) of
         Some b \<Rightarrow> if silent b then next else nextDiscovery_from a order current (i + 1) fuel
       | None \<Rightarrow> nextDiscovery_from a order current (i + 1) fuel)"

text \<open>The loop runs \<^verbatim>\<open>i\<close> from 1 to the length of the ring, so that length is its iteration count.\<close>

definition nextDiscovery :: "allocator \<Rightarrow> binding_key list \<Rightarrow> nat \<Rightarrow> nat"
  where "nextDiscovery a order current =
    (if order = [] then 0 else nextDiscovery_from a order current 1 (length order))"

definition still :: "allocator \<Rightarrow> binding_key \<Rightarrow> bool"
  where "still a key = (case binding_of a key of None \<Rightarrow> False | Some b \<Rightarrow> silent b)"

definition advanceDiscoveryFrom :: "binding_key \<Rightarrow> allocator \<Rightarrow> allocator"
  where "advanceDiscoveryFrom key a =
    (if a_globalParallelism a > 0 then
       (if a_order a = [] \<or> a_order a ! a_discovery a \<noteq> key \<or> still a key then a
        else
          (let next = nextDiscovery a (a_order a) (a_discovery a) in
           if next \<noteq> a_discovery a
           then invalidatePlan (a\<lparr>a_discovery := next, a_discoveryGeneration := a_discoveryGeneration a + 1\<rparr>)
           else a))
     else
       (case poolOf a key of None \<Rightarrow> a
        | Some p \<Rightarrow>
           if p_order p = [] \<or> p_order p ! p_discovery p \<noteq> key \<or> still a key then a
           else
             (let next = nextDiscovery a (p_order p) (p_discovery p) in
              if next \<noteq> p_discovery p
              then invalidatePlan (on_pool key (\<lambda>p. p\<lparr>p_discovery := next,
                     p_discoveryGeneration := p_discoveryGeneration p + 1\<rparr>) a)
              else a)))"

section \<open>Registration, demand and holds\<close>

datatype register_error = ConflictingParallelism | AlreadyRegistered

definition newBinding :: "bool \<Rightarrow> binding"
  where "newBinding held =
    \<lparr>b_active = 0, b_assignedDemand = 0, b_held = held, b_published = 0, b_pending = None,
     b_pollID = 0, b_remoteKnown = False\<rparr>"

definition newPool :: "int \<Rightarrow> pool"
  where "newPool parallelism =
    \<lparr>p_parallelism = parallelism, p_order = [], p_state = Map.empty, p_active = 0, p_remote = 0,
     p_unknown = 0, p_discovery = 0, p_discoveryGeneration = 0\<rparr>"

definition Register ::
  "tier_id \<Rightarrow> binding_key \<Rightarrow> int \<Rightarrow> allocator \<Rightarrow> register_error option \<times> allocator"
  where "Register tierID key parallelism a =
    (let a1 = (case map_of (a_pools a) tierID of Some _ \<Rightarrow> a
          | None \<Rightarrow> a\<lparr>a_pools := AList.update tierID (newPool parallelism) (a_pools a)\<rparr>);
         p = the (map_of (a_pools a1) tierID)
     in if p_parallelism p \<noteq> parallelism then (Some ConflictingParallelism, a1)
        else if p_state p key \<noteq> None then (Some AlreadyRegistered, a1)
        else
          (let p' = p\<lparr>p_order := p_order p @ [key],
                      p_state := (p_state p)(key \<mapsto> newBinding (a_held a1)),
                      p_unknown := p_unknown p + 1\<rparr>
           in (None, invalidatePlan (a1\<lparr>a_pools := AList.update tierID p' (a_pools a1),
                 a_tierOf := (a_tierOf a1)(key \<mapsto> tierID),
                 a_order := a_order a1 @ [key],
                 a_unknownSessions := a_unknownSessions a1 + 1\<rparr>))))"

definition SetAssignedDemand :: "binding_key \<Rightarrow> int \<Rightarrow> allocator \<Rightarrow> allocator"
  where "SetAssignedDemand key demand a =
    (case binding_of a key of None \<Rightarrow> a
     | Some b \<Rightarrow>
        (let demand = (if demand < 0 then 0 else demand) in
         if b_assignedDemand b = demand then a
         else
           (let a = invalidatePlan (on_binding key (\<lambda>b. b\<lparr>b_assignedDemand := demand\<rparr>) a) in
            if demand > 0 then advanceDiscoveryFrom key a else a)))"

definition hold_pool :: "bool \<Rightarrow> pool \<Rightarrow> pool"
  where "hold_pool held p = p\<lparr>p_state := (\<lambda>k. map_option (\<lambda>b. b\<lparr>b_held := held\<rparr>) (p_state p k))\<rparr>"

definition thawTier :: "tier_id \<Rightarrow> allocator \<Rightarrow> allocator"
  where "thawTier tierID a =
    (case map_of (a_pools a) tierID of None \<Rightarrow> a
     | Some p \<Rightarrow> if p_order p = [] then a else advanceDiscoveryFrom (p_order p ! p_discovery p) a)"

definition Hold :: "bool \<Rightarrow> allocator \<Rightarrow> allocator"
  where "Hold held a =
    (if a_held a = held then a
     else
       (let a = invalidatePlan (a\<lparr>a_held := held,
                  a_pools := map (\<lambda>(tierID, p). (tierID, hold_pool held p)) (a_pools a)\<rparr>)
        in if held then a
           else
             (let a = (if a_order a = [] then a else advanceDiscoveryFrom (a_order a ! a_discovery a) a)
              in fold thawTier (keys (a_pools a)) a)))"

section \<open>The physical gate\<close>

definition TryReserve :: "binding_key \<Rightarrow> allocator \<Rightarrow> bool \<times> allocator"
  where "TryReserve key a =
    (case poolOf a key of None \<Rightarrow> (False, a)
     | Some p \<Rightarrow>
        (case p_state p key of None \<Rightarrow> (False, a)
         | Some b \<Rightarrow>
            if b_held b then (False, a)
            else if p_active p \<ge> p_parallelism p then (False, a)
            else if a_globalParallelism a > 0 \<and> a_activeCount a \<ge> a_globalParallelism a then (False, a)
            else
              (let a = on_binding key (\<lambda>b. b\<lparr>b_active := b_active b + 1\<rparr>) a;
                   a = on_pool key (\<lambda>p. p\<lparr>p_active := p_active p + 1\<rparr>) a;
                   a = a\<lparr>a_activeCount := a_activeCount a + 1\<rparr>
               in (True, advanceDiscoveryFrom key (invalidatePlan a)))))"

definition Adopt :: "binding_key \<Rightarrow> allocator \<Rightarrow> bool \<times> allocator"
  where "Adopt key a =
    (case binding_of a key of None \<Rightarrow> (False, a)
     | Some b \<Rightarrow>
        (let a = on_binding key (\<lambda>b. b\<lparr>b_active := b_active b + 1\<rparr>) a;
             a = on_pool key (\<lambda>p. p\<lparr>p_active := p_active p + 1\<rparr>) a;
             a = a\<lparr>a_activeCount := a_activeCount a + 1\<rparr>;
             a = advanceDiscoveryFrom key (invalidatePlan a);
             p = the (poolOf a key)
         in (if p_active p > p_parallelism p then True
             else a_globalParallelism a > 0 \<and> a_activeCount a > a_globalParallelism a, a)))"

definition Release :: "binding_key \<Rightarrow> allocator \<Rightarrow> allocator"
  where "Release key a =
    (case binding_of a key of None \<Rightarrow> a
     | Some b \<Rightarrow>
        if b_active b > 0 then
          (let a = on_binding key (\<lambda>b. b\<lparr>b_active := b_active b - 1\<rparr>) a;
               a = on_pool key (\<lambda>p. p\<lparr>p_active := p_active p - 1\<rparr>) a
           in invalidatePlan (a\<lparr>a_activeCount := a_activeCount a - 1\<rparr>))
        else a)"

definition Active :: "allocator \<Rightarrow> binding_key \<Rightarrow> int"
  where "Active a key = (case binding_of a key of None \<Rightarrow> 0 | Some b \<Rightarrow> b_active b)"

definition ReservableCapacity :: "allocator \<Rightarrow> binding_key \<Rightarrow> int"
  where "ReservableCapacity a key =
    (case poolOf a key of None \<Rightarrow> 0
     | Some p \<Rightarrow>
        (case p_state p key of None \<Rightarrow> 0
         | Some b \<Rightarrow>
            if b_held b then 0
            else
              (let available = p_parallelism p - p_active p;
                   available =
                     (if a_globalParallelism a > 0 then
                        (let globalAvailable = a_globalParallelism a - a_activeCount a in
                         if globalAvailable < available then globalAvailable else available)
                      else available)
               in if available < 0 then 0 else available)))"

section \<open>Sessions and polls\<close>

record poll =
  pl_key :: binding_key
  pl_id :: "64 word"
  pl_capacity :: int
  pl_discovery :: bool
  pl_discoveryGeneration :: "64 word"

definition Valid :: "poll \<Rightarrow> bool"
  where "Valid p \<longleftrightarrow> pl_id p \<noteq> 0"

definition effectivePublished :: "binding \<Rightarrow> int"
  where "effectivePublished b =
    (case b_pending b of
       Some pending \<Rightarrow> if pp_capacity pending > b_published b then pp_capacity pending else b_published b
     | None \<Rightarrow> b_published b)"

text \<open>
  The source hands \<^verbatim>\<open>changeRemoteCapacity\<close> a closure that mutates the binding; here
  it is a function on the binding.  Callers have checked that the binding exists.
\<close>

definition changeRemoteCapacity :: "binding_key \<Rightarrow> (binding \<Rightarrow> binding) \<Rightarrow> allocator \<Rightarrow> allocator"
  where "changeRemoteCapacity key change a =
    (case binding_of a key of None \<Rightarrow> a
     | Some b \<Rightarrow>
        (let before = effectivePublished b;
             a = on_binding key change a;
             delta = effectivePublished (change b) - before;
             a = on_pool key (\<lambda>p. p\<lparr>p_remote := p_remote p + delta\<rparr>) a
         in a\<lparr>a_remoteCapacity := a_remoteCapacity a + delta\<rparr>))"

definition setRemoteKnown :: "binding_key \<Rightarrow> bool \<Rightarrow> allocator \<Rightarrow> allocator"
  where "setRemoteKnown key known a =
    (case binding_of a key of None \<Rightarrow> a
     | Some b \<Rightarrow>
        if b_remoteKnown b = known then a
        else
          (let d = (if known then - 1 else 1);
               a = on_pool key (\<lambda>p. p\<lparr>p_unknown := p_unknown p + d\<rparr>) a;
               a = a\<lparr>a_unknownSessions := a_unknownSessions a + d\<rparr>
           in on_binding key (\<lambda>b. b\<lparr>b_remoteKnown := known\<rparr>) a))"

definition SessionOpened :: "binding_key \<Rightarrow> allocator \<Rightarrow> allocator"
  where "SessionOpened key a =
    (case binding_of a key of None \<Rightarrow> a
     | Some _ \<Rightarrow> setRemoteKnown key True
         (changeRemoteCapacity key (\<lambda>b. b\<lparr>b_published := 0, b_pending := None\<rparr>) a))"

definition closeSession :: "bool \<Rightarrow> binding \<Rightarrow> binding"
  where "closeSession confirmed b =
    (let b = (case b_pending b of
                Some pending \<Rightarrow> if pp_capacity pending > b_published b
                  then b\<lparr>b_published := pp_capacity pending\<rparr> else b
              | None \<Rightarrow> b);
         b = b\<lparr>b_pending := None\<rparr>
     in if confirmed then b\<lparr>b_published := 0\<rparr> else b)"

definition SessionClosed :: "binding_key \<Rightarrow> bool \<Rightarrow> allocator \<Rightarrow> allocator"
  where "SessionClosed key confirmed a =
    (case binding_of a key of None \<Rightarrow> a
     | Some _ \<Rightarrow> setRemoteKnown key confirmed (changeRemoteCapacity key (closeSession confirmed) a))"

definition remoteStateKnown :: "allocator \<Rightarrow> binding_key \<Rightarrow> bool"
  where "remoteStateKnown a key =
    (if a_globalParallelism a > 0 then a_unknownSessions a = 0
     else (case poolOf a key of None \<Rightarrow> False | Some p \<Rightarrow> p_unknown p = 0))"

definition clampPublished :: "allocator \<Rightarrow> binding_key \<Rightarrow> int \<Rightarrow> int"
  where "clampPublished a key desired =
    (if desired \<le> 0 then 0
     else
       (case poolOf a key of None \<Rightarrow> 0
        | Some p \<Rightarrow>
           (let current = (case p_state p key of None \<Rightarrow> 0 | Some b \<Rightarrow> effectivePublished b);
                tierAvailable = p_parallelism p - (p_remote p - current);
                tierAvailable = (if tierAvailable < 0 then 0 else tierAvailable);
                allowed =
                  (if a_globalParallelism a > 0 then
                     (let globalAvailable = a_globalParallelism a - (a_remoteCapacity a - current);
                          globalAvailable = (if globalAvailable < 0 then 0 else globalAvailable)
                      in if globalAvailable < tierAvailable then globalAvailable else tierAvailable)
                   else tierAvailable)
            in if desired < allowed then desired else allowed)))"

definition discoveryAnnouncement :: "allocator \<Rightarrow> binding_key \<Rightarrow> int \<Rightarrow> bool \<times> 64 word"
  where "discoveryAnnouncement a key capacity =
    (if capacity = 0 then (False, 0)
     else
       (case binding_of a key of None \<Rightarrow> (False, 0)
        | Some b \<Rightarrow>
           if \<not> silent b then (False, 0)
           else if a_globalParallelism a > 0 then
             (if a_order a = [] \<or> a_order a ! a_discovery a \<noteq> key then (False, 0)
              else (True, a_discoveryGeneration a))
           else
             (case poolOf a key of None \<Rightarrow> (False, 0)
              | Some p \<Rightarrow>
                 if p_order p = [] \<or> p_order p ! p_discovery p \<noteq> key then (False, 0)
                 else (True, p_discoveryGeneration p))))"

definition invalidPoll :: "binding_key \<Rightarrow> poll"
  where "invalidPoll key =
    \<lparr>pl_key = key, pl_id = 0, pl_capacity = 0, pl_discovery = False, pl_discoveryGeneration = 0\<rparr>"

definition BeginPoll :: "binding_key \<Rightarrow> allocator \<Rightarrow> poll \<times> allocator"
  where "BeginPoll key a =
    (case binding_of a key of None \<Rightarrow> (invalidPoll key, a)
     | Some b \<Rightarrow>
        if b_pending b \<noteq> None then (invalidPoll key, a)
        else
          (let (desired, a) =
             (if remoteStateKnown a key
              then (let (plan, a) = planLocked a in (ap_desired plan key, a)) else (0, a));
               capacity = clampPublished a key desired;
               (discovery, generation) = discoveryAnnouncement a key capacity;
               a = on_binding key (\<lambda>b. b\<lparr>b_pollID := b_pollID b + 1\<rparr>) a;
               pollID = b_pollID b + 1;
               a = changeRemoteCapacity key
                     (\<lambda>b. b\<lparr>b_pending := Some \<lparr>pp_id = pollID, pp_capacity = capacity\<rparr>\<rparr>) a
           in (\<lparr>pl_key = key, pl_id = pollID, pl_capacity = capacity, pl_discovery = discovery,
                pl_discoveryGeneration = generation\<rparr>, a)))"

definition rotateDiscovery :: "poll \<Rightarrow> allocator \<Rightarrow> allocator"
  where "rotateDiscovery poll a =
    (if a_globalParallelism a > 0 then
       (if pl_discoveryGeneration poll \<noteq> a_discoveryGeneration a \<or> a_order a = []
           \<or> a_order a ! a_discovery a \<noteq> pl_key poll then a
        else
          (let next = nextDiscovery a (a_order a) (a_discovery a);
               moved = (next \<noteq> a_discovery a);
               a = a\<lparr>a_discovery := next, a_discoveryGeneration := a_discoveryGeneration a + 1\<rparr>
           in if moved then invalidatePlan a else a))
     else
       (case poolOf a (pl_key poll) of None \<Rightarrow> a
        | Some p \<Rightarrow>
           if pl_discoveryGeneration poll \<noteq> p_discoveryGeneration p \<or> p_order p = []
              \<or> p_order p ! p_discovery p \<noteq> pl_key poll then a
           else
             (let next = nextDiscovery a (p_order p) (p_discovery p);
                  moved = (next \<noteq> p_discovery p);
                  a = on_pool (pl_key poll) (\<lambda>p. p\<lparr>p_discovery := next,
                        p_discoveryGeneration := p_discoveryGeneration p + 1\<rparr>) a
              in if moved then invalidatePlan a else a)))"

definition settlePoll :: "poll \<Rightarrow> bool \<Rightarrow> binding \<Rightarrow> binding"
  where "settlePoll poll succeeded b =
    (let b = (if succeeded then b\<lparr>b_published := pl_capacity poll\<rparr>
              else if pl_capacity poll > b_published b then b\<lparr>b_published := pl_capacity poll\<rparr>
              else b)
     in b\<lparr>b_pending := None\<rparr>)"

definition CompletePoll :: "poll \<Rightarrow> bool \<Rightarrow> bool \<Rightarrow> allocator \<Rightarrow> allocator"
  where "CompletePoll poll succeeded isEmpty a =
    (case binding_of a (pl_key poll) of None \<Rightarrow> a
     | Some b \<Rightarrow>
        (case b_pending b of None \<Rightarrow> a
         | Some pending \<Rightarrow>
            if pp_id pending \<noteq> pl_id poll then a
            else
              (let a = changeRemoteCapacity (pl_key poll) (settlePoll poll succeeded) a in
               if \<not> succeeded \<or> \<not> isEmpty \<or> \<not> pl_discovery poll then a
               else rotateDiscovery poll a)))"

section \<open>Reports\<close>

record binding_credit =
  bc_Key :: binding_key
  bc_AssignedDemand :: int
  bc_Reserved :: int
  bc_Advertised :: int
  bc_RemoteCapacity :: int
  bc_Discovery :: bool

definition PoolReport :: "tier_id \<Rightarrow> allocator \<Rightarrow> (int \<times> binding_credit list) \<times> allocator"
  where "PoolReport tierID a =
    (case map_of (a_pools a) tierID of None \<Rightarrow> ((0, []), a)
     | Some p \<Rightarrow>
        (let (plan, a) = planLocked a;
             discovery = ap_discoveryByTier plan tierID
         in ((p_parallelism p,
              map (\<lambda>k. let b = the (p_state p k) in
                \<lparr>bc_Key = k, bc_AssignedDemand = b_assignedDemand b, bc_Reserved = b_active b,
                 bc_Advertised = ap_desired plan k, bc_RemoteCapacity = effectivePublished b,
                 bc_Discovery = (k = discovery)\<rparr>) (p_order p)), a)))"

record capacity_report =
  cr_Parallelism :: int
  cr_Active :: int
  cr_Advertised :: int
  cr_RemoteCapacity :: int
  cr_Available :: int
  cr_Global :: bool

definition CapacityReport :: "allocator \<Rightarrow> capacity_report \<times> allocator"
  where "CapacityReport a =
    (let global = (a_globalParallelism a > 0);
         limit = (if a_globalParallelism a = 0
                  then sum_list (map (\<lambda>(tierID, p). p_parallelism p) (a_pools a))
                  else a_globalParallelism a);
         (plan, a) = planLocked a;
         available = limit - a_activeCount a
     in (\<lparr>cr_Parallelism = limit, cr_Active = a_activeCount a,
          cr_Advertised = ap_totalAdvertised plan, cr_RemoteCapacity = a_remoteCapacity a,
          cr_Available = (if available < 0 then 0 else available), cr_Global = global\<rparr>, a))"

end
