(* ===== verification/AllocatorInv.thy ===== *)
theory AllocatorInv
  imports Allocator PlanGlobal
begin

text \<open>
  The invariant of the allocator and its preservation by every operation: the
  pools are well formed, every counter is the sum it stands for, and the
  capacity that may be in force remotely stays within each tier's parallelism
  and within the instance-wide limit.
\<close>

section \<open>The invariant\<close>

definition unknown_one :: "binding \<Rightarrow> int"
  where "unknown_one b = (if b_remoteKnown b then 0 else 1)"

definition binding_ok :: "bool \<Rightarrow> binding \<Rightarrow> bool"
  where "binding_ok held b \<longleftrightarrow> b_held b = held \<and> 0 \<le> b_active b \<and> 0 \<le> b_assignedDemand b \<and>
    0 \<le> b_published b \<and> (case b_pending b of None \<Rightarrow> True | Some pending \<Rightarrow> 0 \<le> pp_capacity pending)"

definition pool_ok :: "bool \<Rightarrow> pool \<Rightarrow> bool"
  where "pool_ok held p \<longleftrightarrow> (\<forall>k \<in> set (p_order p). binding_ok held (the (p_state p k))) \<and>
    p_remote p = psum effectivePublished p \<and> p_unknown p = psum unknown_one p \<and>
    p_remote p \<le> p_parallelism p"

definition alloc_ok :: "allocator \<Rightarrow> bool"
  where "alloc_ok a \<longleftrightarrow> pools_wf a \<and> (\<forall>(t, p) \<in> set (a_pools a). pool_ok (a_held a) p) \<and>
    a_remoteCapacity a = sum_list (map (\<lambda>(t, p). p_remote p) (a_pools a)) \<and>
    a_unknownSessions a = sum_list (map (\<lambda>(t, p). p_unknown p) (a_pools a)) \<and>
    (a_globalParallelism a > 0 \<longrightarrow> a_remoteCapacity a \<le> a_globalParallelism a)"

lemma alloc_okD:
  assumes "alloc_ok a"
  shows "pools_wf a" "(t, p) \<in> set (a_pools a) \<Longrightarrow> pool_ok (a_held a) p"
    "a_remoteCapacity a = sum_list (map (\<lambda>(t, p). p_remote p) (a_pools a))"
    "a_unknownSessions a = sum_list (map (\<lambda>(t, p). p_unknown p) (a_pools a))"
    "a_globalParallelism a > 0 \<Longrightarrow> a_remoteCapacity a \<le> a_globalParallelism a"
  using assms unfolding alloc_ok_def by blast+

lemma alloc_okI:
  assumes "distinct (keys (a_pools a))"
    and "\<And>t p. (t, p) \<in> set (a_pools a) \<Longrightarrow> pool_wf a t p"
    and "\<And>t p. (t, p) \<in> set (a_pools a) \<Longrightarrow> pool_ok (a_held a) p"
    and "\<And>k t. a_tierOf a k = Some t \<Longrightarrow> \<exists>p. map_of (a_pools a) t = Some p \<and> k \<in> set (p_order p)"
    and "distinct (a_order a)" "set (a_order a) = dom (a_tierOf a)"
    and "a_discovery a < max 1 (length (a_order a))"
    and "a_activeCount a = sum_list (map (\<lambda>(t, p). p_active p) (a_pools a))"
    and "a_remoteCapacity a = sum_list (map (\<lambda>(t, p). p_remote p) (a_pools a))"
    and "a_unknownSessions a = sum_list (map (\<lambda>(t, p). p_unknown p) (a_pools a))"
    and "a_globalParallelism a > 0 \<Longrightarrow> a_remoteCapacity a \<le> a_globalParallelism a"
  shows "alloc_ok a"
  unfolding alloc_ok_def pools_wf_def using assms by blast

lemma alloc_ok_plan [simp]:
  "alloc_ok (a\<lparr>a_plan := x\<rparr>) = alloc_ok a" "alloc_ok (a\<lparr>a_planGeneration := g\<rparr>) = alloc_ok a"
  "alloc_ok (a\<lparr>a_discoveryGeneration := g\<rparr>) = alloc_ok a"
  by (simp_all add: alloc_ok_def pools_wf_def pool_wf_def)

lemma alloc_ok_invalidate [simp]: "alloc_ok (invalidatePlan a) = alloc_ok a"
  unfolding invalidatePlan_def alloc_ok_def pools_wf_def pool_wf_def by simp

lemma binding_home:
  assumes "pools_wf a" "binding_of a key = Some b"
  obtains p where "poolOf a key = Some p" "p_state p key = Some b" "(tierKey a key, p) \<in> set (a_pools a)"
    "map_of (a_pools a) (tierKey a key) = Some p" "key \<in> set (p_order p)" "a_tierOf a key = Some (tierKey a key)"
proof -
  from assms(2) obtain p where p: "poolOf a key = Some p" "p_state p key = Some b"
    by (auto simp: binding_of_def split: option.splits)
  then have m: "map_of (a_pools a) (tierKey a key) = Some p" by (simp add: poolOf_def)
  have "key \<in> set (p_order p)" using p(2) pool_wfD(2) [OF pools_wfD(3) [OF assms(1) m]] by blast
  then show ?thesis
    using that [of p] p m pool_wfD(3) [OF pools_wfD(3) [OF assms(1) m]] map_of_SomeD [OF m] by blast
qed

section \<open>Rewriting one binding\<close>

text \<open>
  What an operation does when it replaces one binding and moves the counters
  of its pool and of the instance by the difference.
\<close>

definition rebooked :: "binding_key \<Rightarrow> pool \<Rightarrow> binding \<Rightarrow> binding \<Rightarrow> pool \<Rightarrow> bool"
  where "rebooked key p b b' p' \<longleftrightarrow>
    p_order p' = p_order p \<and> p_parallelism p' = p_parallelism p \<and>
    (p_discovery p' = p_discovery p \<or> p_discovery p' < length (p_order p)) \<and>
    p_state p' = (p_state p)(key \<mapsto> b') \<and>
    p_active p' = p_active p + (b_active b' - b_active b) \<and>
    p_remote p' = p_remote p + (effectivePublished b' - effectivePublished b) \<and>
    p_unknown p' = p_unknown p + (unknown_one b' - unknown_one b)"

definition poked :: "binding_key \<Rightarrow> binding \<Rightarrow> binding \<Rightarrow> allocator \<Rightarrow> allocator \<Rightarrow> bool"
  where "poked key b b' a a' \<longleftrightarrow>
    (\<exists>p p'. poolOf a key = Some p \<and> p_state p key = Some b \<and> rebooked key p b b' p' \<and>
      a_pools a' = AList.update (tierKey a key) p' (a_pools a)) \<and>
    a_tierOf a' = a_tierOf a \<and> a_order a' = a_order a \<and> a_discovery a' = a_discovery a \<and>
    a_globalParallelism a' = a_globalParallelism a \<and> a_held a' = a_held a \<and>
    a_activeCount a' = a_activeCount a + (b_active b' - b_active b) \<and>
    a_remoteCapacity a' = a_remoteCapacity a + (effectivePublished b' - effectivePublished b) \<and>
    a_unknownSessions a' = a_unknownSessions a + (unknown_one b' - unknown_one b)"

lemma psum_upd:
  assumes "distinct (p_order p)" "key \<in> set (p_order p)" "p_state p key = Some b"
    "p_order p' = p_order p" "p_state p' = (p_state p)(key \<mapsto> b')"
  shows "psum f p' = psum f p + (f b' - f b)"
  using sum_list_map_upd [OF assms(1,2), of "\<lambda>k. f (the (p_state p' k))" "\<lambda>k. f (the (p_state p k))"] assms(3-5)
  by (simp add: psum_def)

lemma rebooked_wf:
  assumes "pool_wf a t p" "p_state p key = Some b" "rebooked key p b b' p'" "a_tierOf a' = a_tierOf a"
    "0 \<le> b_active b'" "0 \<le> b_assignedDemand b'"
  shows "pool_wf a' t p'"
proof -
  have mem: "key \<in> set (p_order p)" using assms(1,2) pool_wfD(2) by blast
  have eqs: "p_order p' = p_order p" "p_state p' = (p_state p)(key \<mapsto> b')"
    "p_discovery p' = p_discovery p \<or> p_discovery p' < length (p_order p)"
    "p_active p' = p_active p + (b_active b' - b_active b)" using assms(3) by (auto simp: rebooked_def)
  show ?thesis
    unfolding pool_wf_def
    using assms(1,4-6) mem eqs psum_upd [OF pool_wfD(1) [OF assms(1)] mem assms(2) eqs(1,2), of b_active]
    by (auto simp: pool_wf_def)
qed

lemma rebooked_ok:
  assumes "pool_wf a t p" "pool_ok held p" "p_state p key = Some b" "rebooked key p b b' p'"
    "binding_ok held b'" "p_remote p' \<le> p_parallelism p"
  shows "pool_ok held p'"
proof -
  have mem: "key \<in> set (p_order p)" using assms(1,3) pool_wfD(2) by blast
  have eqs: "p_order p' = p_order p" "p_state p' = (p_state p)(key \<mapsto> b')" using assms(4) by (auto simp: rebooked_def)
  show ?thesis
    using assms psum_upd [OF pool_wfD(1) [OF assms(1)] mem assms(3) eqs] by (auto simp: pool_ok_def rebooked_def)
qed

lemma poked_ok:
  assumes ok: "alloc_ok a" and pk: "poked key b b' a a'" and b': "binding_ok (a_held a) b'"
    and tier: "\<And>p. poolOf a key = Some p \<Longrightarrow>
      p_remote p + (effectivePublished b' - effectivePublished b) \<le> p_parallelism p"
    and glob: "a_globalParallelism a > 0 \<Longrightarrow>
      a_remoteCapacity a + (effectivePublished b' - effectivePublished b) \<le> a_globalParallelism a"
  shows "alloc_ok a'"
proof -
  note wf = alloc_okD(1) [OF ok]
  from pk obtain p p' where p: "poolOf a key = Some p" "p_state p key = Some b" "rebooked key p b b' p'"
    and pools: "a_pools a' = AList.update (tierKey a key) p' (a_pools a)" unfolding poked_def by blast
  have rest: "a_tierOf a' = a_tierOf a" "a_order a' = a_order a" "a_discovery a' = a_discovery a"
    "a_globalParallelism a' = a_globalParallelism a" "a_held a' = a_held a"
    "a_activeCount a' = a_activeCount a + (b_active b' - b_active b)"
    "a_remoteCapacity a' = a_remoteCapacity a + (effectivePublished b' - effectivePublished b)"
    "a_unknownSessions a' = a_unknownSessions a + (unknown_one b' - unknown_one b)"
    using pk unfolding poked_def by blast+
  let ?t = "tierKey a key"
  have m: "map_of (a_pools a) ?t = Some p" using p(1) by (simp add: poolOf_def)
  note dist = pools_wfD(1) [OF wf]
  have tp: "(?t, p) \<in> set (a_pools a)" using m by (rule map_of_SomeD)
  have fields: "p_order p' = p_order p" "p_active p' = p_active p + (b_active b' - b_active b)"
    "p_remote p' = p_remote p + (effectivePublished b' - effectivePublished b)"
    "p_unknown p' = p_unknown p + (unknown_one b' - unknown_one b)" using p(3) by (auto simp: rebooked_def)
  have sums: "sum_list (map (\<lambda>(t, p). f p) (a_pools a')) = sum_list (map (\<lambda>(t, p). f p) (a_pools a)) - f p + f p'"
    for f :: "pool \<Rightarrow> int"
    unfolding pools using sum_list_update_present [OF dist m, of "\<lambda>(t, p). f p" p'] by simp
  have wf': "pool_wf a' t q" if "(t, q) \<in> set (a_pools a')" for t q
  proof (cases "t = ?t")
    case True
    then have "q = p'" using that dist by (simp add: pools in_set_update)
    then show ?thesis
      using True rebooked_wf [OF pools_wfD(2) [OF wf tp] p(2,3) rest(1)] b' by (simp add: binding_ok_def)
  next
    case False
    then have "(t, q) \<in> set (a_pools a)" using that dist by (simp add: pools in_set_update)
    then show ?thesis using pools_wfD(2) [OF wf] rest(1) by (simp add: pool_wf_def)
  qed
  have ok': "pool_ok (a_held a') q" if "(t, q) \<in> set (a_pools a')" for t q
  proof (cases "t = ?t")
    case True
    then have "q = p'" using that dist by (simp add: pools in_set_update)
    then show ?thesis
      using rebooked_ok [OF pools_wfD(2) [OF wf tp] alloc_okD(2) [OF ok tp] p(2,3) b'] tier [OF p(1)] fields rest by simp
  next
    case False
    then have "(t, q) \<in> set (a_pools a)" using that dist by (simp add: pools in_set_update)
    then show ?thesis using alloc_okD(2) [OF ok] rest(5) by simp
  qed
  have home: "\<exists>q. map_of (a_pools a') t = Some q \<and> k \<in> set (p_order q)" if "a_tierOf a' k = Some t" for k t
    using pools_wfD(4) [OF wf, of k t] that fields(1) m by (auto simp: pools rest(1) update_conv')
  show ?thesis
  proof (rule alloc_okI)
    show "distinct (keys (a_pools a'))" using dist by (simp add: pools distinct_update)
    show "a_activeCount a' = sum_list (map (\<lambda>(t, p). p_active p) (a_pools a'))"
      using sums [of p_active] fields(2) pools_wfD(8) [OF wf] by (simp add: rest)
    show "a_remoteCapacity a' = sum_list (map (\<lambda>(t, p). p_remote p) (a_pools a'))"
      using sums [of p_remote] fields(3) alloc_okD(3) [OF ok] by (simp add: rest)
    show "a_unknownSessions a' = sum_list (map (\<lambda>(t, p). p_unknown p) (a_pools a'))"
      using sums [of p_unknown] fields(4) alloc_okD(4) [OF ok] by (simp add: rest)
    show "a_discovery a' < max 1 (length (a_order a'))" unfolding rest by (rule pools_wfD(9) [OF wf])
  qed (use wf' ok' home glob in \<open>simp_all add: rest pools_wfD(5,6) [OF wf]\<close>)
qed

section \<open>Pointer writes\<close>

lemma update_update: "AList.update k y (AList.update k x m) = AList.update k y m"
  by (induction m) auto

lemma on_pool_Some:
  "poolOf a key = Some p \<Longrightarrow> on_pool key f a = a\<lparr>a_pools := AList.update (tierKey a key) (f p) (a_pools a)\<rparr>"
  by (simp add: on_pool_def)

lemma tierKey_on_pool [simp]: "tierKey (on_pool key f a) k = tierKey a k"
  by (simp add: on_pool_def tierKey_def split: option.splits)

lemma tierKey_upd [simp]:
  "tierKey (a\<lparr>a_pools := x\<rparr>) k = tierKey a k" "tierKey (a\<lparr>a_activeCount := n\<rparr>) k = tierKey a k"
  "tierKey (a\<lparr>a_remoteCapacity := n\<rparr>) k = tierKey a k" "tierKey (a\<lparr>a_unknownSessions := n\<rparr>) k = tierKey a k"
  "tierKey (a\<lparr>a_plan := pl\<rparr>) k = tierKey a k" "tierKey (invalidatePlan a) k = tierKey a k"
  by (simp_all add: tierKey_def invalidatePlan_def)

lemma poolOf_upd [simp]:
  "poolOf (a\<lparr>a_activeCount := n\<rparr>) k = poolOf a k" "poolOf (a\<lparr>a_remoteCapacity := n\<rparr>) k = poolOf a k"
  "poolOf (a\<lparr>a_unknownSessions := n\<rparr>) k = poolOf a k" "poolOf (a\<lparr>a_plan := pl\<rparr>) k = poolOf a k"
  "poolOf (invalidatePlan a) k = poolOf a k"
  by (simp_all add: poolOf_def tierKey_def invalidatePlan_def)

lemma poolOf_on_pool: "poolOf (on_pool key f a) key = map_option f (poolOf a key)"
  by (cases "poolOf a key") (auto simp: on_pool_def poolOf_def tierKey_def update_conv')

lemma on_pool_twice: "on_pool key f (on_pool key g a) = on_pool key (\<lambda>p. f (g p)) a"
  by (cases "poolOf a key") (simp_all add: on_pool_def [of _ f] poolOf_on_pool, simp_all add: on_pool_def update_update)

lemma on_pool_upd [simp]:
  "on_pool key f (a\<lparr>a_activeCount := n\<rparr>) = (on_pool key f a)\<lparr>a_activeCount := n\<rparr>"
  "on_pool key f (a\<lparr>a_remoteCapacity := n\<rparr>) = (on_pool key f a)\<lparr>a_remoteCapacity := n\<rparr>"
  "on_pool key f (a\<lparr>a_unknownSessions := n\<rparr>) = (on_pool key f a)\<lparr>a_unknownSessions := n\<rparr>"
  "on_pool key f (a\<lparr>a_plan := pl\<rparr>) = (on_pool key f a)\<lparr>a_plan := pl\<rparr>"
  by (simp_all add: on_pool_def split: option.splits)

lemma on_pool_fields [simp]:
  "a_activeCount (on_pool key f a) = a_activeCount a" "a_remoteCapacity (on_pool key f a) = a_remoteCapacity a"
  "a_unknownSessions (on_pool key f a) = a_unknownSessions a" "a_tierOf (on_pool key f a) = a_tierOf a"
  "a_order (on_pool key f a) = a_order a" "a_discovery (on_pool key f a) = a_discovery a"
  "a_discoveryGeneration (on_pool key f a) = a_discoveryGeneration a"
  "a_globalParallelism (on_pool key f a) = a_globalParallelism a" "a_held (on_pool key f a) = a_held a"
  "a_plan (on_pool key f a) = a_plan a" "a_planGeneration (on_pool key f a) = a_planGeneration a"
  by (simp_all add: on_pool_def split: option.splits)

lemma binding_of_upd [simp]:
  "binding_of (a\<lparr>a_activeCount := n\<rparr>) k = binding_of a k" "binding_of (a\<lparr>a_remoteCapacity := n\<rparr>) k = binding_of a k"
  "binding_of (a\<lparr>a_unknownSessions := n\<rparr>) k = binding_of a k" "binding_of (a\<lparr>a_plan := pl\<rparr>) k = binding_of a k"
  "binding_of (invalidatePlan a) k = binding_of a k"
  by (simp_all add: binding_of_def)

lemma pokedI:
  assumes "poolOf a key = Some p" "p_state p key = Some b" "rebooked key p b b' p'"
    "a_pools a' = AList.update (tierKey a key) p' (a_pools a)"
    "a_tierOf a' = a_tierOf a" "a_order a' = a_order a" "a_discovery a' = a_discovery a"
    "a_globalParallelism a' = a_globalParallelism a" "a_held a' = a_held a"
    "a_activeCount a' = a_activeCount a + (b_active b' - b_active b)"
    "a_remoteCapacity a' = a_remoteCapacity a + (effectivePublished b' - effectivePublished b)"
    "a_unknownSessions a' = a_unknownSessions a + (unknown_one b' - unknown_one b)"
  shows "poked key b b' a a'"
  unfolding poked_def using assms by blast

section \<open>The ring\<close>

lemma nextDiscovery_from_less:
  "current < length order \<Longrightarrow> nextDiscovery_from a order current i n < length order"
proof (induction n arbitrary: i)
  case (Suc n)
  then have "0 < length order" by linarith
  note mod_less_divisor [OF this]
  with Suc show ?case by (auto simp: Let_def split: option.splits)
qed simp

lemma nextDiscovery_less: "current < length order \<Longrightarrow> nextDiscovery a order current < length order"
  by (cases "order = []") (simp_all add: nextDiscovery_def nextDiscovery_from_less)

lemma ring_move_ok:
  assumes ok: "alloc_ok a" and p: "poolOf a key = Some p" "p_order p \<noteq> []" "p_order p ! p_discovery p = key"
    and n: "n < length (p_order p)"
  shows "alloc_ok (on_pool key (\<lambda>p. p\<lparr>p_discovery := n, p_discoveryGeneration := p_discoveryGeneration p + 1\<rparr>) a)"
proof -
  have m: "map_of (a_pools a) (tierKey a key) = Some p" using p(1) by (simp add: poolOf_def)
  note pwf = pools_wfD(3) [OF alloc_okD(1) [OF ok] m]
  have "key \<in> set (p_order p)" using pool_wfD(4) [OF pwf p(2)] p(3) by auto
  then obtain b where b: "p_state p key = Some b" using pool_wfD(2) [OF pwf] by blast
  let ?f = "\<lambda>p. p\<lparr>p_discovery := n, p_discoveryGeneration := p_discoveryGeneration p + 1\<rparr>"
  have "rebooked key p b b (?f p)" using n b by (auto simp: rebooked_def)
  from pokedI [OF p(1) b this] have pk: "poked key b b a (on_pool key ?f a)" by (simp add: on_pool_Some [OF p(1)])
  have "pool_ok (a_held a) p" using alloc_okD(2) [OF ok map_of_SomeD [OF m]] .
  then have "binding_ok (a_held a) b" "p_remote p \<le> p_parallelism p"
    using \<open>key \<in> set (p_order p)\<close> b by (auto simp: pool_ok_def)
  then show ?thesis by (intro poked_ok [OF ok pk]) (use p(1) alloc_okD(5) [OF ok] in auto)
qed

lemma pool_wf_cong: "a_tierOf a' = a_tierOf a \<Longrightarrow> pool_wf a' t p = pool_wf a t p"
  by (simp add: pool_wf_def)

lemma global_move_ok:
  assumes ok: "alloc_ok a" and n: "n < length (a_order a)"
  shows "alloc_ok (a\<lparr>a_discovery := n, a_discoveryGeneration := g\<rparr>)" (is "alloc_ok ?a")
proof (rule alloc_okI)
  note wf = alloc_okD(1) [OF ok]
  show "pool_wf ?a t p" if "(t, p) \<in> set (a_pools ?a)" for t p
    using pools_wfD(2) [OF wf, of t p] that pool_wf_cong [of ?a a] by simp
  show "\<exists>p. map_of (a_pools ?a) t = Some p \<and> k \<in> set (p_order p)" if "a_tierOf ?a k = Some t" for k t
    using pools_wfD(4) [OF wf, of k t] that by simp
  show "a_discovery ?a < max 1 (length (a_order ?a))" using n by simp
qed (use alloc_okD(2-5) [OF ok] pools_wfD(1,5,6,8) [OF alloc_okD(1) [OF ok]] in simp_all)

lemma advanceDiscoveryFrom_ok:
  assumes ok: "alloc_ok a"
  shows "alloc_ok (advanceDiscoveryFrom key a)"
proof (cases "a_globalParallelism a > 0")
  case True
  then show ?thesis
    using ok global_move_ok [OF ok] nextDiscovery_less pools_wfD(7) [OF alloc_okD(1) [OF ok]]
    by (simp add: advanceDiscoveryFrom_def Let_def)
next
  case False
  show ?thesis
  proof (cases "poolOf a key")
    case (Some p)
    then have "map_of (a_pools a) (tierKey a key) = Some p" by (simp add: poolOf_def)
    then have "p_order p \<noteq> [] \<Longrightarrow> p_discovery p < length (p_order p)"
      using pool_wfD(4) pools_wfD(3) [OF alloc_okD(1) [OF ok]] by blast
    then show ?thesis
      using False Some ok ring_move_ok [OF ok Some] nextDiscovery_less
      by (simp add: advanceDiscoveryFrom_def Let_def)
  qed (use False ok in \<open>simp add: advanceDiscoveryFrom_def\<close>)
qed

lemma rotateDiscovery_ok:
  assumes ok: "alloc_ok a"
  shows "alloc_ok (rotateDiscovery poll a)"
proof (cases "a_globalParallelism a > 0")
  case True
  then show ?thesis
    using ok global_move_ok [OF ok] nextDiscovery_less pools_wfD(7) [OF alloc_okD(1) [OF ok]]
    by (simp add: rotateDiscovery_def Let_def)
next
  case False
  show ?thesis
  proof (cases "poolOf a (pl_key poll)")
    case (Some p)
    then have "map_of (a_pools a) (tierKey a (pl_key poll)) = Some p" by (simp add: poolOf_def)
    then have "p_order p \<noteq> [] \<Longrightarrow> p_discovery p < length (p_order p)"
      using pool_wfD(4) pools_wfD(3) [OF alloc_okD(1) [OF ok]] by blast
    then show ?thesis
      using False Some ok ring_move_ok [OF ok Some] nextDiscovery_less
      by (simp add: rotateDiscovery_def Let_def)
  qed (use False ok in \<open>simp add: rotateDiscovery_def\<close>)
qed

section \<open>Admission\<close>

lemma on_binding_Some:
  assumes "poolOf a key = Some p" "p_state p key = Some b"
  shows "on_binding key f a =
    a\<lparr>a_pools := AList.update (tierKey a key) (p\<lparr>p_state := (p_state p)(key \<mapsto> f b)\<rparr>) (a_pools a)\<rparr>"
  using assms by (simp add: on_binding_def on_pool_def)

lemma on_pool_on_binding:
  assumes "poolOf a key = Some p" "p_state p key = Some b"
  shows "on_pool key g (on_binding key f a) =
    a\<lparr>a_pools := AList.update (tierKey a key) (g (p\<lparr>p_state := (p_state p)(key \<mapsto> f b)\<rparr>)) (a_pools a)\<rparr>"
  unfolding on_binding_def on_pool_twice by (simp add: assms on_pool_Some)

lemma binding_ok_of:
  assumes "alloc_ok a" "binding_of a key = Some b"
  shows "binding_ok (a_held a) b"
proof -
  obtain p where p: "p_state p key = Some b" "(tierKey a key, p) \<in> set (a_pools a)" "key \<in> set (p_order p)"
    using binding_home [OF alloc_okD(1) [OF assms(1)] assms(2)] by metis
  then show ?thesis using alloc_okD(2) [OF assms(1) p(2)] by (auto simp: pool_ok_def)
qed

lemma remote_bounds_of:
  assumes "alloc_ok a" "poolOf a key = Some p"
  shows "p_remote p \<le> p_parallelism p"
  using assms alloc_okD(2) [OF assms(1) map_of_SomeD [of "a_pools a" "tierKey a key" p]]
  by (simp add: poolOf_def pool_ok_def)

text \<open>An operation that leaves the remote side of its binding alone keeps the invariant.\<close>

lemma poked_local_ok:
  assumes "alloc_ok a" "poked key b b' a a'" "binding_ok (a_held a) b'"
    "effectivePublished b' = effectivePublished b"
  shows "alloc_ok a'"
  by (rule poked_ok [OF assms(1-3)]) (use assms(4) remote_bounds_of [OF assms(1)] alloc_okD(5) [OF assms(1)] in auto)

definition add_active :: "int \<Rightarrow> binding_key \<Rightarrow> allocator \<Rightarrow> allocator"
  where "add_active d key a =
    (on_pool key (\<lambda>p. p\<lparr>p_active := p_active p + d\<rparr>) (on_binding key (\<lambda>b. b\<lparr>b_active := b_active b + d\<rparr>) a))
      \<lparr>a_activeCount := a_activeCount a + d\<rparr>"

lemma effectivePublished_local [simp]:
  "effectivePublished (b\<lparr>b_active := n\<rparr>) = effectivePublished b"
  "effectivePublished (b\<lparr>b_assignedDemand := n\<rparr>) = effectivePublished b"
  "effectivePublished (b\<lparr>b_held := h\<rparr>) = effectivePublished b"
  "effectivePublished (b\<lparr>b_remoteKnown := h\<rparr>) = effectivePublished b"
  "effectivePublished (b\<lparr>b_pollID := i\<rparr>) = effectivePublished b"
  by (simp_all add: effectivePublished_def split: option.splits)

lemma unknown_one_local [simp]:
  "unknown_one (b\<lparr>b_active := n\<rparr>) = unknown_one b" "unknown_one (b\<lparr>b_assignedDemand := n\<rparr>) = unknown_one b"
  "unknown_one (b\<lparr>b_held := h\<rparr>) = unknown_one b" "unknown_one (b\<lparr>b_pollID := i\<rparr>) = unknown_one b"
  by (simp_all add: unknown_one_def)

lemma on_binding_fields [simp]:
  "a_activeCount (on_binding key f a) = a_activeCount a" "a_remoteCapacity (on_binding key f a) = a_remoteCapacity a"
  "a_unknownSessions (on_binding key f a) = a_unknownSessions a"
  "a_globalParallelism (on_binding key f a) = a_globalParallelism a" "a_plan (on_binding key f a) = a_plan a"
  "a_order (on_binding key f a) = a_order a" "a_discovery (on_binding key f a) = a_discovery a"
  "a_tierOf (on_binding key f a) = a_tierOf a" "a_held (on_binding key f a) = a_held a"
  by (simp_all add: on_binding_def)

lemma add_active_poked:
  assumes "poolOf a key = Some p" "p_state p key = Some b"
  shows "poked key b (b\<lparr>b_active := b_active b + d\<rparr>) a (add_active d key a)"
  by (rule pokedI [OF assms, of _ "p\<lparr>p_state := (p_state p)(key \<mapsto> b\<lparr>b_active := b_active b + d\<rparr>),
        p_active := p_active p + d\<rparr>"])
    (simp_all add: rebooked_def add_active_def on_pool_on_binding [OF assms])

lemma add_active_ok:
  assumes "alloc_ok a" "binding_of a key = Some b" "0 \<le> b_active b + d"
  shows "alloc_ok (add_active d key a)"
proof -
  obtain p where p: "poolOf a key = Some p" "p_state p key = Some b"
    using binding_home [OF alloc_okD(1) [OF assms(1)] assms(2)] by metis
  have "binding_ok (a_held a) (b\<lparr>b_active := b_active b + d\<rparr>)"
    using binding_ok_of [OF assms(1,2)] assms(3) by (simp add: binding_ok_def)
  then show ?thesis by (rule poked_local_ok [OF assms(1) add_active_poked [OF p]]) simp
qed

lemma binding_of_pool: "poolOf a key = Some p \<Longrightarrow> binding_of a key = p_state p key"
  by (simp add: binding_of_def)

lemma TryReserve_cases:
  obtains (refused) "TryReserve key a = (False, a)"
  | (reserved) p b where "poolOf a key = Some p" "p_state p key = Some b" "\<not> b_held b"
      "p_active p < p_parallelism p" "a_globalParallelism a > 0 \<Longrightarrow> a_activeCount a < a_globalParallelism a"
      "TryReserve key a = (True, advanceDiscoveryFrom key (invalidatePlan (add_active 1 key a)))"
proof (cases "\<exists>p b. poolOf a key = Some p \<and> p_state p key = Some b \<and> \<not> b_held b \<and>
    p_active p < p_parallelism p \<and> (a_globalParallelism a > 0 \<longrightarrow> a_activeCount a < a_globalParallelism a)")
  case True
  then obtain p b where pb: "poolOf a key = Some p" "p_state p key = Some b" "\<not> b_held b"
    "p_active p < p_parallelism p" "a_globalParallelism a > 0 \<longrightarrow> a_activeCount a < a_globalParallelism a" by blast
  then have "TryReserve key a = (True, advanceDiscoveryFrom key (invalidatePlan (add_active 1 key a)))"
    by (auto simp: TryReserve_def add_active_def Let_def)
  with pb show ?thesis using that(2) by blast
next
  case False
  then have "TryReserve key a = (False, a)" by (auto simp: TryReserve_def not_less split: option.splits)
  then show ?thesis by (rule that(1))
qed

lemma TryReserve_ok:
  assumes "alloc_ok a"
  shows "alloc_ok (snd (TryReserve key a))"
proof (cases rule: TryReserve_cases [of key a])
  case (reserved p b)
  have b: "binding_of a key = Some b" using reserved(1,2) by (simp add: binding_of_def)
  have "0 \<le> b_active b + 1" using binding_ok_of [OF assms b] by (simp add: binding_ok_def)
  then show ?thesis using add_active_ok [OF assms b] reserved(6) by (simp add: advanceDiscoveryFrom_ok)
qed (use assms in simp)

lemma Adopt_eq:
  "snd (Adopt key a) = (case binding_of a key of None \<Rightarrow> a
    | Some b \<Rightarrow> advanceDiscoveryFrom key (invalidatePlan (add_active 1 key a)))"
  by (simp add: Adopt_def add_active_def Let_def split: option.splits)

lemma Adopt_ok:
  assumes "alloc_ok a"
  shows "alloc_ok (snd (Adopt key a))"
proof (cases "binding_of a key")
  case (Some b)
  have "0 \<le> b_active b + 1" using binding_ok_of [OF assms Some] by (simp add: binding_ok_def)
  then show ?thesis using add_active_ok [OF assms Some] Some by (simp add: Adopt_eq advanceDiscoveryFrom_ok)
qed (use assms in \<open>simp add: Adopt_eq\<close>)

lemma Release_eq:
  "Release key a = (case binding_of a key of None \<Rightarrow> a
    | Some b \<Rightarrow> if b_active b > 0 then invalidatePlan (add_active (- 1) key a) else a)"
  by (simp add: Release_def add_active_def Let_def split: option.splits)

lemma Release_ok:
  assumes "alloc_ok a"
  shows "alloc_ok (Release key a)"
proof (cases "binding_of a key")
  case (Some b)
  then show ?thesis using add_active_ok [OF assms Some, of "- 1"] assms by (simp add: Release_eq)
qed (use assms in \<open>simp add: Release_eq\<close>)

lemma set_demand_ok:
  assumes ok: "alloc_ok a" and d: "0 \<le> d"
  shows "alloc_ok (on_binding key (\<lambda>b. b\<lparr>b_assignedDemand := d\<rparr>) a)"
proof (cases "binding_of a key")
  case (Some b)
  obtain p where p: "poolOf a key = Some p" "p_state p key = Some b"
    using binding_home [OF alloc_okD(1) [OF ok] Some] by metis
  let ?a = "on_binding key (\<lambda>b. b\<lparr>b_assignedDemand := d\<rparr>) a"
  have "poked key b (b\<lparr>b_assignedDemand := d\<rparr>) a ?a"
    by (rule pokedI [OF p, of _ "p\<lparr>p_state := (p_state p)(key \<mapsto> b\<lparr>b_assignedDemand := d\<rparr>)\<rparr>"])
      (simp_all add: rebooked_def on_binding_Some [OF p])
  moreover have "binding_ok (a_held a) (b\<lparr>b_assignedDemand := d\<rparr>)"
    using binding_ok_of [OF ok Some] d by (simp add: binding_ok_def)
  ultimately show ?thesis by (rule poked_local_ok [OF ok]) simp
next
  case None
  then have "on_binding key (\<lambda>b. b\<lparr>b_assignedDemand := d\<rparr>) a = a"
    by (auto simp: on_binding_def on_pool_def binding_of_def poolOf_def update_triv split: option.splits)
  then show ?thesis using ok by simp
qed

lemma SetAssignedDemand_ok: "alloc_ok a \<Longrightarrow> alloc_ok (SetAssignedDemand key demand a)"
  using set_demand_ok by (simp add: SetAssignedDemand_def Let_def advanceDiscoveryFrom_ok split: option.splits)

section \<open>Sessions and polls\<close>

definition remote_part_only :: "(binding \<Rightarrow> binding) \<Rightarrow> bool"
  where "remote_part_only change \<longleftrightarrow> (\<forall>b. b_active (change b) = b_active b \<and>
    b_assignedDemand (change b) = b_assignedDemand b \<and> b_held (change b) = b_held b \<and>
    b_remoteKnown (change b) = b_remoteKnown b)"

lemma changeRemoteCapacity_poked:
  assumes "poolOf a key = Some p" "p_state p key = Some b" "remote_part_only change"
  shows "poked key b (change b) a (changeRemoteCapacity key change a)"
  using assms(3)
  by (intro pokedI [OF assms(1,2), of _ "p\<lparr>p_state := (p_state p)(key \<mapsto> change b),
        p_remote := p_remote p + (effectivePublished (change b) - effectivePublished b)\<rparr>"])
    (simp_all add: rebooked_def remote_part_only_def unknown_one_def changeRemoteCapacity_def
      binding_of_pool [OF assms(1)] assms(2) Let_def on_pool_on_binding [OF assms(1,2)])

lemma changeRemoteCapacity_ok:
  assumes ok: "alloc_ok a" and b: "binding_of a key = Some b" and change: "remote_part_only change"
    and b': "binding_ok (a_held a) (change b)"
    and tier: "\<And>p. poolOf a key = Some p \<Longrightarrow>
      p_remote p + (effectivePublished (change b) - effectivePublished b) \<le> p_parallelism p"
    and glob: "a_globalParallelism a > 0 \<Longrightarrow>
      a_remoteCapacity a + (effectivePublished (change b) - effectivePublished b) \<le> a_globalParallelism a"
  shows "alloc_ok (changeRemoteCapacity key change a)"
proof -
  obtain p where p: "poolOf a key = Some p" "p_state p key = Some b"
    using binding_home [OF alloc_okD(1) [OF ok] b] by metis
  show ?thesis by (rule poked_ok [OF ok changeRemoteCapacity_poked [OF p change] b' tier glob])
qed

text \<open>A change that does not raise what may be in force remotely needs no further argument.\<close>

lemma changeRemoteCapacity_down_ok:
  assumes ok: "alloc_ok a" and b: "binding_of a key = Some b" and change: "remote_part_only change"
    and b': "binding_ok (a_held a) (change b)" and down: "effectivePublished (change b) \<le> effectivePublished b"
  shows "alloc_ok (changeRemoteCapacity key change a)"
proof (rule changeRemoteCapacity_ok [OF ok b change b'])
  show "p_remote p + (effectivePublished (change b) - effectivePublished b) \<le> p_parallelism p"
    if "poolOf a key = Some p" for p
    using remote_bounds_of [OF ok that] down by linarith
  show "a_globalParallelism a > 0 \<Longrightarrow>
      a_remoteCapacity a + (effectivePublished (change b) - effectivePublished b) \<le> a_globalParallelism a"
    using alloc_okD(5) [OF ok] down by linarith
qed

lemma setRemoteKnown_ok:
  assumes ok: "alloc_ok a"
  shows "alloc_ok (setRemoteKnown key known a)"
proof (cases "binding_of a key")
  case (Some b)
  obtain p where p: "poolOf a key = Some p" "p_state p key = Some b"
    using binding_home [OF alloc_okD(1) [OF ok] Some] by metis
  show ?thesis
  proof (cases "b_remoteKnown b = known")
    case True
    then show ?thesis using Some ok by (simp add: setRemoteKnown_def)
  next
    case False
    let ?d = "if known then - 1 else (1 :: int)"
    let ?p = "p\<lparr>p_unknown := p_unknown p + ?d, p_state := (p_state p)(key \<mapsto> b\<lparr>b_remoteKnown := known\<rparr>)\<rparr>"
    have out: "setRemoteKnown key known a = a\<lparr>a_pools := AList.update (tierKey a key) ?p (a_pools a),
        a_unknownSessions := a_unknownSessions a + ?d\<rparr>"
      using Some False p unfolding setRemoteKnown_def on_binding_def
      by (simp add: Let_def on_pool_twice, simp add: on_pool_Some)
    have "poked key b (b\<lparr>b_remoteKnown := known\<rparr>) a (setRemoteKnown key known a)"
      using False by (intro pokedI [OF p, of _ ?p]) (auto simp: out rebooked_def unknown_one_def)
    moreover have "binding_ok (a_held a) (b\<lparr>b_remoteKnown := known\<rparr>)"
      using binding_ok_of [OF ok Some] by (simp add: binding_ok_def)
    ultimately show ?thesis by (rule poked_local_ok [OF ok]) simp
  qed
qed (use ok in \<open>simp add: setRemoteKnown_def\<close>)

lemma effectivePublished_nonneg: "binding_ok h b \<Longrightarrow> 0 \<le> effectivePublished b"
  by (auto simp: binding_ok_def effectivePublished_def split: option.splits)

lemma SessionOpened_ok:
  assumes ok: "alloc_ok a"
  shows "alloc_ok (SessionOpened key a)"
proof (cases "binding_of a key")
  case (Some b)
  note bok = binding_ok_of [OF ok Some]
  have "alloc_ok (changeRemoteCapacity key (\<lambda>b. b\<lparr>b_published := 0, b_pending := None\<rparr>) a)"
    by (rule changeRemoteCapacity_down_ok [OF ok Some])
      (use bok effectivePublished_nonneg [OF bok] in
        \<open>auto simp: remote_part_only_def binding_ok_def effectivePublished_def\<close>)
  then show ?thesis using Some by (simp add: SessionOpened_def setRemoteKnown_ok)
qed (use ok in \<open>simp add: SessionOpened_def\<close>)

lemma closeSession_fields:
  "remote_part_only (closeSession confirmed)"
  "binding_ok h b \<Longrightarrow> binding_ok h (closeSession confirmed b)"
  "effectivePublished (closeSession confirmed b) = (if confirmed then 0 else effectivePublished b)"
  by (auto simp: remote_part_only_def closeSession_def Let_def binding_ok_def effectivePublished_def split: option.splits)

lemma SessionClosed_ok:
  assumes ok: "alloc_ok a"
  shows "alloc_ok (SessionClosed key confirmed a)"
proof (cases "binding_of a key")
  case (Some b)
  note bok = binding_ok_of [OF ok Some]
  have "alloc_ok (changeRemoteCapacity key (closeSession confirmed) a)"
    using closeSession_fields bok effectivePublished_nonneg [OF bok]
    by (intro changeRemoteCapacity_down_ok [OF ok Some]) auto
  then show ?thesis using Some by (simp add: SessionClosed_def setRemoteKnown_ok)
qed (use ok in \<open>simp add: SessionClosed_def\<close>)

lemma CompletePoll_ok:
  assumes ok: "alloc_ok a" and cap: "0 \<le> pl_capacity poll"
    and issued: "\<And>b pending. binding_of a (pl_key poll) = Some b \<Longrightarrow> b_pending b = Some pending \<Longrightarrow>
      pp_id pending = pl_id poll \<Longrightarrow> pl_capacity poll \<le> pp_capacity pending"
  shows "alloc_ok (CompletePoll poll succeeded isEmpty a)"
proof (cases "\<exists>b pending. binding_of a (pl_key poll) = Some b \<and> b_pending b = Some pending \<and> pp_id pending = pl_id poll")
  case True
  then obtain b pending where b: "binding_of a (pl_key poll) = Some b" "b_pending b = Some pending" "pp_id pending = pl_id poll"
    by blast
  have "alloc_ok (changeRemoteCapacity (pl_key poll) (settlePoll poll succeeded) a)"
    by (rule changeRemoteCapacity_down_ok [OF ok b(1)])
      (use binding_ok_of [OF ok b(1)] cap issued [OF b] b(2) in
        \<open>auto simp: remote_part_only_def settlePoll_def Let_def binding_ok_def effectivePublished_def\<close>)
  then show ?thesis using b by (cases succeeded) (simp_all add: CompletePoll_def Let_def rotateDiscovery_ok)
next
  case False
  then have "CompletePoll poll succeeded isEmpty a = a"
    by (auto simp: CompletePoll_def split: option.splits)
  with ok show ?thesis by simp
qed

lemma clampPublished_Some:
  assumes "poolOf a key = Some p" "p_state p key = Some b"
  shows "clampPublished a key desired =
    (if desired \<le> 0 then 0
     else min desired (min (max 0 (p_parallelism p - (p_remote p - effectivePublished b)))
       (if a_globalParallelism a > 0
        then max 0 (a_globalParallelism a - (a_remoteCapacity a - effectivePublished b)) else desired)))"
  using assms by (simp add: clampPublished_def Let_def)

lemma clampPublished_bounds:
  assumes "poolOf a key = Some p" "p_state p key = Some b"
  shows "0 \<le> clampPublished a key desired"
    "0 < clampPublished a key desired \<Longrightarrow>
      clampPublished a key desired \<le> p_parallelism p - (p_remote p - effectivePublished b)"
    "0 < clampPublished a key desired \<Longrightarrow> a_globalParallelism a > 0 \<Longrightarrow>
      clampPublished a key desired \<le> a_globalParallelism a - (a_remoteCapacity a - effectivePublished b)"
    "clampPublished a key desired \<le> max 0 desired"
  unfolding clampPublished_Some [OF assms] by auto

lemma planLocked_state: "\<exists>pl. snd (planLocked a) = a\<lparr>a_plan := pl\<rparr>"
proof (cases "a_plan a")
  case None
  then show ?thesis by (auto simp: planLocked_def Let_def)
next
  case (Some pl)
  then have "snd (planLocked a) = a\<lparr>a_plan := Some pl\<rparr>" by (simp add: planLocked_def)
  then show ?thesis ..
qed

text \<open>The shape of a poll that is issued: only the plan cache and the polled binding change.\<close>

lemma BeginPoll_cases:
  obtains (refused) "BeginPoll key a = (invalidPoll key, a)"
  | (issued) b pl capacity discovery generation desired where
      "binding_of a key = Some b" "b_pending b = None"
      "capacity = clampPublished a key desired"
      "desired = (if remoteStateKnown a key then ap_desired (fst (planLocked a)) key else 0)"
      "(discovery, generation) = discoveryAnnouncement a key capacity"
      "BeginPoll key a =
        (\<lparr>pl_key = key, pl_id = b_pollID b + 1, pl_capacity = capacity, pl_discovery = discovery,
          pl_discoveryGeneration = generation\<rparr>,
         changeRemoteCapacity key (\<lambda>b'. b'\<lparr>b_pending := Some \<lparr>pp_id = b_pollID b + 1, pp_capacity = capacity\<rparr>\<rparr>)
           (on_binding key (\<lambda>b. b\<lparr>b_pollID := b_pollID b + 1\<rparr>) (a\<lparr>a_plan := pl\<rparr>)))"
proof (cases "\<exists>b. binding_of a key = Some b \<and> b_pending b = None")
  case False
  then have "BeginPoll key a = (invalidPoll key, a)" by (auto simp: BeginPoll_def split: option.splits)
  then show ?thesis by (rule that(1))
next
  case True
  then obtain b where b: "binding_of a key = Some b" "b_pending b = None" by blast
  define desired where "desired = (if remoteStateKnown a key then ap_desired (fst (planLocked a)) key else 0)"
  obtain pl where pl: "(if remoteStateKnown a key then snd (planLocked a) else a) = a\<lparr>a_plan := pl\<rparr>"
  proof (cases "remoteStateKnown a key")
    case False
    then show ?thesis by (intro that [of "a_plan a"]) simp
  qed (use planLocked_state that in auto)
  obtain discovery generation where d: "discoveryAnnouncement a key (clampPublished a key desired) = (discovery, generation)"
    by fastforce
  have look: "(if remoteStateKnown a key then (let (plan, a) = planLocked a in (ap_desired plan key, a)) else (0, a)) =
      (desired, a\<lparr>a_plan := pl\<rparr>)"
    using pl unfolding desired_def by (simp add: Let_def split_def split: if_splits)
  have same: "clampPublished (a\<lparr>a_plan := pl\<rparr>) key desired = clampPublished a key desired"
    "discoveryAnnouncement (a\<lparr>a_plan := pl\<rparr>) key c = discoveryAnnouncement a key c" for c
    by (simp_all add: clampPublished_def discoveryAnnouncement_def split: option.splits)
  show ?thesis
    by (rule that(2) [OF b refl desired_def d [symmetric], of pl])
      (simp add: BeginPoll_def b look same d, simp add: Let_def)
qed

lemma BeginPoll_ok:
  assumes ok: "alloc_ok a"
  shows "alloc_ok (snd (BeginPoll key a))"
proof (cases rule: BeginPoll_cases [of key a])
  case (issued b pl capacity discovery generation desired)
  obtain p where p: "poolOf a key = Some p" "p_state p key = Some b"
    using binding_home [OF alloc_okD(1) [OF ok] issued(1)] by metis
  let ?base = "a\<lparr>a_plan := pl\<rparr>" and ?b = "b\<lparr>b_pollID := b_pollID b + 1\<rparr>"
  let ?p = "p\<lparr>p_state := (p_state p)(key \<mapsto> ?b)\<rparr>"
  let ?a = "on_binding key (\<lambda>b. b\<lparr>b_pollID := b_pollID b + 1\<rparr>) ?base"
  have p0: "poolOf ?base key = Some p" using p by simp
  note bok = binding_ok_of [OF ok issued(1)]
  have "poked key b ?b ?base ?a"
    by (rule pokedI [OF p0 p(2), of _ ?p]) (simp_all add: rebooked_def on_binding_Some [OF p0 p(2)])
  then have ok1: "alloc_ok ?a"
    by (rule poked_local_ok [rotated]) (use ok bok in \<open>simp_all add: binding_ok_def\<close>)
  have p1: "poolOf ?a key = Some ?p" using p by (simp add: on_binding_def poolOf_on_pool)
  then have b1: "binding_of ?a key = Some ?b" by (simp add: binding_of_def)
  let ?c = "\<lambda>b'. b'\<lparr>b_pending := Some \<lparr>pp_id = b_pollID b + 1, pp_capacity = capacity\<rparr>\<rparr>"
  have cap: "0 \<le> capacity" using clampPublished_bounds(1) [OF p] issued(3) by simp
  have eff: "effectivePublished (?c ?b) = max (b_published b) capacity" "effectivePublished ?b = b_published b"
    "effectivePublished b = b_published b"
    using issued(2) by (simp_all add: effectivePublished_def max_def)
  have pub: "0 \<le> b_published b" using bok by (simp add: binding_ok_def)
  have tier: "p_remote p + (max (b_published b) capacity - b_published b) \<le> p_parallelism p"
    using clampPublished_bounds(2) [OF p, of desired] issued(3) remote_bounds_of [OF ok p(1)] pub cap
    by (cases "0 < capacity") (auto simp: max_def eff)
  have glob: "a_remoteCapacity a + (max (b_published b) capacity - b_published b) \<le> a_globalParallelism a"
    if "a_globalParallelism a > 0"
    using that clampPublished_bounds(3) [OF p, of desired] issued(3) alloc_okD(5) [OF ok that] pub cap
    by (cases "0 < capacity") (auto simp: max_def eff)
  have "alloc_ok (changeRemoteCapacity key ?c ?a)"
  proof (rule changeRemoteCapacity_ok [OF ok1 b1])
    show "remote_part_only ?c" by (simp add: remote_part_only_def)
    show "binding_ok (a_held ?a) (?c ?b)" using bok cap by (simp add: binding_ok_def)
  qed (use p1 tier glob in \<open>auto simp: eff\<close>)
  then show ?thesis by (simp add: issued(6))
qed (use ok in simp)

section \<open>Holds\<close>

lemma hold_pool_fields [simp]:
  "p_order (hold_pool h p) = p_order p" "p_parallelism (hold_pool h p) = p_parallelism p"
  "p_active (hold_pool h p) = p_active p" "p_remote (hold_pool h p) = p_remote p"
  "p_unknown (hold_pool h p) = p_unknown p" "p_discovery (hold_pool h p) = p_discovery p"
  "p_state (hold_pool h p) k = map_option (\<lambda>b. b\<lparr>b_held := h\<rparr>) (p_state p k)"
  by (simp_all add: hold_pool_def)

lemma hold_pool_psum:
  assumes "dom (p_state p) = set (p_order p)" "\<And>b. f (b\<lparr>b_held := h\<rparr>) = f b"
  shows "psum f (hold_pool h p) = psum f p"
  unfolding psum_def hold_pool_fields
proof (intro arg_cong [where f = sum_list] map_cong refl)
  fix k assume "k \<in> set (p_order p)"
  then obtain b where "p_state p k = Some b" using assms(1) by blast
  then show "f (the (map_option (\<lambda>b. b\<lparr>b_held := h\<rparr>) (p_state p k))) = f (the (p_state p k))"
    by (simp add: assms(2))
qed

lemma hold_pool_ok:
  assumes "pool_wf a t p" "pool_ok held p" "a_tierOf a' = a_tierOf a"
  shows "pool_wf a' t (hold_pool h p)" "pool_ok h (hold_pool h p)"
proof -
  have st: "\<exists>b. p_state p k = Some b" if "k \<in> set (p_order p)" for k using that pool_wfD(2) [OF assms(1)] by blast
  note sums = hold_pool_psum [OF pool_wfD(2) [OF assms(1)]]
  have "dom (p_state (hold_pool h p)) = dom (p_state p)" by (auto simp: dom_def)
  moreover have "0 \<le> active_of (hold_pool h p) k \<and> 0 \<le> b_assignedDemand (the (p_state (hold_pool h p) k))"
    if "k \<in> set (p_order p)" for k
    using st [OF that] pool_wfD(5,6) [OF assms(1) that] by auto
  ultimately show "pool_wf a' t (hold_pool h p)"
    using assms(1,3) sums [of b_active h] by (simp add: pool_wf_def)
  have "binding_ok h (the (p_state (hold_pool h p) k))" if "k \<in> set (p_order p)" for k
    using st [OF that] assms(2) that by (auto simp: pool_ok_def binding_ok_def)
  then show "pool_ok h (hold_pool h p)"
    using assms(2) sums [of effectivePublished h] sums [of unknown_one h] by (simp add: pool_ok_def)
qed

lemma map_of_map_pools: "map_of (map (\<lambda>(t, p). (t, f p)) ps) t = map_option f (map_of ps t)"
  by (induction ps) auto

lemma held_pools_ok:
  assumes ok: "alloc_ok a"
  shows "alloc_ok (a\<lparr>a_held := h, a_pools := map (\<lambda>(t, p). (t, hold_pool h p)) (a_pools a)\<rparr>)" (is "alloc_ok ?a")
proof -
  note wf = alloc_okD(1) [OF ok]
  have keys: "keys (a_pools ?a) = keys (a_pools a)" by (auto simp: o_def split_def)
  have each: "pool_wf ?a t q \<and> pool_ok h q" if "(t, q) \<in> set (a_pools ?a)" for t q
  proof -
    from that obtain p where p: "(t, p) \<in> set (a_pools a)" "q = hold_pool h p" by auto
    then show ?thesis using hold_pool_ok [OF pools_wfD(2) [OF wf p(1)] alloc_okD(2) [OF ok p(1)]] by simp
  qed
  have sums: "sum_list (map (\<lambda>(t, p). f p) (a_pools ?a)) = sum_list (map (\<lambda>(t, p). f p) (a_pools a))"
    if "\<And>p. f (hold_pool h p) = f p" for f :: "pool \<Rightarrow> int"
    by (simp add: that o_def split_def)
  have home: "\<exists>q. map_of (a_pools ?a) t = Some q \<and> k \<in> set (p_order q)" if "a_tierOf a k = Some t" for k t
    using pools_wfD(4) [OF wf that] by (auto simp: map_of_map_pools)
  show ?thesis
  proof (rule alloc_okI)
    show "distinct (keys (a_pools ?a))" unfolding keys by (rule pools_wfD(1) [OF wf])
    show "\<exists>p. map_of (a_pools ?a) t = Some p \<and> k \<in> set (p_order p)" if "a_tierOf ?a k = Some t" for k t
      by (rule home) (use that in simp)
    show "a_activeCount ?a = sum_list (map (\<lambda>(t, p). p_active p) (a_pools ?a))"
      by (subst sums) (simp_all add: pools_wfD(8) [OF wf])
    show "a_remoteCapacity ?a = sum_list (map (\<lambda>(t, p). p_remote p) (a_pools ?a))"
      by (subst sums) (simp_all add: alloc_okD(3) [OF ok])
    show "a_unknownSessions ?a = sum_list (map (\<lambda>(t, p). p_unknown p) (a_pools ?a))"
      by (subst sums) (simp_all add: alloc_okD(4) [OF ok])
  qed (use each pools_wfD(5,6,9) [OF wf] alloc_okD(5) [OF ok] in \<open>simp_all del: set_map\<close>)
qed

lemma thawTier_ok: "alloc_ok a \<Longrightarrow> alloc_ok (thawTier t a)"
  by (simp add: thawTier_def advanceDiscoveryFrom_ok split: option.splits)

lemma Hold_ok:
  assumes "alloc_ok a"
  shows "alloc_ok (Hold held a)"
proof -
  have fold: "alloc_ok a' \<Longrightarrow> alloc_ok (fold thawTier ts a')" for a' ts
    by (induction ts arbitrary: a') (simp_all add: thawTier_ok)
  show ?thesis
    using assms held_pools_ok [OF assms, of True] held_pools_ok [OF assms, of False]
    by (cases held) (simp_all add: Hold_def Let_def fold advanceDiscoveryFrom_ok)
qed

section \<open>Registration\<close>

lemma pools_wf_tierOf_None:
  assumes "pools_wf a" "a_tierOf a key = None" "(t, p) \<in> set (a_pools a)"
  shows "key \<notin> set (p_order p)" "p_state p key = None"
proof -
  show "key \<notin> set (p_order p)" using assms pool_wfD(3) [OF pools_wfD(2) [OF assms(1,3)]] by force
  then show "p_state p key = None" using pool_wfD(2) [OF pools_wfD(2) [OF assms(1,3)]] by blast
qed

lemma newPool_ok: "pool_wf a t (newPool n)" "0 \<le> n \<Longrightarrow> pool_ok h (newPool n)"
  by (simp_all add: newPool_def pool_wf_def pool_ok_def psum_def)

lemma add_pool_ok:
  assumes ok: "alloc_ok a" and new: "map_of (a_pools a) t = None" and par: "0 \<le> parallelism"
  shows "alloc_ok (a\<lparr>a_pools := AList.update t (newPool parallelism) (a_pools a)\<rparr>)" (is "alloc_ok ?a")
proof -
  note wf = alloc_okD(1) [OF ok]
  have absent: "t \<notin> set (keys (a_pools a))" using new by (simp add: map_of_eq_None_iff)
  have pools: "a_pools ?a = a_pools a @ [(t, newPool parallelism)]" by (simp add: update_absent [OF absent])
  have same: "a_tierOf ?a = a_tierOf a" "a_order ?a = a_order a" "a_discovery ?a = a_discovery a" "a_held ?a = a_held a"
    "a_activeCount ?a = a_activeCount a" "a_remoteCapacity ?a = a_remoteCapacity a"
    "a_unknownSessions ?a = a_unknownSessions a" "a_globalParallelism ?a = a_globalParallelism a" by simp_all
  have each: "pool_wf ?a t' q \<and> pool_ok (a_held a) q" if "(t', q) \<in> set (a_pools ?a)" for t' q
  proof (cases "(t', q) \<in> set (a_pools a)")
    case True
    then show ?thesis using pools_wfD(2) [OF wf True] alloc_okD(2) [OF ok True] pool_wf_cong [OF same(1)] by blast
  next
    case False
    then have "q = newPool parallelism" using that unfolding pools by simp
    then show ?thesis using newPool_ok par by simp
  qed
  have home: "\<exists>q. map_of (a_pools ?a) t' = Some q \<and> k \<in> set (p_order q)" if "a_tierOf a k = Some t'" for k t'
    using pools_wfD(4) [OF wf that] unfolding pools by (auto simp: map_add_Some_iff)
  have zero: "p_active (newPool parallelism) = 0" "p_remote (newPool parallelism) = 0" "p_unknown (newPool parallelism) = 0"
    by (simp_all add: newPool_def)
  show ?thesis
  proof (rule alloc_okI)
    show "\<exists>p. map_of (a_pools ?a) t' = Some p \<and> k \<in> set (p_order p)" if "a_tierOf ?a k = Some t'" for k t'
      by (rule home) (use that in simp)
    show "pool_wf ?a t' q" "pool_ok (a_held ?a) q" if "(t', q) \<in> set (a_pools ?a)" for t' q
      using each [OF that] by simp_all
  qed (use pools_wfD(1,5,6,8,9) [OF wf] alloc_okD(3-5) [OF ok] absent zero in \<open>simp_all add: update_absent [OF absent]\<close>)
qed

definition join_pool :: "binding_key \<Rightarrow> bool \<Rightarrow> pool \<Rightarrow> pool"
  where "join_pool key held p = p\<lparr>p_order := p_order p @ [key],
    p_state := (p_state p)(key \<mapsto> newBinding held), p_unknown := p_unknown p + 1\<rparr>"

definition join :: "tier_id \<Rightarrow> binding_key \<Rightarrow> pool \<Rightarrow> allocator \<Rightarrow> allocator"
  where "join t key p a = a\<lparr>a_pools := AList.update t (join_pool key (a_held a) p) (a_pools a),
    a_tierOf := (a_tierOf a)(key \<mapsto> t), a_order := a_order a @ [key],
    a_unknownSessions := a_unknownSessions a + 1\<rparr>"

lemma newBinding_facts:
  "binding_ok h (newBinding h)" "b_active (newBinding h) = 0" "b_assignedDemand (newBinding h) = 0"
  "effectivePublished (newBinding h) = 0" "unknown_one (newBinding h) = 1"
  by (simp_all add: newBinding_def binding_ok_def effectivePublished_def unknown_one_def)

lemma join_pool_psum:
  assumes "key \<notin> set (p_order p)"
  shows "psum f (join_pool key h p) = psum f p + f (newBinding h)"
proof -
  have "map (\<lambda>k. f (the (((p_state p)(key \<mapsto> newBinding h)) k))) (p_order p) = map (\<lambda>k. f (the (p_state p k))) (p_order p)"
    using assms by auto
  then show ?thesis by (simp add: psum_def join_pool_def del: map_eq_conv fun_upd_apply) simp
qed

lemma join_pool_ok:
  assumes wf: "pool_wf a t p" and ok: "pool_ok h p" and new: "key \<notin> set (p_order p)"
    and tierOf: "a_tierOf a' = (a_tierOf a)(key \<mapsto> t)"
  shows "pool_wf a' t (join_pool key h p)" "pool_ok h (join_pool key h p)"
proof -
  have st: "p_state (join_pool key h p) k = (if k = key then Some (newBinding h) else p_state p k)" for k
    by (simp add: join_pool_def)
  have same: "p_order (join_pool key h p) = p_order p @ [key]" "p_discovery (join_pool key h p) = p_discovery p"
    "p_active (join_pool key h p) = p_active p" "p_remote (join_pool key h p) = p_remote p"
    "p_unknown (join_pool key h p) = p_unknown p + 1" "p_parallelism (join_pool key h p) = p_parallelism p"
    by (simp_all add: join_pool_def)
  have "p_discovery p < max 1 (length (p_order p))" using wf unfolding pool_wf_def by blast
  then have disc: "p_discovery p < max 1 (length (p_order p @ [key]))" by simp
  have "dom (p_state (join_pool key h p)) = set (p_order p @ [key])"
    using pool_wfD(2) [OF wf] by (auto simp: st dom_def)
  moreover have "\<forall>k \<in> set (p_order p @ [key]). a_tierOf a' k = Some t"
    using pool_wfD(3) [OF wf] by (simp add: tierOf)
  moreover have "\<forall>k \<in> set (p_order p @ [key]). 0 \<le> active_of (join_pool key h p) k \<and>
      0 \<le> b_assignedDemand (the (p_state (join_pool key h p) k))"
    using pool_wfD(5,6) [OF wf] by (simp add: st newBinding_facts)
  moreover have "p_active p = psum b_active (join_pool key h p)"
    using join_pool_psum [OF new, of b_active h] pool_wfD(7) [OF wf] by (simp add: newBinding_facts)
  moreover have "distinct (p_order p @ [key])" using pool_wfD(1) [OF wf] new by simp
  ultimately show "pool_wf a' t (join_pool key h p)"
    unfolding pool_wf_def same using disc by blast
  have "\<forall>k \<in> set (p_order p @ [key]). binding_ok h (the (p_state (join_pool key h p) k))"
    using ok by (simp add: st newBinding_facts pool_ok_def)
  moreover have "p_remote p = psum effectivePublished (join_pool key h p)" "p_unknown p + 1 = psum unknown_one (join_pool key h p)"
    using join_pool_psum [OF new, of effectivePublished h] join_pool_psum [OF new, of unknown_one h] ok
    by (simp_all add: newBinding_facts pool_ok_def)
  ultimately show "pool_ok h (join_pool key h p)"
    unfolding pool_ok_def same using ok by (simp add: pool_ok_def)
qed

lemma join_ok:
  assumes ok: "alloc_ok a" and p: "map_of (a_pools a) t = Some p" and new: "a_tierOf a key = None"
  shows "alloc_ok (join t key p a)" (is "alloc_ok ?a")
proof -
  note wf = alloc_okD(1) [OF ok]
  note dist = pools_wfD(1) [OF wf]
  let ?p = "join_pool key (a_held a) p"
  have pools: "a_pools ?a = AList.update t ?p (a_pools a)" by (simp add: join_def)
  have tierOf: "a_tierOf ?a = (a_tierOf a)(key \<mapsto> t)" by (simp add: join_def)
  have fresh: "key \<notin> set (p_order q)" if "(s, q) \<in> set (a_pools a)" for s q
    by (rule pools_wf_tierOf_None [OF wf new that])
  note tp = map_of_SomeD [OF p]
  have each: "pool_wf ?a s q \<and> pool_ok (a_held a) q" if "(s, q) \<in> set (a_pools ?a)" for s q
  proof (cases "s = t")
    case True
    then have "q = ?p" using that dist by (simp add: pools in_set_update)
    then show ?thesis
      using True join_pool_ok [OF pools_wfD(2) [OF wf tp] alloc_okD(2) [OF ok tp] fresh [OF tp] tierOf] by simp
  next
    case False
    then have sq: "(s, q) \<in> set (a_pools a)" using that dist by (simp add: pools in_set_update)
    then show ?thesis using pools_wfD(2) [OF wf sq] alloc_okD(2) [OF ok sq] fresh [OF sq]
      by (auto simp: pool_wf_def tierOf)
  qed
  have sums: "sum_list (map (\<lambda>(t, p). f p) (a_pools ?a)) = sum_list (map (\<lambda>(t, p). f p) (a_pools a)) - f p + f ?p"
    for f :: "pool \<Rightarrow> int"
    unfolding pools using sum_list_update_present [OF dist p, of "\<lambda>(t, p). f p" ?p] by simp
  show ?thesis
  proof (rule alloc_okI)
    show "distinct (keys (a_pools ?a))" using dist by (simp add: pools distinct_update)
    show "pool_wf ?a s q" "pool_ok (a_held ?a) q" if "(s, q) \<in> set (a_pools ?a)" for s q
      using each [OF that] by (simp_all add: join_def)
    show "\<exists>q. map_of (a_pools ?a) s = Some q \<and> k \<in> set (p_order q)" if "a_tierOf ?a k = Some s" for k s
      using that pools_wfD(4) [OF wf, of k s] p
      by (auto simp: pools tierOf update_conv' join_pool_def split: if_splits)
    show "distinct (a_order ?a)" using pools_wfD(5,6) [OF wf] new by (auto simp: join_def)
    show "set (a_order ?a) = dom (a_tierOf ?a)" using pools_wfD(6) [OF wf] by (simp add: join_def)
    show "a_discovery ?a < max 1 (length (a_order ?a))"
      using pools_wfD(9) [OF wf] by (simp add: join_def)
    show "a_activeCount ?a = sum_list (map (\<lambda>(t, p). p_active p) (a_pools ?a))"
      using sums [of p_active] pools_wfD(8) [OF wf] by (simp add: join_def join_pool_def)
    show "a_remoteCapacity ?a = sum_list (map (\<lambda>(t, p). p_remote p) (a_pools ?a))"
      using sums [of p_remote] alloc_okD(3) [OF ok] by (simp add: join_def join_pool_def)
    show "a_unknownSessions ?a = sum_list (map (\<lambda>(t, p). p_unknown p) (a_pools ?a))"
      using sums [of p_unknown] alloc_okD(4) [OF ok] by (simp add: join_def join_pool_def)
    show "a_globalParallelism ?a > 0 \<Longrightarrow> a_remoteCapacity ?a \<le> a_globalParallelism ?a"
      using alloc_okD(5) [OF ok] by (simp add: join_def)
  qed
qed

lemma Register_eq:
  "\<exists>a1 p. (a1 = a \<or> (map_of (a_pools a) t = None \<and> a1 = a\<lparr>a_pools := AList.update t (newPool n) (a_pools a)\<rparr>)) \<and>
    map_of (a_pools a1) t = Some p \<and>
    (snd (Register t key n a) = a1 \<or>
     (fst (Register t key n a) = None \<and> p_state p key = None \<and>
      snd (Register t key n a) = invalidatePlan (join t key p a1)))"
  by (cases "map_of (a_pools a) t")
    (auto simp: Register_def Let_def join_def join_pool_def update_conv')

lemma Register_ok:
  assumes ok: "alloc_ok a" and new: "a_tierOf a key = None" and par: "0 \<le> n"
  shows "alloc_ok (snd (Register t key n a))"
proof -
  obtain a1 p where a1: "a1 = a \<or> (map_of (a_pools a) t = None \<and> a1 = a\<lparr>a_pools := AList.update t (newPool n) (a_pools a)\<rparr>)"
    and p: "map_of (a_pools a1) t = Some p" and out: "snd (Register t key n a) = a1 \<or>
       snd (Register t key n a) = invalidatePlan (join t key p a1)"
    using Register_eq [of a t n key] by blast
  have ok1: "alloc_ok a1" using a1 ok add_pool_ok [OF ok _ par] by auto
  have "a_tierOf a1 key = None" using a1 new by auto
  from join_ok [OF ok1 p this] ok1 out show ?thesis by auto
qed

end
