(* ===== verification/PlanCache.thy ===== *)
theory PlanCache
  imports AllocatorInv
begin

text \<open>
  The plan cache is coherent: a plan that is still cached is the plan a rebuild
  would produce.  \<^verbatim>\<open>buildPlan\<close> does not read the remote half of the state (published
  and pending capacities, session knowledge, discovery generations), so the
  operations that change only that half may keep the cached plan; every other
  operation drops it.
\<close>

section \<open>What a plan depends on\<close>

definition local_binding :: "binding \<Rightarrow> binding"
  where "local_binding b = b\<lparr>b_published := 0, b_pending := None, b_pollID := 0, b_remoteKnown := False\<rparr>"

definition local_pool :: "pool \<Rightarrow> pool"
  where "local_pool p = p\<lparr>p_state := (\<lambda>k. map_option local_binding (p_state p k)), p_remote := 0,
    p_unknown := 0, p_discoveryGeneration := 0\<rparr>"

definition local_pools :: "(tier_id, pool) gomap \<Rightarrow> (tier_id, pool) gomap"
  where "local_pools ps = map (\<lambda>(t, p). (t, local_pool p)) ps"

definition local_view :: "allocator \<Rightarrow> allocator"
  where "local_view a = a\<lparr>a_pools := local_pools (a_pools a), a_discoveryGeneration := 0, a_remoteCapacity := 0,
    a_unknownSessions := 0, a_plan := None\<rparr>"

lemma local_the [simp]:
  "b_active (the (map_option local_binding x)) = b_active (the x)"
  "b_assignedDemand (the (map_option local_binding x)) = b_assignedDemand (the x)"
  "b_held (the (map_option local_binding x)) = b_held (the x)"
  "silent (the (map_option local_binding x)) = silent (the x)"
  by (cases x; simp add: local_binding_def silent_def)+

lemma local_pool_fields [simp]:
  "p_order (local_pool p) = p_order p" "p_parallelism (local_pool p) = p_parallelism p"
  "p_active (local_pool p) = p_active p" "p_discovery (local_pool p) = p_discovery p"
  "p_state (local_pool p) k = map_option local_binding (p_state p k)"
  by (simp_all add: local_pool_def)

lemma local_candidates [simp]:
  "allocationCandidates order (p_state (local_pool p)) budget = allocationCandidates order (p_state p) budget"
  by (simp add: allocationCandidates_def Let_def cong: if_cong)

lemma local_seedTier [simp]: "seedTier (t, local_pool p) = seedTier (t, p)"
  by (simp add: seedTier_def fun_eq_iff)

lemma local_allocateTier [simp]: "allocateTier t (local_pool p) plan = allocateTier t p plan"
  by (simp add: allocateTier_def Let_def)

lemma local_setTierDiscovery [simp]: "setTierDiscovery t (local_pool p) plan = setTierDiscovery t p plan"
  by (simp add: setTierDiscovery_def Let_def)

lemma local_globalTiers [simp]: "globalTiers (local_pools ps) budget = globalTiers ps budget"
  unfolding globalTiers_def local_pools_def map_map o_def split_def by (simp add: Let_def cong: if_cong)

lemma local_map_of [simp]: "map_of (local_pools ps) t = map_option local_pool (map_of ps t)"
  by (induction ps) (auto simp: local_pools_def)

lemma local_view_fields [simp]:
  "a_pools (local_view a) = local_pools (a_pools a)" "a_order (local_view a) = a_order a"
  "a_discovery (local_view a) = a_discovery a" "a_globalParallelism (local_view a) = a_globalParallelism a"
  "a_activeCount (local_view a) = a_activeCount a" "a_planGeneration (local_view a) = a_planGeneration a"
  "tierKey (local_view a) k = tierKey a k"
  by (simp_all add: local_view_def tierKey_def)

lemma local_binding_of [simp]: "binding_of (local_view a) k = map_option local_binding (binding_of a k)"
  by (cases "map_of (a_pools a) (tierKey a k)") (simp_all add: binding_of_def poolOf_def)

lemma local_globalRemainder [simp]:
  "globalRemainder (local_view a) level ks remaining byTier plan = globalRemainder a level ks remaining byTier plan"
  by (induction ks arbitrary: remaining byTier plan) (simp_all add: Let_def)

lemma local_allocateGlobal [simp]: "allocateGlobal (local_view a) plan = allocateGlobal a plan"
  by (simp add: allocateGlobal_def Let_def)

lemma local_setGlobalDiscovery [simp]: "setGlobalDiscovery (local_view a) plan = setGlobalDiscovery a plan"
  by (cases "map_of (a_pools a) (tierKey a (a_order a ! a_discovery a))")
    (simp_all add: setGlobalDiscovery_def Let_def)

lemma fold_local_pools:
  "(\<And>t p. f (t, local_pool p) = f (t, p)) \<Longrightarrow> fold f (local_pools ps) plan = fold f ps plan"
  by (induction ps arbitrary: plan) (auto simp: local_pools_def)

lemma buildPlan_local: "buildPlan (local_view a) = buildPlan a"
proof -
  have "fold seedTier (local_pools (a_pools a)) plan = fold seedTier (a_pools a) plan" for plan
    by (rule fold_local_pools) simp
  moreover have "fold (\<lambda>(tierID, p) plan. setTierDiscovery tierID p (allocateTier tierID p plan)) (local_pools (a_pools a)) plan
      = fold (\<lambda>(tierID, p) plan. setTierDiscovery tierID p (allocateTier tierID p plan)) (a_pools a) plan" for plan
    by (rule fold_local_pools) (simp add: fun_eq_iff)
  ultimately show ?thesis by (simp add: buildPlan_def Let_def)
qed

lemma buildPlan_cong: "local_view a' = local_view a \<Longrightarrow> buildPlan a' = buildPlan a"
  by (metis buildPlan_local)

section \<open>Operations on the remote half keep the view\<close>

lemma update_same: "map_of m k = Some v \<Longrightarrow> AList.update k v m = m"
  by (induction m) auto

lemma map_update_pools:
  "local_pools (AList.update t p ps) = AList.update t (local_pool p) (local_pools ps)"
  by (induction ps) (auto simp: local_pools_def)

lemma local_view_on_pool:
  assumes "\<And>p. poolOf a key = Some p \<Longrightarrow> local_pool (f p) = local_pool p"
  shows "local_view (on_pool key f a) = local_view a"
proof (cases "poolOf a key")
  case (Some p)
  then have m: "map_of (local_pools (a_pools a)) (tierKey a key) = Some (local_pool p)" by (simp add: poolOf_def)
  have "local_pools (a_pools (on_pool key f a)) = local_pools (a_pools a)"
    by (simp add: on_pool_Some [OF Some] map_update_pools assms [OF Some] update_same [OF m])
  then show ?thesis by (simp add: local_view_def on_pool_Some [OF Some])
qed (simp add: on_pool_def)

lemma local_view_on_binding:
  assumes "\<And>b. binding_of a key = Some b \<Longrightarrow> local_binding (f b) = local_binding b"
  shows "local_view (on_binding key f a) = local_view a"
  unfolding on_binding_def
proof (rule local_view_on_pool)
  fix p assume p: "poolOf a key = Some p"
  show "local_pool (case p_state p key of None \<Rightarrow> p | Some b \<Rightarrow> p\<lparr>p_state := (p_state p)(key \<mapsto> f b)\<rparr>) = local_pool p"
  proof (cases "p_state p key")
    case (Some b)
    then have "local_binding (f b) = local_binding b" using assms p by (simp add: binding_of_def)
    with Some show ?thesis by (auto simp: local_pool_def fun_eq_iff)
  qed simp
qed

lemma local_view_counters [simp]:
  "local_view (a\<lparr>a_remoteCapacity := n\<rparr>) = local_view a" "local_view (a\<lparr>a_unknownSessions := n\<rparr>) = local_view a"
  "local_view (a\<lparr>a_plan := pl\<rparr>) = local_view a" "local_view (a\<lparr>a_discoveryGeneration := g\<rparr>) = local_view a"
  by (simp_all add: local_view_def)

lemma local_view_changeRemoteCapacity:
  assumes "\<And>b. local_binding (change b) = local_binding b"
  shows "local_view (changeRemoteCapacity key change a) = local_view a"
proof (cases "binding_of a key")
  case (Some b)
  have "local_view (on_pool key (\<lambda>p. p\<lparr>p_remote := p_remote p + d\<rparr>) (on_binding key change a)) = local_view a" for d
    using local_view_on_pool [of "on_binding key change a" key "\<lambda>p. p\<lparr>p_remote := p_remote p + d\<rparr>"]
      local_view_on_binding [of a key change] assms by (simp add: local_pool_def)
  then show ?thesis using Some by (simp add: changeRemoteCapacity_def Let_def)
qed (simp add: changeRemoteCapacity_def)

lemma local_view_setRemoteKnown [simp]: "local_view (setRemoteKnown key known a) = local_view a"
proof (cases "binding_of a key")
  case (Some b)
  have step: "local_view (on_binding key (\<lambda>b. b\<lparr>b_remoteKnown := known\<rparr>) a') = local_view a'" for a'
    by (rule local_view_on_binding) (simp add: local_binding_def)
  have "local_view (on_pool key (\<lambda>p. p\<lparr>p_unknown := p_unknown p + d\<rparr>) a) = local_view a" for d
    by (rule local_view_on_pool) (simp add: local_pool_def)
  then show ?thesis using Some by (simp add: setRemoteKnown_def Let_def step)
qed (simp add: setRemoteKnown_def)

lemma plan_fields [simp]:
  "a_plan (changeRemoteCapacity key change a) = a_plan a" "a_plan (setRemoteKnown key known a) = a_plan a"
  by (simp_all add: changeRemoteCapacity_def setRemoteKnown_def Let_def split: option.splits)

section \<open>Coherence\<close>

definition plan_fresh :: "allocator \<Rightarrow> bool"
  where "plan_fresh a \<longleftrightarrow> (case a_plan a of None \<Rightarrow> True | Some plan \<Rightarrow> plan = buildPlan a)"

lemma plan_fresh_cong:
  "plan_fresh a \<Longrightarrow> local_view a' = local_view a \<Longrightarrow> a_plan a' = a_plan a \<Longrightarrow> plan_fresh a'"
  using buildPlan_cong [of a' a] by (simp add: plan_fresh_def split: option.splits)

lemma plan_fresh_invalidate [simp]: "plan_fresh (invalidatePlan a)"
  by (simp add: plan_fresh_def invalidatePlan_def)

lemma planLocked_plan: "plan_fresh a \<Longrightarrow> fst (planLocked a) = buildPlan a"
  by (simp add: plan_fresh_def planLocked_def Let_def split: option.splits)

lemma planLocked_fresh: "plan_fresh a \<Longrightarrow> plan_fresh (snd (planLocked a))"
proof (cases "a_plan a")
  case None
  have "buildPlan (a\<lparr>a_plan := Some (buildPlan a)\<rparr>) = buildPlan a" by (rule buildPlan_cong) simp
  with None show ?thesis by (simp add: plan_fresh_def planLocked_def Let_def)
qed (simp add: planLocked_def)

lemma advanceDiscoveryFrom_fresh: "plan_fresh a \<Longrightarrow> plan_fresh (advanceDiscoveryFrom key a)"
  by (simp add: advanceDiscoveryFrom_def Let_def split: option.splits)

lemma rotateDiscovery_fresh:
  assumes "plan_fresh a"
  shows "plan_fresh (rotateDiscovery poll a)"
proof (cases "a_globalParallelism a > 0")
  case True
  have "plan_fresh (a\<lparr>a_discoveryGeneration := g\<rparr>)" for g by (rule plan_fresh_cong [OF assms]) simp_all
  then have "plan_fresh (a\<lparr>a_discovery := a_discovery a, a_discoveryGeneration := g\<rparr>)" for g by simp
  then show ?thesis using True assms by (auto simp: rotateDiscovery_def Let_def)
next
  case False
  have "plan_fresh (on_pool k (\<lambda>p. p\<lparr>p_discovery := n, p_discoveryGeneration := p_discoveryGeneration p + 1\<rparr>) a)"
    if "poolOf a k = Some p" "n = p_discovery p" for k p n
  proof (rule plan_fresh_cong [OF assms])
    show "local_view (on_pool k (\<lambda>p. p\<lparr>p_discovery := n, p_discoveryGeneration := p_discoveryGeneration p + 1\<rparr>) a) = local_view a"
      by (rule local_view_on_pool) (use that in \<open>simp add: local_pool_def\<close>)
  qed simp
  then show ?thesis using False assms by (auto simp: rotateDiscovery_def Let_def split: option.splits)
qed

lemma TryReserve_fresh: "plan_fresh a \<Longrightarrow> plan_fresh (snd (TryReserve key a))"
  by (cases rule: TryReserve_cases [of key a]) (simp_all add: advanceDiscoveryFrom_fresh)

lemma Adopt_fresh: "plan_fresh a \<Longrightarrow> plan_fresh (snd (Adopt key a))"
  by (simp add: Adopt_eq advanceDiscoveryFrom_fresh split: option.splits)

lemma Release_fresh: "plan_fresh a \<Longrightarrow> plan_fresh (Release key a)"
  by (simp add: Release_eq split: option.splits)

lemma SetAssignedDemand_fresh: "plan_fresh a \<Longrightarrow> plan_fresh (SetAssignedDemand key demand a)"
  by (simp add: SetAssignedDemand_def Let_def advanceDiscoveryFrom_fresh split: option.splits)

lemma Hold_fresh:
  assumes "plan_fresh a"
  shows "plan_fresh (Hold held a)"
proof -
  have thaw: "plan_fresh a' \<Longrightarrow> plan_fresh (fold thawTier ts a')" for a' ts
    by (induction ts arbitrary: a') (simp_all add: thawTier_def advanceDiscoveryFrom_fresh split: option.splits)
  show ?thesis using assms by (simp add: Hold_def Let_def thaw advanceDiscoveryFrom_fresh)
qed

lemma remote_change_fresh:
  assumes "plan_fresh a" "\<And>b. local_binding (change b) = local_binding b"
  shows "plan_fresh (changeRemoteCapacity key change a)"
  by (rule plan_fresh_cong [OF assms(1) local_view_changeRemoteCapacity [OF assms(2)]]) simp

lemma setRemoteKnown_fresh: "plan_fresh a \<Longrightarrow> plan_fresh (setRemoteKnown key known a)"
  by (erule plan_fresh_cong) simp_all

lemma SessionOpened_fresh: "plan_fresh a \<Longrightarrow> plan_fresh (SessionOpened key a)"
  by (auto simp: SessionOpened_def local_binding_def intro!: setRemoteKnown_fresh remote_change_fresh split: option.splits)

lemma closeSession_local: "local_binding (closeSession confirmed b) = local_binding b"
  by (simp add: closeSession_def local_binding_def Let_def split: option.splits)

lemma SessionClosed_fresh: "plan_fresh a \<Longrightarrow> plan_fresh (SessionClosed key confirmed a)"
  by (auto simp: SessionClosed_def closeSession_local intro!: setRemoteKnown_fresh remote_change_fresh split: option.splits)

lemma settlePoll_local: "local_binding (settlePoll poll succeeded b) = local_binding b"
  by (simp add: settlePoll_def local_binding_def Let_def)

lemma CompletePoll_fresh:
  assumes "plan_fresh a"
  shows "plan_fresh (CompletePoll poll succeeded isEmpty a)"
proof -
  have "plan_fresh (changeRemoteCapacity (pl_key poll) (settlePoll poll s) a)" for s
    by (rule remote_change_fresh [OF assms settlePoll_local])
  then show ?thesis using assms by (simp add: CompletePoll_def Let_def rotateDiscovery_fresh split: option.splits)
qed

lemma BeginPoll_fresh:
  assumes "plan_fresh a"
  shows "plan_fresh (snd (BeginPoll key a))"
proof -
  have poll: "plan_fresh (changeRemoteCapacity key (\<lambda>b. b\<lparr>b_pending := x\<rparr>) (on_binding key (\<lambda>b. b\<lparr>b_pollID := b_pollID b + 1\<rparr>) a'))"
    if "plan_fresh a'" for a' x
  proof (rule remote_change_fresh)
    show "plan_fresh (on_binding key (\<lambda>b. b\<lparr>b_pollID := b_pollID b + 1\<rparr>) a')"
      by (rule plan_fresh_cong [OF that local_view_on_binding]) (simp_all add: local_binding_def)
  qed (simp add: local_binding_def)
  show ?thesis
    using assms planLocked_fresh [OF assms] poll
    by (auto simp: BeginPoll_def Let_def split_def split: option.splits)
qed

lemma Register_fresh:
  assumes "plan_fresh a"
  shows "plan_fresh (snd (Register t key n a))"
  using assms by (cases "map_of (a_pools a) t") (simp_all add: Register_def Let_def update_conv' newPool_def)

end
