(* ===== verification/AllocatorReach.thy ===== *)
theory AllocatorReach
  imports PlanCache
begin

text \<open>
  The reachable states of the allocator: any sequence of its operations, with
  every poll that was handed out available to be completed at any later time, in
  any order, more than once.  Each operation is one step because the source runs
  it under the allocator's mutex.  The invariant, the plan cache and the match
  between outstanding polls and their reservations hold in every such state.
\<close>

section \<open>What an operation does to the bindings\<close>

lemma poked_binding_of:
  assumes "poked key b b' a a'"
  shows "binding_of a' k = (if k = key then Some b' else binding_of a k)"
proof -
  from assms obtain p p' where p: "poolOf a key = Some p" "p_state p' = (p_state p)(key \<mapsto> b')"
    and pools: "a_pools a' = AList.update (tierKey a key) p' (a_pools a)" and tiers: "a_tierOf a' = a_tierOf a"
    unfolding poked_def rebooked_def by blast
  have "tierKey a' k = tierKey a k" for k by (simp add: tierKey_def tiers)
  then show ?thesis using p by (auto simp: binding_of_def poolOf_def pools update_conv')
qed

lemma binding_of_on_pool:
  "(\<And>p. p_state (f p) = p_state p) \<Longrightarrow> binding_of (on_pool key f a) k = binding_of a k"
  by (cases "poolOf a key") (auto simp: on_pool_def binding_of_def poolOf_def tierKey_def update_conv')

lemma binding_of_on_binding:
  "binding_of (on_binding key f a) k = (if k = key then map_option f (binding_of a key) else binding_of a k)"
proof (cases "poolOf a key")
  case (Some p)
  show ?thesis
  proof (cases "p_state p key")
    case None
    then have "on_binding key f a = a"
      using Some update_same [of "a_pools a" "tierKey a key" p] by (simp add: on_binding_def on_pool_def poolOf_def)
    then show ?thesis using Some None by (simp add: binding_of_def)
  next
    case b: (Some b)
    then show ?thesis using Some
      by (auto simp: on_binding_Some [OF Some b] binding_of_def poolOf_def tierKey_def update_conv')
  qed
qed (simp add: on_binding_def on_pool_def binding_of_def)

lemma binding_of_global [simp]:
  "binding_of (a\<lparr>a_discovery := n\<rparr>) k = binding_of a k"
  "binding_of (a\<lparr>a_discoveryGeneration := g\<rparr>) k = binding_of a k"
  by (simp_all add: binding_of_def poolOf_def tierKey_def)

lemma binding_of_ring [simp]:
  "binding_of (on_pool key (\<lambda>p. p\<lparr>p_discovery := n, p_discoveryGeneration := p_discoveryGeneration p + 1\<rparr>) a) k = binding_of a k"
  by (rule binding_of_on_pool) simp

lemma binding_of_advance [simp]: "binding_of (advanceDiscoveryFrom key a) k = binding_of a k"
  by (simp add: advanceDiscoveryFrom_def Let_def split: option.splits)

lemma binding_of_rotate [simp]: "binding_of (rotateDiscovery poll a) k = binding_of a k"
  by (simp add: rotateDiscovery_def Let_def split: option.splits)

lemma binding_of_add_active [simp]:
  "binding_of (add_active d key a) k =
    (if k = key then map_option (\<lambda>b. b\<lparr>b_active := b_active b + d\<rparr>) (binding_of a key) else binding_of a k)"
  by (simp add: add_active_def binding_of_on_pool binding_of_on_binding)

lemma binding_of_changeRemote [simp]:
  "binding_of (changeRemoteCapacity key change a) k =
    (if k = key then map_option change (binding_of a key) else binding_of a k)"
  by (simp add: changeRemoteCapacity_def Let_def binding_of_on_pool binding_of_on_binding split: option.splits)

lemma binding_of_setRemoteKnown [simp]:
  "binding_of (setRemoteKnown key known a) k =
    (if k = key then map_option (\<lambda>b. b\<lparr>b_remoteKnown := known\<rparr>) (binding_of a key) else binding_of a k)"
  by (auto simp: setRemoteKnown_def Let_def binding_of_on_pool binding_of_on_binding split: option.splits)

lemma binding_of_held:
  "binding_of (a\<lparr>a_held := h, a_pools := map (\<lambda>(t, p). (t, hold_pool h p)) (a_pools a)\<rparr>) k =
    map_option (\<lambda>b. b\<lparr>b_held := h\<rparr>) (binding_of a k)"
  by (simp add: binding_of_def poolOf_def tierKey_def map_of_map_pools split: option.splits)

lemma binding_of_Hold:
  "binding_of (Hold held a) k =
    (if a_held a = held then binding_of a k else map_option (\<lambda>b. b\<lparr>b_held := held\<rparr>) (binding_of a k))"
proof -
  have "binding_of (thawTier t a') k = binding_of a' k" for t a'
    by (simp add: thawTier_def split: option.splits)
  then have thaw: "binding_of (fold thawTier ts a') k = binding_of a' k" for ts a'
    by (induction ts arbitrary: a') simp_all
  show ?thesis by (simp add: Hold_def Let_def thaw binding_of_held)
qed

lemma binding_of_join:
  assumes "pools_wf a" "map_of (a_pools a) t = Some p" "a_tierOf a key = None"
  shows "binding_of (join t key p a) k = (if k = key then Some (newBinding (a_held a)) else binding_of a k)"
  using assms
  by (auto simp: join_def join_pool_def binding_of_def poolOf_def tierKey_def update_conv' split: option.splits)

section \<open>Reachable states\<close>

text \<open>
  A binding key is registered once: the controller derives it from a target and
  a tier (\<^verbatim>\<open>target.ID + "/" + tier.ID\<close> in \<^verbatim>\<open>internal/app/bindings.go\<close>).  Configured
  parallelism is not negative.  Poll identifiers are 64-bit counters; a state is
  reached with fewer polls than that counter has values.
\<close>

inductive local_op :: "allocator \<Rightarrow> allocator \<Rightarrow> bool"
  where
    register: "a_tierOf a key = None \<Longrightarrow> 0 \<le> n \<Longrightarrow> local_op a (snd (Register t key n a))"
  | demand: "local_op a (SetAssignedDemand key d a)"
  | hold: "local_op a (Hold h a)"
  | reserve: "local_op a (snd (TryReserve key a))"
  | adopt: "local_op a (snd (Adopt key a))"
  | release: "local_op a (Release key a)"
  | plan: "local_op a (snd (Plan a))"
  | pool_report: "local_op a (snd (PoolReport t a))"
  | capacity_report: "local_op a (snd (CapacityReport a))"

inductive reachable :: "int \<Rightarrow> allocator \<Rightarrow> poll list \<Rightarrow> bool"
  for g :: int
  where
    new: "reachable g (NewWithGlobalParallelism g) []"
  | local: "reachable g a polls \<Longrightarrow> local_op a a' \<Longrightarrow> reachable g a' polls"
  | opened: "reachable g a polls \<Longrightarrow> reachable g (SessionOpened key a) polls"
  | closed: "reachable g a polls \<Longrightarrow> reachable g (SessionClosed key c a) polls"
  | poll: "reachable g a polls \<Longrightarrow> length polls < 2 ^ 64 - 1 \<Longrightarrow>
      reachable g (snd (BeginPoll key a)) (fst (BeginPoll key a) # polls)"
  | complete: "reachable g a polls \<Longrightarrow> p \<in> set polls \<Longrightarrow> reachable g (CompletePoll p s e a) polls"

section \<open>Outstanding polls\<close>

definition poll_ok :: "allocator \<Rightarrow> poll \<Rightarrow> bool"
  where "poll_ok a p \<longleftrightarrow> 0 \<le> pl_capacity p \<and> (pl_id p \<noteq> 0 \<longrightarrow>
    (\<exists>b. binding_of a (pl_key p) = Some b \<and> unat (pl_id p) \<le> unat (b_pollID b) \<and>
      (\<forall>pending. b_pending b = Some pending \<longrightarrow> pp_id pending = pl_id p \<longrightarrow> pp_capacity pending = pl_capacity p)))"

definition polls_ok :: "allocator \<Rightarrow> poll list \<Rightarrow> bool"
  where "polls_ok a polls \<longleftrightarrow> (\<forall>p \<in> set polls. poll_ok a p) \<and>
    (\<forall>k b. binding_of a k = Some b \<longrightarrow> unat (b_pollID b) \<le> length polls \<and>
      (\<forall>pending. b_pending b = Some pending \<longrightarrow> pp_id pending \<noteq> 0))"

text \<open>An operation other than \<^verbatim>\<open>BeginPoll\<close> issues no identifier and reserves nothing.\<close>

definition issues_none :: "allocator \<Rightarrow> allocator \<Rightarrow> bool"
  where "issues_none a a' \<longleftrightarrow>
    (\<forall>k b. binding_of a k = Some b \<longrightarrow> (\<exists>b'. binding_of a' k = Some b' \<and> b_pollID b' = b_pollID b)) \<and>
    (\<forall>k b'. binding_of a' k = Some b' \<longrightarrow>
      (case binding_of a k of
         Some b \<Rightarrow> b_pollID b' = b_pollID b \<and> (b_pending b' = b_pending b \<or> b_pending b' = None)
       | None \<Rightarrow> b_pollID b' = 0 \<and> b_pending b' = None))"

lemma issues_none_polls:
  assumes "issues_none a a'" "polls_ok a polls"
  shows "polls_ok a' polls"
proof -
  have "poll_ok a' p" if mem: "p \<in> set polls" for p
  proof (cases "pl_id p = 0")
    case True
    then show ?thesis using assms(2) that by (auto simp: polls_ok_def poll_ok_def)
  next
    case False
    then obtain b where b: "binding_of a (pl_key p) = Some b" "unat (pl_id p) \<le> unat (b_pollID b)"
      "\<forall>pending. b_pending b = Some pending \<longrightarrow> pp_id pending = pl_id p \<longrightarrow> pp_capacity pending = pl_capacity p"
      and cap: "0 \<le> pl_capacity p"
      using assms(2) mem unfolding polls_ok_def poll_ok_def by blast
    from assms(1) b(1) obtain b' where b': "binding_of a' (pl_key p) = Some b'" "b_pollID b' = b_pollID b"
      unfolding issues_none_def by blast
    then have "b_pending b' = b_pending b \<or> b_pending b' = None" using assms(1) b(1) by (fastforce simp: issues_none_def)
    then show ?thesis using b b' cap by (auto simp: poll_ok_def)
  qed
  moreover have "unat (b_pollID b') \<le> length polls \<and> (\<forall>pending. b_pending b' = Some pending \<longrightarrow> pp_id pending \<noteq> 0)"
    if "binding_of a' k = Some b'" for k b'
  proof (cases "binding_of a k")
    case None
    then show ?thesis using assms(1) that by (fastforce simp: issues_none_def)
  next
    case (Some b)
    then show ?thesis using assms that by (fastforce simp: issues_none_def polls_ok_def)
  qed
  ultimately show ?thesis by (simp add: polls_ok_def)
qed

lemma issues_none_refl [simp]: "issues_none a a"
  by (auto simp: issues_none_def)

lemma issues_none_eq: "(\<And>k. binding_of a' k = binding_of a k) \<Longrightarrow> issues_none a a'"
  by (auto simp: issues_none_def)

lemma issues_none_map:
  assumes "\<And>k. binding_of a' k = map_option (f k) (binding_of a k)"
    "\<And>k b. b_pollID (f k b) = b_pollID b" "\<And>k b. b_pending (f k b) = b_pending b \<or> b_pending (f k b) = None"
  shows "issues_none a a'"
  using assms by (auto simp: issues_none_def split: option.splits)

lemma issues_none_at:
  assumes "\<And>k. binding_of a' k = (if k = key then map_option f (binding_of a key) else binding_of a k)"
    "\<And>b. b_pollID (f b) = b_pollID b" "\<And>b. b_pending (f b) = b_pending b \<or> b_pending (f b) = None"
  shows "issues_none a a'"
  by (rule issues_none_map [where f = "\<lambda>k b. if k = key then f b else b"])
    (use assms in \<open>auto simp: option.map_ident\<close>)

lemma binding_of_planned [simp]:
  "binding_of (snd (planLocked a)) k = binding_of a k" "binding_of (snd (Plan a)) k = binding_of a k"
  "binding_of (snd (PoolReport t a)) k = binding_of a k" "binding_of (snd (CapacityReport a)) k = binding_of a k"
  by (simp_all add: planLocked_def Plan_def PoolReport_def CapacityReport_def Let_def split_def split: option.splits)

lemma issues_none_ops:
  "issues_none a (SetAssignedDemand key d a)" "issues_none a (Hold h a)" "issues_none a (snd (TryReserve key a))"
  "issues_none a (snd (Adopt key a))" "issues_none a (Release key a)" "issues_none a (SessionOpened key a)"
  "issues_none a (SessionClosed key c a)" "issues_none a (CompletePoll p s e a)"
  "issues_none a (snd (Plan a))" "issues_none a (snd (PoolReport t a))" "issues_none a (snd (CapacityReport a))"
proof -
  show "issues_none a (SetAssignedDemand key d a)"
    by (cases "binding_of a key")
      (auto simp: SetAssignedDemand_def Let_def binding_of_on_binding intro!: issues_none_at [of _ key "\<lambda>b. b\<lparr>b_assignedDemand := x\<rparr>" for x])
  show "issues_none a (Hold h a)"
    by (cases "a_held a = h") (auto simp: binding_of_Hold intro: issues_none_eq issues_none_map [of _ "\<lambda>_ b. b\<lparr>b_held := h\<rparr>"])
  have bump: "issues_none a (advanceDiscoveryFrom key (invalidatePlan (add_active 1 key a)))"
    by (rule issues_none_at [of _ key "\<lambda>b. b\<lparr>b_active := b_active b + 1\<rparr>"]) simp_all
  then show "issues_none a (snd (TryReserve key a))" by (cases rule: TryReserve_cases [of key a]) simp_all
  show "issues_none a (snd (Adopt key a))" using bump by (simp add: Adopt_eq split: option.splits)
  have drop: "issues_none a (invalidatePlan (add_active (- 1) key a))"
    by (rule issues_none_at [of _ key "\<lambda>b. b\<lparr>b_active := b_active b + - 1\<rparr>"]) simp_all
  then show "issues_none a (Release key a)" by (simp add: Release_eq split: option.splits)
  have "issues_none a (setRemoteKnown key True (changeRemoteCapacity key (\<lambda>b. b\<lparr>b_published := 0, b_pending := None\<rparr>) a))"
    by (rule issues_none_at [of _ key "\<lambda>b. b\<lparr>b_published := 0, b_pending := None, b_remoteKnown := True\<rparr>"])
      (simp_all add: option.map_comp o_def)
  then show "issues_none a (SessionOpened key a)" by (simp add: SessionOpened_def split: option.splits)
  have "issues_none a (setRemoteKnown key c (changeRemoteCapacity key (closeSession c) a))"
    by (rule issues_none_at [of _ key "\<lambda>b. (closeSession c b)\<lparr>b_remoteKnown := c\<rparr>"])
      (auto simp: option.map_comp o_def closeSession_def Let_def split: option.splits)
  then show "issues_none a (SessionClosed key c a)" by (simp add: SessionClosed_def split: option.splits)
  have settle: "issues_none a (changeRemoteCapacity (pl_key p) (settlePoll p s) a)" for s
    by (rule issues_none_at [of _ "pl_key p" "settlePoll p s"]) (simp_all add: settlePoll_def Let_def)
  have rotate: "issues_none a (rotateDiscovery p a')" if "issues_none a a'" for a'
    using that by (simp add: issues_none_def)
  show "issues_none a (CompletePoll p s e a)"
    using settle rotate by (simp add: CompletePoll_def Let_def split: option.splits)
qed (auto intro: issues_none_eq)

lemma issues_none_register:
  assumes "pools_wf a" "a_tierOf a key = None"
  shows "issues_none a (snd (Register t key n a))"
proof -
  obtain a1 p where a1: "a1 = a \<or> (map_of (a_pools a) t = None \<and> a1 = a\<lparr>a_pools := AList.update t (newPool n) (a_pools a)\<rparr>)"
    and p: "map_of (a_pools a1) t = Some p" and out: "snd (Register t key n a) = a1 \<or>
       snd (Register t key n a) = invalidatePlan (join t key p a1)"
    using Register_eq [of a t n key] by blast
  have same: "binding_of a1 k = binding_of a k" for k
    using a1 by (auto simp: binding_of_def poolOf_def tierKey_def update_conv' newPool_def split: option.splits if_splits)
  have unbound: "binding_of a key = None"
    using binding_home [OF assms(1)] assms(2) by (metis option.distinct(1) option.exhaust)
  have joined: "binding_of (join t key p a1) k = (if k = key then Some (newBinding (a_held a1)) else binding_of a k)" for k
    using a1 p unfolding same [symmetric]
    by (auto simp: join_def join_pool_def binding_of_def poolOf_def tierKey_def update_conv' split: option.splits)
  have "issues_none a a1" by (rule issues_none_eq) (rule same)
  moreover have "issues_none a (invalidatePlan (join t key p a1))"
    using unbound by (auto simp: issues_none_def joined newBinding_def split: option.splits if_splits)
  ultimately show ?thesis using out by metis
qed

lemma BeginPoll_polls:
  assumes ok: "alloc_ok a" and polls: "polls_ok a polls" and len: "length polls < 2 ^ 64 - 1"
  shows "polls_ok (snd (BeginPoll key a)) (fst (BeginPoll key a) # polls)"
proof (cases rule: BeginPoll_cases [of key a])
  case refused
  then show ?thesis using polls by (auto simp: polls_ok_def poll_ok_def invalidPoll_def le_Suc_eq)
next
  case (issued b pl capacity discovery generation desired)
  let ?id = "b_pollID b + 1"
  let ?b = "b\<lparr>b_pollID := ?id, b_pending := Some \<lparr>pp_id = ?id, pp_capacity = capacity\<rparr>\<rparr>"
  have bind: "binding_of (snd (BeginPoll key a)) k = (if k = key then Some ?b else binding_of a k)" for k
    using issued(1) by (simp add: issued(6) binding_of_on_binding)
  have small: "unat (b_pollID b) \<le> length polls" using polls issued(1) by (auto simp: polls_ok_def)
  then have id: "unat ?id = Suc (unat (b_pollID b))"
    using len by (simp add: unat_word_ariths)
  obtain p where p: "poolOf a key = Some p" "p_state p key = Some b"
    using binding_home [OF alloc_okD(1) [OF ok] issued(1)] by metis
  have cap: "0 \<le> capacity" using clampPublished_bounds(1) [OF p] issued(3) by simp
  have old: "poll_ok (snd (BeginPoll key a)) q" if mem: "q \<in> set polls" for q
  proof (cases "pl_id q \<noteq> 0 \<and> pl_key q = key")
    case True
    then have "unat (pl_id q) \<le> unat (b_pollID b)" "0 \<le> pl_capacity q"
      using polls mem issued(1) by (auto simp: polls_ok_def poll_ok_def)
    then show ?thesis using True id by (auto simp: poll_ok_def bind)
  next
    case False
    then show ?thesis using polls mem by (auto simp: polls_ok_def poll_ok_def bind)
  qed
  have new: "poll_ok (snd (BeginPoll key a)) (fst (BeginPoll key a))"
    using cap by (simp add: poll_ok_def bind) (simp add: issued(6))
  have "?id \<noteq> 0" using id by (metis nat.distinct(1) unat_0)
  then have ids: "unat (b_pollID b') \<le> length (fst (BeginPoll key a) # polls) \<and>
      (\<forall>pending. b_pending b' = Some pending \<longrightarrow> pp_id pending \<noteq> 0)"
    if "binding_of (snd (BeginPoll key a)) k = Some b'" for k b'
    using that polls small id by (fastforce simp: bind polls_ok_def split: if_splits)
  show ?thesis using old new ids by (simp add: polls_ok_def)
qed

section \<open>The invariant of reachable states\<close>

lemma alloc_ok_new: "alloc_ok (NewWithGlobalParallelism g)"
  by (rule alloc_okI) (simp_all add: NewWithGlobalParallelism_def)

lemma alloc_ok_planned:
  assumes "alloc_ok a"
  shows "alloc_ok (snd (planLocked a))" "alloc_ok (snd (Plan a))" "alloc_ok (snd (PoolReport t a))"
    "alloc_ok (snd (CapacityReport a))"
proof -
  show locked: "alloc_ok (snd (planLocked a))" using planLocked_state [of a] assms by auto
  show "alloc_ok (snd (Plan a))" using assms locked by (simp add: Plan_def split: option.splits)
  show "alloc_ok (snd (PoolReport t a))" using assms locked by (simp add: PoolReport_def Let_def split_def split: option.splits)
  show "alloc_ok (snd (CapacityReport a))" using locked by (simp add: CapacityReport_def Let_def split_def)
qed

lemma plan_fresh_planned:
  assumes "plan_fresh a"
  shows "plan_fresh (snd (Plan a))" "plan_fresh (snd (PoolReport t a))" "plan_fresh (snd (CapacityReport a))"
  using assms planLocked_fresh [OF assms]
  by (simp_all add: Plan_def PoolReport_def CapacityReport_def Let_def split_def split: option.splits)

lemma polls_ok_issued:
  assumes "polls_ok a polls" "p \<in> set polls" "binding_of a (pl_key p) = Some b" "b_pending b = Some pending"
    "pp_id pending = pl_id p"
  shows "pl_capacity p \<le> pp_capacity pending"
proof -
  have "pp_id pending \<noteq> 0" using assms(1,3,4) by (auto simp: polls_ok_def)
  then show ?thesis using assms by (fastforce simp: polls_ok_def poll_ok_def)
qed

lemma local_op_sound:
  assumes "local_op a a'" "alloc_ok a" "plan_fresh a"
  shows "alloc_ok a' \<and> plan_fresh a' \<and> issues_none a a'"
  using assms
proof (induction rule: local_op.induct)
  case (register a key n t)
  then show ?case
    using Register_ok [of a key n t] Register_fresh [of a t key n] issues_none_register [OF alloc_okD(1), of a key t n] by simp
qed (simp_all add: SetAssignedDemand_ok SetAssignedDemand_fresh Hold_ok Hold_fresh TryReserve_ok
    TryReserve_fresh Adopt_ok Adopt_fresh Release_ok Release_fresh alloc_ok_planned plan_fresh_planned issues_none_ops)

text \<open>Everything known of a reachable state, carried through every operation at once.\<close>

definition sound :: "allocator \<Rightarrow> poll list \<Rightarrow> bool"
  where "sound a polls \<longleftrightarrow> alloc_ok a \<and> plan_fresh a \<and> polls_ok a polls"

lemma CompletePoll_sound:
  assumes "sound a polls" "p \<in> set polls"
  shows "sound (CompletePoll p s e a) polls"
proof -
  have ok: "alloc_ok a" and po: "polls_ok a polls" using assms(1) by (simp_all add: sound_def)
  have "0 \<le> pl_capacity p" using po assms(2) by (auto simp: polls_ok_def poll_ok_def)
  then have "alloc_ok (CompletePoll p s e a)"
    using CompletePoll_ok [OF ok] polls_ok_issued [OF po assms(2)] by blast
  then show ?thesis
    using assms CompletePoll_fresh issues_none_polls [OF issues_none_ops(8) po] by (simp add: sound_def)
qed

lemma sound_ops:
  assumes "sound a polls"
  shows "local_op a a' \<Longrightarrow> sound a' polls" "sound (SessionOpened key a) polls" "sound (SessionClosed key c a) polls"
    "length polls < 2 ^ 64 - 1 \<Longrightarrow> sound (snd (BeginPoll key a)) (fst (BeginPoll key a) # polls)"
proof -
  have ok: "alloc_ok a" "plan_fresh a" "polls_ok a polls" using assms by (simp_all add: sound_def)
  show "sound a' polls" if "local_op a a'"
    using local_op_sound [OF that ok(1,2)] issues_none_polls [of a a'] ok(3) by (simp add: sound_def)
  show "sound (SessionOpened key a) polls"
    using ok issues_none_polls [OF issues_none_ops(6) ok(3)] by (simp add: sound_def SessionOpened_ok SessionOpened_fresh)
  show "sound (SessionClosed key c a) polls"
    using ok issues_none_polls [OF issues_none_ops(7) ok(3)] by (simp add: sound_def SessionClosed_ok SessionClosed_fresh)
  show "length polls < 2 ^ 64 - 1 \<Longrightarrow> sound (snd (BeginPoll key a)) (fst (BeginPoll key a) # polls)"
    using ok BeginPoll_polls by (simp add: sound_def BeginPoll_ok BeginPoll_fresh)
qed

lemma sound_new: "sound (NewWithGlobalParallelism g) []"
  using alloc_ok_new [of g]
  by (simp add: sound_def plan_fresh_def polls_ok_def binding_of_def poolOf_def NewWithGlobalParallelism_def)

lemma reachable_sound: "reachable g a polls \<Longrightarrow> sound a polls"
  by (induction rule: reachable.induct) (simp_all add: sound_new sound_ops CompletePoll_sound)

section \<open>The provider\<close>

text \<open>
  The provider is outside the program.  What the allocator relies on is its
  documented behaviour: a session starts at zero capacity and its capacity is
  whatever the last announcement that reached it said; an announcement may take
  effect at any moment while its poll is in flight; a poll that succeeds was
  accepted; a confirmed close returns the capacity to zero; the provider may drop
  a session on its own.  The last argument is the capacity in force per binding.
\<close>

definition settles :: "allocator \<Rightarrow> poll \<Rightarrow> bool"
  where "settles a p \<longleftrightarrow> (case binding_of a (pl_key p) of None \<Rightarrow> False
    | Some b \<Rightarrow> (case b_pending b of None \<Rightarrow> False | Some pending \<Rightarrow> pp_id pending = pl_id p))"

inductive served :: "int \<Rightarrow> allocator \<Rightarrow> poll list \<Rightarrow> (binding_key \<Rightarrow> int) \<Rightarrow> bool"
  for g :: int
  where
    new: "served g (NewWithGlobalParallelism g) [] (\<lambda>_. 0)"
  | local: "served g a polls force \<Longrightarrow> local_op a a' \<Longrightarrow> served g a' polls force"
  | arrives: "served g a polls force \<Longrightarrow> binding_of a key = Some b \<Longrightarrow> b_pending b = Some pending \<Longrightarrow>
      served g a polls (force(key := pp_capacity pending))"
  | drops: "served g a polls force \<Longrightarrow> served g a polls (force(key := 0))"
  | opened: "served g a polls force \<Longrightarrow> served g (SessionOpened key a) polls (force(key := 0))"
  | closed: "served g a polls force \<Longrightarrow> served g (SessionClosed key True a) polls (force(key := 0))"
  | uncertain: "served g a polls force \<Longrightarrow> served g (SessionClosed key False a) polls force"
  | poll: "served g a polls force \<Longrightarrow> length polls < 2 ^ 64 - 1 \<Longrightarrow>
      served g (snd (BeginPoll key a)) (fst (BeginPoll key a) # polls) force"
  | accepted: "served g a polls force \<Longrightarrow> p \<in> set polls \<Longrightarrow> settles a p \<Longrightarrow>
      served g (CompletePoll p True e a) polls (force(pl_key p := pl_capacity p))"
  | failed: "served g a polls force \<Longrightarrow> p \<in> set polls \<Longrightarrow> served g (CompletePoll p False e a) polls force"
  | stale: "served g a polls force \<Longrightarrow> p \<in> set polls \<Longrightarrow> \<not> settles a p \<Longrightarrow>
      served g (CompletePoll p True e a) polls force"

lemma served_reachable: "served g a polls force \<Longrightarrow> reachable g a polls"
  by (induction rule: served.induct) (auto intro: reachable.intros)

text \<open>What may be in force is what the allocator has reserved.\<close>

definition covered :: "allocator \<Rightarrow> (binding_key \<Rightarrow> int) \<Rightarrow> bool"
  where "covered a force \<longleftrightarrow> (\<forall>k. force k \<le> (case binding_of a k of None \<Rightarrow> 0 | Some b \<Rightarrow> effectivePublished b))"

lemma covered_keep:
  assumes "covered a force"
    "\<And>k b. binding_of a k = Some b \<Longrightarrow> \<exists>b'. binding_of a' k = Some b' \<and> effectivePublished b \<le> effectivePublished b'"
    "\<And>k b'. binding_of a k = None \<Longrightarrow> binding_of a' k = Some b' \<Longrightarrow> 0 \<le> effectivePublished b'"
  shows "covered a' force"
  unfolding covered_def
proof
  fix k
  have "force k \<le> (case binding_of a k of None \<Rightarrow> 0 | Some b \<Rightarrow> effectivePublished b)"
    using assms(1) unfolding covered_def by blast
  then show "force k \<le> (case binding_of a' k of None \<Rightarrow> 0 | Some b \<Rightarrow> effectivePublished b)"
    using assms(2,3) [of k] by (cases "binding_of a k"; cases "binding_of a' k") fastforce+
qed

definition reserves_same :: "allocator \<Rightarrow> allocator \<Rightarrow> bool"
  where "reserves_same a a' \<longleftrightarrow> (\<forall>k. (case binding_of a k of
      Some b \<Rightarrow> \<exists>b'. binding_of a' k = Some b' \<and> effectivePublished b' = effectivePublished b
    | None \<Rightarrow> (case binding_of a' k of None \<Rightarrow> True | Some b' \<Rightarrow> effectivePublished b' = 0)))"

lemma reserves_same_map:
  assumes "\<And>k. binding_of a' k = map_option (f k) (binding_of a k)" "\<And>k b. effectivePublished (f k b) = effectivePublished b"
  shows "reserves_same a a'"
  using assms by (auto simp: reserves_same_def split: option.splits)

lemma reserves_same_at:
  assumes "\<And>k. binding_of a' k = (if k = key then map_option f (binding_of a key) else binding_of a k)"
    "\<And>b. effectivePublished (f b) = effectivePublished b"
  shows "reserves_same a a'"
  by (rule reserves_same_map [where f = "\<lambda>k b. if k = key then f b else b"]) (use assms in \<open>auto simp: option.map_ident\<close>)

lemma reserves_same_eq: "(\<And>k. binding_of a' k = binding_of a k) \<Longrightarrow> reserves_same a a'"
  by (auto simp: reserves_same_def split: option.splits)

lemma reserves_same_register:
  assumes "pools_wf a" "a_tierOf a key = None"
  shows "reserves_same a (snd (Register t key n a))"
proof -
  obtain a1 p where a1: "a1 = a \<or> (map_of (a_pools a) t = None \<and> a1 = a\<lparr>a_pools := AList.update t (newPool n) (a_pools a)\<rparr>)"
    and p: "map_of (a_pools a1) t = Some p" and out: "snd (Register t key n a) = a1 \<or>
       snd (Register t key n a) = invalidatePlan (join t key p a1)"
    using Register_eq [of a t n key] by blast
  have same: "binding_of a1 k = binding_of a k" for k
    using a1 by (auto simp: binding_of_def poolOf_def tierKey_def update_conv' newPool_def split: option.splits if_splits)
  have unbound: "binding_of a key = None"
    using binding_home [OF assms(1)] assms(2) by (metis option.distinct(1) option.exhaust)
  have "binding_of (join t key p a1) k = (if k = key then Some (newBinding (a_held a1)) else binding_of a k)" for k
    using a1 p unfolding same [symmetric]
    by (auto simp: join_def join_pool_def binding_of_def poolOf_def tierKey_def update_conv' split: option.splits)
  then have "reserves_same a (invalidatePlan (join t key p a1))"
    using unbound by (auto simp: reserves_same_def newBinding_facts split: option.splits)
  moreover have "reserves_same a a1" by (rule reserves_same_eq) (rule same)
  ultimately show ?thesis using out by metis
qed

lemma local_op_reserves:
  assumes "local_op a a'" "pools_wf a"
  shows "reserves_same a a'"
  using assms
proof (induction rule: local_op.induct)
  case (register a key n t)
  then show ?case by (intro reserves_same_register)
next
  case (demand a key d)
  have "reserves_same a a'" if "\<And>k. binding_of a' k = binding_of (on_binding key (\<lambda>b. b\<lparr>b_assignedDemand := x\<rparr>) a) k" for a' x
    by (rule reserves_same_at [of _ key "\<lambda>b. b\<lparr>b_assignedDemand := x\<rparr>"]) (simp_all add: that binding_of_on_binding)
  then show ?case by (simp add: SetAssignedDemand_def Let_def reserves_same_eq split: option.splits)
next
  case (hold a h)
  then show ?case
    by (cases "a_held a = h")
      (auto simp: binding_of_Hold intro: reserves_same_eq reserves_same_map [of _ "\<lambda>_ b. b\<lparr>b_held := h\<rparr>"])
next
  case (reserve a key)
  have "reserves_same a (advanceDiscoveryFrom key (invalidatePlan (add_active 1 key a)))"
    by (rule reserves_same_at [of _ key "\<lambda>b. b\<lparr>b_active := b_active b + 1\<rparr>"]) simp_all
  then show ?case by (cases rule: TryReserve_cases [of key a]) (simp_all add: reserves_same_eq)
next
  case (adopt a key)
  have "reserves_same a (advanceDiscoveryFrom key (invalidatePlan (add_active 1 key a)))"
    by (rule reserves_same_at [of _ key "\<lambda>b. b\<lparr>b_active := b_active b + 1\<rparr>"]) simp_all
  then show ?case by (simp add: Adopt_eq reserves_same_eq split: option.splits)
next
  case (release a key)
  have "reserves_same a (invalidatePlan (add_active (- 1) key a))"
    by (rule reserves_same_at [of _ key "\<lambda>b. b\<lparr>b_active := b_active b + - 1\<rparr>"]) simp_all
  then show ?case by (simp add: Release_eq reserves_same_eq split: option.splits)
qed (simp_all add: reserves_same_eq)

lemma covered_same: "covered a force \<Longrightarrow> reserves_same a a' \<Longrightarrow> covered a' force"
  by (erule covered_keep) (fastforce simp: reserves_same_def split: option.splits)+

lemma covered_zero:
  assumes "covered a force" "\<And>b. binding_of a key = Some b \<Longrightarrow> 0 \<le> effectivePublished b"
  shows "covered a (force(key := 0))"
  using assms by (auto simp: covered_def split: option.splits)

lemma covered_at:
  assumes "covered a force" "\<And>k. k \<noteq> key \<Longrightarrow> binding_of a' k = binding_of a k" "binding_of a' key = Some b"
    "v \<le> effectivePublished b"
  shows "covered a' (force(key := v))"
  using assms by (auto simp: covered_def)

lemma served_covered: "served g a polls force \<Longrightarrow> covered a force"
proof (induction rule: served.induct)
  case new
  then show ?case by (simp add: covered_def binding_of_def poolOf_def NewWithGlobalParallelism_def)
next
  case (local a polls force a')
  then show ?case
    using covered_same local_op_reserves reachable_sound [OF served_reachable] alloc_okD(1) by (metis sound_def)
next
  case (arrives a polls force key b pending)
  then show ?case by (intro covered_at [of a]) (auto simp: effectivePublished_def)
next
  case (drops a polls force key)
  then have "alloc_ok a" using reachable_sound [OF served_reachable] by (simp add: sound_def)
  then show ?case using drops binding_ok_of effectivePublished_nonneg by (intro covered_zero) blast+
next
  case (opened a polls force key)
  show ?case
  proof (cases "binding_of a key")
    case None
    then show ?thesis using covered_zero [OF opened.IH, of key] by (simp add: SessionOpened_def fun_upd_def)
  next
    case (Some b)
    then show ?thesis
      by (intro covered_at [OF opened.IH, where b = "b\<lparr>b_published := 0, b_pending := None, b_remoteKnown := True\<rparr>"])
        (simp_all add: SessionOpened_def effectivePublished_def)
  qed
next
  case (closed a polls force key)
  show ?case
  proof (cases "binding_of a key")
    case None
    then show ?thesis using covered_zero [OF closed.IH, of key] by (simp add: SessionClosed_def fun_upd_def)
  next
    case (Some b)
    then show ?thesis
      by (intro covered_at [OF closed.IH, where b = "(closeSession True b)\<lparr>b_remoteKnown := True\<rparr>"])
        (simp_all add: SessionClosed_def closeSession_fields)
  qed
next
  case (uncertain a polls force key)
  then show ?case
    by (rule_tac covered_keep) (auto simp: SessionClosed_def closeSession_fields split: option.splits if_splits)
next
  case (poll a polls force key)
  show ?case
  proof (cases rule: BeginPoll_cases [of key a])
    case refused
    then show ?thesis using poll by simp
  next
    case (issued b pl capacity discovery generation desired)
    show ?thesis
      by (intro covered_keep [OF poll.IH])
        (use issued(1,2) in \<open>auto simp: issued(6) binding_of_on_binding effectivePublished_def split: if_splits\<close>)
  qed
next
  case (accepted a polls force p e)
  then obtain b pending where b: "binding_of a (pl_key p) = Some b" "b_pending b = Some pending" "pp_id pending = pl_id p"
    by (auto simp: settles_def split: option.splits)
  show ?case
    by (rule covered_at [OF accepted.IH, where b = "settlePoll p True b"])
      (use b in \<open>simp_all add: CompletePoll_def Let_def settlePoll_def effectivePublished_def\<close>)
next
  case (failed a polls force p e)
  then have "polls_ok a polls" using reachable_sound [OF served_reachable] by (simp add: sound_def)
  then have le: "pp_capacity pending \<le> pl_capacity p"
    if "binding_of a (pl_key p) = Some b" "b_pending b = Some pending" "pp_id pending = pl_id p" for b pending
    using that failed(2) by (fastforce simp: polls_ok_def poll_ok_def)
  show ?case
  proof (cases "settles a p")
    case True
    then obtain b pending where b: "binding_of a (pl_key p) = Some b" "b_pending b = Some pending" "pp_id pending = pl_id p"
      by (auto simp: settles_def split: option.splits)
    show ?thesis
      by (intro covered_keep [OF failed.IH])
        (use b le [OF b] in \<open>auto simp: CompletePoll_def Let_def settlePoll_def effectivePublished_def split: if_splits\<close>)
  next
    case False
    then have "CompletePoll p False e a = a" by (auto simp: CompletePoll_def settles_def split: option.splits)
    with failed show ?thesis by simp
  qed
next
  case (stale a polls force p e)
  then have "CompletePoll p True e a = a" by (auto simp: CompletePoll_def settles_def split: option.splits)
  with stale show ?case by simp
qed

end
