(* ===== verification/AllocatorProps.thy ===== *)
theory AllocatorProps
  imports AllocatorReach
begin

text \<open>
  The properties of the allocator: remote capacity, admission, plans, water
  filling, the discovery credit and the reports, each over the reachable states.
\<close>

section \<open>Shared facts\<close>

lemma global_kept_local: "local_op a a' \<Longrightarrow> a_globalParallelism a' = a_globalParallelism a"
proof (induction rule: local_op.induct)
  have advance: "a_globalParallelism (advanceDiscoveryFrom key a) = a_globalParallelism a" for key a
    by (simp add: advanceDiscoveryFrom_def Let_def invalidatePlan_def split: option.splits)
  have drop: "a_globalParallelism (invalidatePlan a) = a_globalParallelism a" for a by (simp add: invalidatePlan_def)
  have bump: "a_globalParallelism (add_active d key a) = a_globalParallelism a" for d key a by (simp add: add_active_def)
  have locked: "a_globalParallelism (snd (planLocked a)) = a_globalParallelism a" for a
    by (simp add: planLocked_def Let_def split: option.splits)
  note facts = advance drop bump locked
  {
    case (register a key n t)
    then show ?case by (auto simp: Register_def Let_def facts split: option.splits)
  next
    case (demand a key d)
    then show ?case by (simp add: SetAssignedDemand_def Let_def facts split: option.splits)
  next
    case (hold a h)
    have "a_globalParallelism (fold thawTier ts a) = a_globalParallelism a" for ts a
      by (induction ts arbitrary: a) (simp_all add: thawTier_def facts split: option.splits)
    then show ?case by (simp add: Hold_def Let_def facts)
  next
    case (reserve a key)
    then show ?case by (cases rule: TryReserve_cases [of key a]) (simp_all add: facts)
  next
    case (adopt a key)
    then show ?case by (simp add: Adopt_eq facts split: option.splits)
  next
    case (release a key)
    then show ?case by (simp add: Release_eq facts split: option.splits)
  next
    case (plan a)
    then show ?case by (simp add: Plan_def facts split: option.splits)
  next
    case (pool_report a t)
    then show ?case by (simp add: PoolReport_def Let_def split_def facts split: option.splits)
  next
    case (capacity_report a)
    then show ?case by (simp add: CapacityReport_def Let_def split_def facts)
  }
qed

lemma global_kept_remote:
  "a_globalParallelism (changeRemoteCapacity key change a) = a_globalParallelism a"
  "a_globalParallelism (setRemoteKnown key known a) = a_globalParallelism a"
  "a_globalParallelism (rotateDiscovery poll a) = a_globalParallelism a"
  by (simp_all add: changeRemoteCapacity_def setRemoteKnown_def rotateDiscovery_def Let_def invalidatePlan_def split: option.splits)

lemma reachable_global: "reachable g a polls \<Longrightarrow> a_globalParallelism a = g"
proof (induction rule: reachable.induct)
  case (poll a polls key)
  then show ?case by (cases rule: BeginPoll_cases [of key a]) (simp_all add: global_kept_remote)
qed (simp_all add: NewWithGlobalParallelism_def global_kept_local SessionOpened_def SessionClosed_def CompletePoll_def
    Let_def global_kept_remote split: option.splits)

lemma reachable_ok:
  assumes "reachable g a polls"
  shows "alloc_ok a" "pools_wf a" "plan_fresh a" "polls_ok a polls" "a_globalParallelism a = g"
  using reachable_sound [OF assms] reachable_global [OF assms] alloc_okD(1) by (auto simp: sound_def)

lemma order_sum:
  fixes f :: "binding_key \<Rightarrow> int"
  assumes "pools_wf a"
  shows "sum_list (map f (a_order a)) = sum_list (map (\<lambda>(t, p). sum_list (map f (p_order p))) (a_pools a))"
proof -
  have "set (a_order a) = (\<Union>x \<in> set (a_pools a). set (p_order (snd x)))"
  proof -
    have "k \<in> (\<Union>x \<in> set (a_pools a). set (p_order (snd x)))" if "k \<in> set (a_order a)" for k
      using key_pool [OF assms that] by (metis UN_I snd_conv)
    moreover have "k \<in> set (a_order a)" if "(t, p) \<in> set (a_pools a)" "k \<in> set (p_order p)" for t p k
      using pool_wfD(3) [OF pools_wfD(2) [OF assms that(1)] that(2)] pools_wfD(6) [OF assms] by blast
    ultimately show ?thesis by fastforce
  qed
  moreover have "sum f (\<Union>x \<in> set (a_pools a). set (p_order (snd x))) = sum (\<lambda>x. sum f (set (p_order (snd x)))) (set (a_pools a))"
    using tiers_disjoint [OF assms] by (intro sum.UNION_disjoint) fastforce+
  moreover have "distinct (a_pools a)" using pools_wfD(1) [OF assms] by (simp add: distinct_map)
  moreover have "sum f (set (p_order p)) = sum_list (map f (p_order p))" if "(t, p) \<in> set (a_pools a)" for t p
    using pool_wfD(1) [OF pools_wfD(2) [OF assms that]] by (simp add: sum_list_distinct_conv_sum_set)
  ultimately show ?thesis
    using pools_wfD(5) [OF assms] by (auto simp: sum_list_distinct_conv_sum_set split_def intro!: sum.cong)
qed

section \<open>A running example\<close>

text \<open>Two bindings of a tier with two credits, under an instance limit of one.\<close>

definition demo_registered :: "int \<Rightarrow> allocator"
  where "demo_registered g =
    snd (Register ''std'' ''b'' 2 (snd (Register ''std'' ''a'' 2 (NewWithGlobalParallelism g))))"

definition demo :: "int \<Rightarrow> allocator"
  where "demo g = SetAssignedDemand ''a'' 3 (SessionOpened ''b'' (SessionOpened ''a'' (demo_registered g)))"

lemma demo_registered_reachable: "reachable g (demo_registered g) []"
proof -
  let ?a = "snd (Register ''std'' ''a'' 2 (NewWithGlobalParallelism g))"
  have "reachable g ?a []"
    by (rule reachable.local [OF reachable.new local_op.register]) (simp_all add: NewWithGlobalParallelism_def)
  moreover have "a_tierOf ?a ''b'' = None"
    by (simp add: Register_def NewWithGlobalParallelism_def newPool_def Let_def invalidatePlan_def)
  ultimately show ?thesis
    unfolding demo_registered_def by (rule reachable.local [OF _ local_op.register]) simp_all
qed

lemma demo_reachable: "reachable g (demo g) []"
  unfolding demo_def
  by (rule reachable.local [OF _ local_op.demand]) (intro reachable.opened demo_registered_reachable)

lemma demo_served: "served g (demo g) [] (\<lambda>_. 0)"
proof -
  let ?a = "snd (Register ''std'' ''a'' 2 (NewWithGlobalParallelism g))"
  have a: "served g ?a [] (\<lambda>_. 0)"
    by (rule served.local [OF served.new local_op.register]) (simp_all add: NewWithGlobalParallelism_def)
  have "a_tierOf ?a ''b'' = None"
    by (simp add: Register_def NewWithGlobalParallelism_def newPool_def Let_def invalidatePlan_def)
  then have "served g (demo_registered g) [] (\<lambda>_. 0)"
    unfolding demo_registered_def by (intro served.local [OF a local_op.register]) auto
  from served.opened [OF this, of "''a''"]
  have "served g (SessionOpened ''a'' (demo_registered g)) [] (\<lambda>_. 0)" by (simp add: fun_upd_def)
  from served.opened [OF this, of "''b''"]
  have "served g (SessionOpened ''b'' (SessionOpened ''a'' (demo_registered g))) [] (\<lambda>_. 0)" by (simp add: fun_upd_def)
  then show ?thesis unfolding demo_def by (rule served.local [OF _ local_op.demand])
qed

lemmas demo_eval = demo_def demo_registered_def Register_def NewWithGlobalParallelism_def newPool_def newBinding_def
  Let_def invalidatePlan_def SessionOpened_def SetAssignedDemand_def changeRemoteCapacity_def setRemoteKnown_def
  on_pool_def on_binding_def binding_of_def poolOf_def tierKey_def effectivePublished_def advanceDiscoveryFrom_def
  still_def silent_def nextDiscovery_def eval_nat_numeral

lemma demo_pool: "map_of (a_pools (demo g)) ''std'' = Some (the (map_of (a_pools (demo g)) ''std''))"
  by (simp add: demo_eval)

section \<open>Capacity in force at the provider\<close>



text \<open>C13. In every reachable state the books balance: a tier's active, remote and unknown counters are the sums over
  its bindings of what each runs, of what each may have in force remotely and of the sessions not yet accounted
  for; the instance counters are the sums over the tiers; every binding carries the instance's hold.\<close>

theorem books_balance:
  assumes "reachable g a polls" "map_of (a_pools a) t = Some p" "p_state p k = Some b"
  shows "p_active p = psum b_active p \<and> p_remote p = psum effectivePublished p \<and>
    p_unknown p = int (length (filter (\<lambda>k. \<not> b_remoteKnown (the (p_state p k))) (p_order p))) \<and>
    a_activeCount a = sum_list (map (\<lambda>(t, p). p_active p) (a_pools a)) \<and>
    a_remoteCapacity a = sum_list (map (\<lambda>(t, p). p_remote p) (a_pools a)) \<and>
    a_unknownSessions a = sum_list (map (\<lambda>(t, p). p_unknown p) (a_pools a)) \<and>
    b_held b = a_held a \<and> 0 \<le> b_active b \<and> 0 \<le> effectivePublished b \<and> a_tierOf a k = Some t"
proof -
  note r = reachable_ok [OF assms(1)]
  note tp = map_of_SomeD [OF assms(2)]
  note wf = pools_wfD(2) [OF r(2) tp] and ok = alloc_okD(2) [OF r(1) tp]
  have k: "k \<in> set (p_order p)" using pool_wfD(2) [OF wf] assms(3) by blast
  have "binding_ok (a_held a) b" using ok k assms(3) by (auto simp: pool_ok_def)
  moreover have "sum_list (map (\<lambda>k. unknown_one (the (p_state p k))) ks) =
      int (length (filter (\<lambda>k. \<not> b_remoteKnown (the (p_state p k))) ks))" for ks
    by (induction ks) (auto simp: unknown_one_def)
  ultimately show ?thesis
    using ok pool_wfD(3) [OF wf k] pool_wfD(7) [OF wf] pools_wfD(8) [OF r(2)] alloc_okD(3,4) [OF r(1)]
      effectivePublished_nonneg
    by (auto simp: pool_ok_def binding_ok_def psum_def)
qed

theorem books_balance_witness:
  "p_active (the (map_of (a_pools (demo 1)) ''std'')) = psum b_active (the (map_of (a_pools (demo 1)) ''std'')) \<and>
   reachable 1 (demo 1) [] \<and> p_state (the (map_of (a_pools (demo 1)) ''std'')) ''a'' \<noteq> None"
proof -
  have "p_state (the (map_of (a_pools (demo 1)) ''std'')) ''a'' \<noteq> None" by (simp add: demo_eval)
  then obtain b where b: "p_state (the (map_of (a_pools (demo 1)) ''std'')) ''a'' = Some b" by blast
  show ?thesis using books_balance [OF demo_reachable demo_pool b] demo_reachable b by simp
qed

section \<open>Admission\<close>

lemma poolOf_on_pool_any:
  "poolOf (on_pool key f a) k = (if tierKey a k = tierKey a key then map_option f (poolOf a key) else poolOf a k)"
  by (cases "poolOf a key") (auto simp: on_pool_def poolOf_def tierKey_def update_conv')

text \<open>The part of the state ReservableCapacity reads.\<close>

definition reservable :: "int \<Rightarrow> int \<Rightarrow> pool option \<Rightarrow> binding_key \<Rightarrow> int"
  where "reservable limit running pool key = (case pool of None \<Rightarrow> 0 | Some p \<Rightarrow> (case p_state p key of None \<Rightarrow> 0
    | Some b \<Rightarrow> if b_held b then 0 else max 0 (min (p_parallelism p - p_active p)
        (if limit > 0 then limit - running else p_parallelism p - p_active p))))"

lemma ReservableCapacity_eq:
  "ReservableCapacity a key = reservable (a_globalParallelism a) (a_activeCount a) (poolOf a key) key"
  by (simp add: ReservableCapacity_def reservable_def Let_def split: option.splits)

lemma reservable_ring:
  "reservable l c (map_option (\<lambda>p. p\<lparr>p_discovery := n, p_discoveryGeneration := p_discoveryGeneration p + 1\<rparr>) po) k =
    reservable l c po k"
  by (simp add: reservable_def split: option.splits)

lemma ReservableCapacity_invalidate [simp]: "ReservableCapacity (invalidatePlan a) k = ReservableCapacity a k"
  by (simp add: ReservableCapacity_eq invalidatePlan_def poolOf_def tierKey_def)

lemma ReservableCapacity_ring:
  "ReservableCapacity (on_pool key (\<lambda>p. p\<lparr>p_discovery := n, p_discoveryGeneration := p_discoveryGeneration p + 1\<rparr>) a) k =
    ReservableCapacity a k"
proof (cases "tierKey a k = tierKey a key")
  case True
  then have "poolOf a k = poolOf a key" by (simp add: poolOf_def)
  with True show ?thesis by (simp add: ReservableCapacity_eq poolOf_on_pool_any reservable_ring)
qed (simp add: ReservableCapacity_eq poolOf_on_pool_any)

lemma ReservableCapacity_global:
  "ReservableCapacity (a\<lparr>a_discovery := n, a_discoveryGeneration := g\<rparr>) k = ReservableCapacity a k"
  by (simp add: ReservableCapacity_eq poolOf_def tierKey_def)

lemma ReservableCapacity_advance [simp]: "ReservableCapacity (advanceDiscoveryFrom key a) k = ReservableCapacity a k"
  unfolding advanceDiscoveryFrom_def Let_def
  by (auto simp: ReservableCapacity_ring ReservableCapacity_global split: option.splits)

lemma ReservableCapacity_Some:
  assumes "poolOf a key = Some p" "p_state p key = Some b"
  shows "ReservableCapacity a key = (if b_held b then 0 else max 0
    (min (p_parallelism p - p_active p)
      (if a_globalParallelism a > 0 then a_globalParallelism a - a_activeCount a else p_parallelism p - p_active p)))"
  using assms by (simp add: ReservableCapacity_def Let_def)

lemma ReservableCapacity_reserved:
  assumes "poolOf a key = Some p" "p_state p key = Some b" "0 < ReservableCapacity a key"
  shows "ReservableCapacity (add_active 1 key a) key = ReservableCapacity a key - 1"
proof -
  let ?p = "p\<lparr>p_state := (p_state p)(key \<mapsto> b\<lparr>b_active := b_active b + 1\<rparr>), p_active := p_active p + 1\<rparr>"
  have "poolOf (add_active 1 key a) key = Some ?p"
    by (simp add: add_active_def on_pool_on_binding [OF assms(1,2)] poolOf_def update_conv')
  moreover have "a_globalParallelism (add_active 1 key a) = a_globalParallelism a"
    "a_activeCount (add_active 1 key a) = a_activeCount a + 1" by (simp_all add: add_active_def)
  ultimately show ?thesis
    using assms(3) ReservableCapacity_Some [OF assms(1,2)] ReservableCapacity_Some [of "add_active 1 key a" key ?p]
    by (auto simp: min_def max_def split: if_splits)
qed

lemma TryReserve_iff: "fst (TryReserve key a) \<longleftrightarrow> 0 < ReservableCapacity a key"
  by (auto simp: TryReserve_def ReservableCapacity_def Let_def split: option.splits)

lemma TryReserve_effect:
  assumes "fst (TryReserve key a)"
  shows "ReservableCapacity (snd (TryReserve key a)) key = ReservableCapacity a key - 1"
    "binding_of (snd (TryReserve key a)) k =
      (if k = key then map_option (\<lambda>b. b\<lparr>b_active := b_active b + 1\<rparr>) (binding_of a key) else binding_of a k)"
proof -
  have "ReservableCapacity (snd (TryReserve key a)) key = ReservableCapacity a key - 1 \<and>
    binding_of (snd (TryReserve key a)) k =
      (if k = key then map_option (\<lambda>b. b\<lparr>b_active := b_active b + 1\<rparr>) (binding_of a key) else binding_of a k)"
  proof (cases rule: TryReserve_cases [of key a])
    case refused
    then show ?thesis using assms by simp
  next
    case (reserved p b)
    then show ?thesis
      using ReservableCapacity_reserved [OF reserved(1,2)] assms TryReserve_iff [of key a] by simp
  qed
  then show "ReservableCapacity (snd (TryReserve key a)) key = ReservableCapacity a key - 1"
    "binding_of (snd (TryReserve key a)) k =
      (if k = key then map_option (\<lambda>b. b\<lparr>b_active := b_active b + 1\<rparr>) (binding_of a key) else binding_of a k)" by auto
qed

text \<open>A caller that claims one credit after another, as the scheduler does.\<close>

fun reserve_many :: "nat \<Rightarrow> binding_key \<Rightarrow> allocator \<Rightarrow> bool \<times> allocator"
  where
    "reserve_many 0 key a = (True, a)"
  | "reserve_many (Suc n) key a =
      (let (ok, a') = TryReserve key a in if ok then reserve_many n key a' else (False, a'))"

text \<open>C15. ReservableCapacity is exact: with no other caller in between, exactly that many successive TryReserve calls
  succeed, and each success charges one running capsule to the binding and to no other.\<close>

theorem reservable_capacity_is_exact:
  assumes "0 \<le> ReservableCapacity a key"
  shows "fst (reserve_many n key a) = (int n \<le> ReservableCapacity a key) \<and>
    (int n \<le> ReservableCapacity a key \<longrightarrow>
      Active (snd (reserve_many n key a)) k = Active a k + (if k = key then int n else 0))"
  using assms
proof (induction n arbitrary: a)
  case (Suc n)
  obtain ok a' where tr: "TryReserve key a = (ok, a')" by fastforce
  show ?case
  proof (cases ok)
    case False
    then show ?thesis using tr TryReserve_iff [of key a] Suc.prems by simp
  next
    case True
    have bound: "binding_of a key \<noteq> None"
      using True tr TryReserve_iff [of key a] by (auto simp: ReservableCapacity_def binding_of_def split: option.splits)
    have eff: "ReservableCapacity a' key = ReservableCapacity a key - 1"
      "Active a' k = Active a k + (if k = key then 1 else 0)"
      using TryReserve_effect [of key a] True tr bound by (auto simp: Active_def split: option.splits)
    then show ?thesis
      using Suc.IH [of a'] True tr TryReserve_iff [of key a] by auto
  qed
qed simp

theorem reservable_capacity_is_exact_witness:
  "0 \<le> ReservableCapacity (demo 0) ''a'' \<and>
   fst (reserve_many 2 ''a'' (demo 0)) = (int 2 \<le> ReservableCapacity (demo 0) ''a'')"
  using reservable_capacity_is_exact [of "demo 0" "''a''" 2 "''a''"] by (simp add: ReservableCapacity_def Let_def split: option.splits)

lemma advance_counts:
  "a_activeCount (advanceDiscoveryFrom key a) = a_activeCount a"
  "a_globalParallelism (advanceDiscoveryFrom key a) = a_globalParallelism a"
  "p_active (the (poolOf (advanceDiscoveryFrom key a) k)) = p_active (the (poolOf a k))"
  "p_parallelism (the (poolOf (advanceDiscoveryFrom key a) k)) = p_parallelism (the (poolOf a k))"
proof -
  have ring: "the (poolOf (on_pool key (\<lambda>p. p\<lparr>p_discovery := n, p_discoveryGeneration := p_discoveryGeneration p + 1\<rparr>) a) k) =
      (if tierKey a k = tierKey a key \<and> poolOf a key \<noteq> None then (the (poolOf a k))\<lparr>p_discovery := n,
        p_discoveryGeneration := p_discoveryGeneration (the (poolOf a k)) + 1\<rparr> else the (poolOf a k))" for n
    by (auto simp: poolOf_on_pool_any) (auto simp: poolOf_def)
  have glob: "poolOf (a\<lparr>a_discovery := n, a_discoveryGeneration := g\<rparr>) k = poolOf a k" for n g
    by (simp add: poolOf_def tierKey_def)
  show "a_activeCount (advanceDiscoveryFrom key a) = a_activeCount a"
    "a_globalParallelism (advanceDiscoveryFrom key a) = a_globalParallelism a"
    by (simp_all add: advanceDiscoveryFrom_def Let_def invalidatePlan_def split: option.splits)
  show "p_active (the (poolOf (advanceDiscoveryFrom key a) k)) = p_active (the (poolOf a k))"
    "p_parallelism (the (poolOf (advanceDiscoveryFrom key a) k)) = p_parallelism (the (poolOf a k))"
    unfolding advanceDiscoveryFrom_def Let_def by (auto simp: ring glob split: option.splits)
qed

lemma invalidatePlan_counts [simp]:
  "a_activeCount (invalidatePlan a) = a_activeCount a" "a_globalParallelism (invalidatePlan a) = a_globalParallelism a"
  by (simp_all add: invalidatePlan_def)

lemma add_active_counts:
  assumes "poolOf a key = Some p" "p_state p key = Some b"
  shows "p_active (the (poolOf (add_active d key a) key)) = p_active p + d"
    "p_parallelism (the (poolOf (add_active d key a) key)) = p_parallelism p"
    "a_activeCount (add_active d key a) = a_activeCount a + d"
    "a_globalParallelism (add_active d key a) = a_globalParallelism a"
  by (simp_all add: add_active_def on_pool_on_binding [OF assms] poolOf_def update_conv')

text \<open>C16. The physical gate: a successful TryReserve never takes a tier past its parallelism nor the instance past its
  limit, and a held binding is never admitted.  Adopt never refuses and reports exactly when the books it leaves
  exceed one of the two limits.\<close>

theorem admission_respects_limits:
  assumes "reachable g a polls" "binding_of a key = Some b"
  shows "(fst (TryReserve key a) \<longrightarrow> \<not> a_held a \<and>
      (let a' = snd (TryReserve key a); p' = the (poolOf a' key) in
       p_active p' \<le> p_parallelism p' \<and> (g > 0 \<longrightarrow> a_activeCount a' \<le> g))) \<and>
    (fst (Adopt key a) = (let a' = snd (Adopt key a); p' = the (poolOf a' key) in
       p_active p' > p_parallelism p' \<or> (g > 0 \<and> a_activeCount a' > g))) \<and>
    Active (snd (Adopt key a)) key = Active a key + 1"
proof -
  note r = reachable_ok [OF assms(1)]
  obtain p where p: "poolOf a key = Some p" "p_state p key = Some b" using binding_home [OF r(2) assms(2)] by metis
  define a' where "a' = advanceDiscoveryFrom key (invalidatePlan (add_active 1 key a))"
  have held: "b_held b = a_held a" using binding_ok_of [OF r(1) assms(2)] by (simp add: binding_ok_def)
  have pool: "p_active (the (poolOf a' key)) = p_active p + 1" "p_parallelism (the (poolOf a' key)) = p_parallelism p"
    "a_activeCount a' = a_activeCount a + 1" "a_globalParallelism a' = g"
    unfolding a'_def by (simp_all add: advance_counts add_active_counts [OF p] r(5))
  have adopt: "snd (Adopt key a) = a'" using assms(2) by (simp add: Adopt_eq a'_def)
  have over: "fst (Adopt key a) = (p_active (the (poolOf a' key)) > p_parallelism (the (poolOf a' key)) \<or>
      (g > 0 \<and> a_activeCount a' > g))"
    using assms(2) pool(4) by (simp add: Adopt_def Let_def a'_def add_active_def)
  have act: "Active a' key = Active a key + 1" using assms(2) by (simp add: Active_def a'_def)
  have "fst (TryReserve key a) \<longrightarrow> \<not> a_held a \<and> snd (TryReserve key a) = a' \<and>
      p_active p < p_parallelism p \<and> (g > 0 \<longrightarrow> a_activeCount a < g)"
    by (cases rule: TryReserve_cases [of key a]) (use p held r(5) in \<open>auto simp: a'_def\<close>)
  then show ?thesis using pool act over by (simp add: adopt Let_def) auto
qed

theorem admission_respects_limits_witness:
  "reachable 1 (demo 1) [] \<and> fst (TryReserve ''a'' (demo 1)) \<and>
   a_activeCount (snd (TryReserve ''a'' (demo 1))) \<le> 1 \<and> \<not> a_held (demo 1)"
proof -
  have b: "binding_of (demo 1) ''a'' = Some (the (binding_of (demo 1) ''a''))" by (simp add: demo_eval)
  have "fst (TryReserve ''a'' (demo 1))" by (simp add: TryReserve_iff ReservableCapacity_def) (simp add: demo_eval)
  then show ?thesis using admission_respects_limits [OF demo_reachable b] demo_reachable by (simp add: Let_def)
qed

section \<open>Plans\<close>

lemma Plan_current: "plan_fresh a \<Longrightarrow> fst (Plan a) = buildPlan a"
  using planLocked_plan [of a] by (auto simp: Plan_def plan_fresh_def split: option.splits)

text \<open>C17. The plan cache is coherent: in every reachable state the plan a reader obtains, cached or not, is the plan
  that a rebuild from the current state would produce.\<close>

theorem plan_cache_coherent:
  assumes "reachable g a polls"
  shows "fst (Plan a) = buildPlan a \<and> fst (planLocked a) = buildPlan a"
  using Plan_current planLocked_plan reachable_ok(3) [OF assms] by blast

theorem plan_cache_coherent_witness:
  "a_plan (SessionClosed ''b'' True (snd (Plan (demo 1)))) \<noteq> None \<and>
   fst (Plan (SessionClosed ''b'' True (snd (Plan (demo 1))))) = buildPlan (SessionClosed ''b'' True (snd (Plan (demo 1))))"
proof -
  have "a_plan (snd (Plan (demo 1))) \<noteq> None" by (simp add: Plan_def planLocked_def Let_def split: option.splits)
  then have "a_plan (SessionClosed ''b'' True (snd (Plan (demo 1)))) \<noteq> None"
    by (simp add: SessionClosed_def split: option.splits)
  moreover have "reachable 1 (SessionClosed ''b'' True (snd (Plan (demo 1)))) []"
    by (rule reachable.closed [OF reachable.local [OF demo_reachable local_op.plan]])
  ultimately show ?thesis using plan_cache_coherent by blast
qed

text \<open>C18. A plan never announces more than a tier's parallelism or the instance's limit, unless adoption already runs
  more than that, in which case it announces no more than what runs.  It never announces less than a binding runs,
  nothing new to a held binding, at most one credit to a silent one, and otherwise no more than demand.  The per-tier
  totals and the grand total of the plan are the sums of its announcements.\<close>

theorem plan_within_limits:
  assumes "reachable g a polls" "map_of (a_pools a) t = Some p"
  defines "plan \<equiv> fst (Plan a)"
  shows "totalForTier plan t = sum_list (map (ap_desired plan) (p_order p)) \<and>
    totalForTier plan t \<le> max (p_parallelism p) (p_active p) \<and>
    (\<forall>k b. p_state p k = Some b \<longrightarrow> offer_ok b (ap_desired plan k)) \<and>
    ap_totalAdvertised plan = sum_list (map (ap_desired plan) (a_order a)) \<and>
    (g > 0 \<longrightarrow> ap_totalAdvertised plan \<le> max g (a_activeCount a))"
proof -
  note r = reachable_ok [OF assms(1)] and tp = map_of_SomeD [OF assms(2)]
  have plan: "plan = buildPlan a" unfolding plan_def by (rule Plan_current [OF r(3)])
  have w: "plan_books a plan" "reserve_ok a (\<lambda>_. 0) (ap_desired plan)"
    using buildPlan_within(1) [OF r(2)] by (auto simp: plan plan_within_def)
  have tier: "totalForTier plan t = tsum (ap_desired plan) p" by (rule totalForTier_books [OF w(1) tp])
  have "offer_ok b (ap_desired plan k)" if "p_state p k = Some b" for k b
  proof -
    have "k \<in> set (p_order p)" using that pool_wfD(2) [OF pools_wfD(2) [OF r(2) tp]] by blast
    then show ?thesis using w(2) tp that by (fastforce simp: reserve_ok_def offers_ok_def)
  qed
  moreover have "tsum (ap_desired plan) p \<le> max (p_parallelism p) (p_active p)" using w(2) tp by (auto simp: reserve_ok_def)
  moreover have "ap_totalAdvertised plan = sum_list (map (ap_desired plan) (a_order a))"
    using w(1) unfolding order_sum [OF r(2)] by (simp add: plan_books_def tsum_def)
  ultimately show ?thesis
    using tier buildPlan_within(2) [OF r(2)] r(5) by (simp add: plan tsum_def)
qed

theorem plan_within_limits_witness:
  "reachable 1 (demo 1) [] \<and> totalForTier (fst (Plan (demo 1))) ''std'' \<le>
     max (p_parallelism (the (map_of (a_pools (demo 1)) ''std''))) (p_active (the (map_of (a_pools (demo 1)) ''std'')))"
  using plan_within_limits [OF demo_reachable demo_pool, of 1] demo_reachable by simp

text \<open>C19. With independent tiers no wanted credit is left unused: if a plan offers an unheld binding less than its
  demand, then the plan has committed the tier's whole parallelism.\<close>

theorem plan_conserves_tier:
  assumes "reachable g a polls" "g \<le> 0" "map_of (a_pools a) t = Some p" "p_state p k = Some b"
    "\<not> b_held b" "b_active b < b_assignedDemand b" "ap_desired (fst (Plan a)) k < b_assignedDemand b"
  shows "p_parallelism p \<le> totalForTier (fst (Plan a)) t"
proof -
  note r = reachable_ok [OF assms(1)] and tp = map_of_SomeD [OF assms(3)]
  have plan: "fst (Plan a) = buildPlan a" by (rule Plan_current [OF r(3)])
  have g: "\<not> a_globalParallelism a > 0" using r(5) assms(2) by simp
  have "k \<in> set (p_order p)" using assms(4) pool_wfD(2) [OF pools_wfD(2) [OF r(2) tp]] by blast
  then have "p_parallelism p \<le> tsum (ap_desired (buildPlan a)) p"
    using buildPlan_tiers(3) [OF r(2) g tp] assms(4-7) by (simp add: tier_conserves_def wants_def plan)
  then show ?thesis using totalForTier_books [OF buildPlan_tiers(1) [OF r(2) g] tp] by (simp add: plan)
qed

theorem plan_conserves_tier_witness:
  "ap_desired (fst (Plan (demo 0))) ''a'' < 3 \<and> 2 \<le> totalForTier (fst (Plan (demo 0))) ''std''"
proof -
  let ?p = "the (map_of (a_pools (demo 0)) ''std'')" and ?b = "the (p_state (the (map_of (a_pools (demo 0)) ''std'')) ''a'')"
  have b: "p_state ?p ''a'' = Some ?b" "\<not> b_held ?b" "b_active ?b < b_assignedDemand ?b" "b_assignedDemand ?b = 3"
    "p_parallelism ?p = 2"
    by (simp_all add: demo_eval)
  have "ap_desired (fst (Plan (demo 0))) ''a'' < b_assignedDemand ?b" unfolding b(4) by code_simp
  then show ?thesis using plan_conserves_tier [OF demo_reachable _ demo_pool b(1-3)] b(4,5) by simp
qed

section \<open>Water filling\<close>

text \<open>C21. A fill spends exactly the smaller of its budget and the headroom below the level limit; every candidate ends
  between its floor and its ceiling clipped at that limit.\<close>

theorem waterFill_exact:
  assumes "cs \<noteq> []" "0 < budget" "0 \<le> limit" "list_all (\<lambda>c. 0 \<le> ac_floor c \<and> ac_floor c \<le> ac_ceiling c) cs"
    "waterFill cs budget limit = (caps, used, visits)"
  shows "length caps = length cs \<and> used = sum_list caps - sum_list (map ac_floor cs) \<and>
    used = min budget (sum_list (map (\<lambda>c. max 0 (min (ac_ceiling c) limit - ac_floor c)) cs)) \<and>
    (\<forall>i < length cs. ac_floor (cs ! i) \<le> caps ! i \<and> caps ! i \<le> max (ac_floor (cs ! i)) (min (ac_ceiling (cs ! i)) limit))"
proof -
  have ok: "fill_ok cs budget limit caps used" by (rule waterFill_ok [OF assms(1-3,5)])
  then obtain level where "levelled cs limit caps level" by (auto simp: fill_ok_def)
  then have "\<forall>i < length cs. ac_floor (cs ! i) \<le> caps ! i \<and>
      caps ! i \<le> max (ac_floor (cs ! i)) (min (ac_ceiling (cs ! i)) limit)"
    by (fastforce simp: levelled_def clip_eq_min)
  then show ?thesis using ok by (simp add: fill_ok_def headroom_def need_def [abs_def])
qed

text \<open>C20. A fill is max-min fair: a candidate that was raised stands at most one credit above any candidate that
  could still be raised.\<close>

theorem waterFill_max_min_fair:
  assumes "0 < budget" "0 \<le> limit" "waterFill cs budget limit = (caps, used, visits)" "i < length cs" "j < length cs"
    "ac_floor (cs ! i) < caps ! i" "caps ! j < min (ac_ceiling (cs ! j)) limit"
  shows "caps ! i \<le> caps ! j + 1"
proof -
  have "cs \<noteq> []" using assms(4) by auto
  then have "fill_ok cs budget limit caps used" using waterFill_ok assms(1-3) by blast
  then obtain level where lev: "levelled cs limit caps level" by (auto simp: fill_ok_def)
  then have "caps ! i \<le> max (ac_floor (cs ! i)) (min (clip limit (cs ! i)) (level + 1))"
    "max (ac_floor (cs ! j)) (min (clip limit (cs ! j)) level) \<le> caps ! j"
    using assms(4,5) by (auto simp: levelled_def)
  then show ?thesis using assms(6,7) unfolding clip_eq_min by linarith
qed

text \<open>A fill inspects O(B log P) candidates: for a level limit below $2^k$ it makes at most $k + 4$ visits per
  candidate, however large the demand.\<close>

theorem waterFill_visits_bounded:
  assumes "0 \<le> limit" "list_all (\<lambda>c. 0 \<le> ac_floor c \<and> ac_floor c \<le> ac_ceiling c) cs" "limit < 2 ^ k"
  shows "snd (snd (waterFill cs budget limit)) \<le> (int k + 4) * int (length cs)"
  using waterFill_visits [OF assms(1) _ assms(3)] assms(2) by (simp add: fillable_def)

definition demo_candidates :: "allocation_candidate list"
  where "demo_candidates =
    [\<lparr>ac_key = ''a'', ac_floor = 0, ac_ceiling = 9\<rparr>, \<lparr>ac_key = ''b'', ac_floor = 2, ac_ceiling = 3\<rparr>,
     \<lparr>ac_key = ''c'', ac_floor = 1, ac_ceiling = 4\<rparr>]"

lemma demo_fill: "waterFill demo_candidates 5 9 = ([3, 3, 2], 5, 18)"
  by code_simp

theorem waterFill_exact_witness:
  "list_all (\<lambda>c. 0 \<le> ac_floor c \<and> ac_floor c \<le> ac_ceiling c) demo_candidates \<and>
   (5 :: int) = min 5 (sum_list (map (\<lambda>c. max 0 (min (ac_ceiling c) 9 - ac_floor c)) demo_candidates))"
  using waterFill_exact [of demo_candidates 5 9 "[3, 3, 2]" 5 18] demo_fill by (simp add: demo_candidates_def)

theorem waterFill_max_min_fair_witness:
  "[3, 3, 2 :: int] ! 0 \<le> [3, 3, 2] ! 2 + 1 \<and> waterFill demo_candidates 5 9 = ([3, 3, 2], 5, 18)"
  using waterFill_max_min_fair [of 5 9 demo_candidates "[3, 3, 2]" 5 18 0 2] demo_fill
  by (simp add: demo_candidates_def)

theorem waterFill_visits_bounded_witness:
  "(9 :: int) < 2 ^ 4 \<and> snd (snd (waterFill demo_candidates 5 9)) \<le> (int 4 + 4) * int (length demo_candidates)"
  using waterFill_visits_bounded [of 9 demo_candidates 4 5] by (simp add: demo_candidates_def)

end
