(* ===== verification/Discovery.thy ===== *)
theory Discovery
  imports AllocatorProps
begin

text \<open>
  The discovery credit of \<^verbatim>\<open>internal/allocator/allocator.go\<close>: where the ring
  pointer stands after each operation, when a poll may rotate it, and the one
  case in which the code leaves it on a binding that does not need it.
\<close>

section \<open>Searching the ring\<close>

lemma nextDiscovery_from_spec:
  assumes "0 < length order"
  shows "still a (order ! nextDiscovery_from a order current i n) \<or>
    (nextDiscovery_from a order current i n = current \<and>
     (\<forall>j. i \<le> j \<longrightarrow> j < i + n \<longrightarrow> \<not> still a (order ! ((current + j) mod length order))))"
proof (induction n arbitrary: i)
  case (Suc n)
  let ?k = "order ! ((current + i) mod length order)"
  show ?case
  proof (cases "still a ?k")
    case True
    then show ?thesis by (auto simp: Let_def still_def split: option.splits)
  next
    case False
    then have "nextDiscovery_from a order current i (Suc n) = nextDiscovery_from a order current (i + 1) n"
      by (auto simp: Let_def still_def split: option.splits)
    moreover have "j = i \<or> i + 1 \<le> j" if "i \<le> j" for j using that by linarith
    ultimately show ?thesis using Suc.IH [of "i + 1"] False by fastforce
  qed
qed simp

text \<open>The ring is searched completely: the pointer moves to a silent binding, or there is none.\<close>

lemma nextDiscovery_spec:
  assumes "current < length order"
  shows "still a (order ! nextDiscovery a order current) \<or>
    (nextDiscovery a order current = current \<and> (\<forall>k \<in> set order. \<not> still a k))"
proof -
  have pos: "0 < length order" using assms by linarith
  have "\<exists>j. 1 \<le> j \<and> j < 1 + length order \<and> (current + j) mod length order = m" if "m < length order" for m
  proof (cases "current < m")
    case True
    then show ?thesis using that by (intro exI [of _ "m - current"]) auto
  next
    case False
    have "(current + (length order - current + m)) mod length order = m" using that assms by (simp add: mod_if)
    then show ?thesis using that assms False by (intro exI [of _ "length order - current + m"]) auto
  qed
  then show ?thesis
    using nextDiscovery_from_spec [OF pos, of a current 1 "length order"] pos
    by (auto simp: nextDiscovery_def in_set_conv_nth) metis
qed

definition tier_holder :: "pool \<Rightarrow> binding_key"
  where "tier_holder p = p_order p ! p_discovery p"

text \<open>A pointer is well placed when it is on a silent binding, or when the ring has none.\<close>

definition well_placed :: "allocator \<Rightarrow> pool \<Rightarrow> bool"
  where "well_placed a p \<longleftrightarrow> p_order p = [] \<or> still a (tier_holder p) \<or> (\<forall>k \<in> set (p_order p). \<not> still a k)"

lemma still_kept [simp]:
  "still (advanceDiscoveryFrom key a) k = still a k" "still (invalidatePlan a) k = still a k"
  by (simp_all add: still_def)

lemma well_placed_cong:
  "(\<And>k. still a' k = still a k) \<Longrightarrow> well_placed a' p = well_placed a p"
  by (simp add: well_placed_def)

lemma advance_well_placed:
  assumes wf: "pools_wf a" and g: "\<not> a_globalParallelism a > 0" and p: "poolOf a key = Some p"
    and holder: "p_order p = [] \<or> tier_holder p = key"
  shows "well_placed (advanceDiscoveryFrom key a) (the (poolOf (advanceDiscoveryFrom key a) key))"
proof (cases "p_order p = [] \<or> still a key")
  case True
  then have "advanceDiscoveryFrom key a = a" using g p by (auto simp: advanceDiscoveryFrom_def)
  then show ?thesis using True p holder by (auto simp: well_placed_def)
next
  case False
  have m: "map_of (a_pools a) (tierKey a key) = Some p" using p by (simp add: poolOf_def)
  have lt: "p_discovery p < length (p_order p)" using False pool_wfD(4) [OF pools_wfD(3) [OF wf m]] by blast
  let ?n = "nextDiscovery a (p_order p) (p_discovery p)"
  have moved: "the (poolOf (advanceDiscoveryFrom key a) key) = p\<lparr>p_discovery := ?n,
      p_discoveryGeneration := p_discoveryGeneration (the (poolOf (advanceDiscoveryFrom key a) key))\<rparr>"
    using False g p holder
    by (auto simp: advanceDiscoveryFrom_def Let_def tier_holder_def poolOf_on_pool)
  then have same: "p_order (the (poolOf (advanceDiscoveryFrom key a) key)) = p_order p"
    "p_discovery (the (poolOf (advanceDiscoveryFrom key a) key)) = ?n"
    by (metis pool.select_convs(2) pool.surjective pool.update_convs(7,8), metis pool.select_convs(7) pool.surjective pool.update_convs(7,8))
  show ?thesis
    using nextDiscovery_spec [OF lt, of a] by (auto simp: well_placed_def same tier_holder_def)
qed

lemma advance_global: "a_globalParallelism (advanceDiscoveryFrom key a) = a_globalParallelism a"
  by (simp add: advanceDiscoveryFrom_def Let_def split: option.splits)

lemma advance_pools:
  assumes "\<not> a_globalParallelism a > 0" "map_of (a_pools (advanceDiscoveryFrom key a)) t = Some p'"
  shows "\<exists>p. map_of (a_pools a) t = Some p \<and> p_order p' = p_order p \<and>
    (t \<noteq> tierKey a key \<or> p_order p \<noteq> [] \<and> tier_holder p \<noteq> key \<longrightarrow> p' = p)"
proof (cases "poolOf a key")
  case (Some q)
  then have m: "map_of (a_pools a) (tierKey a key) = Some q" by (simp add: poolOf_def)
  show ?thesis
    using assms Some m
    by (auto simp: advanceDiscoveryFrom_def Let_def tier_holder_def on_pool_Some [OF Some] invalidatePlan_def update_conv'
        split: if_splits)
qed (use assms in \<open>simp add: advanceDiscoveryFrom_def\<close>)

lemma advance_keeps_placed:
  assumes wf: "pools_wf a" and g: "\<not> a_globalParallelism a > 0"
    and p: "map_of (a_pools a) t = Some p" and p': "map_of (a_pools (advanceDiscoveryFrom key a)) t = Some p'"
    and placed: "t \<noteq> tierKey a key \<or> (p_order p \<noteq> [] \<and> tier_holder p \<noteq> key) \<Longrightarrow> well_placed a p"
  shows "well_placed (advanceDiscoveryFrom key a) p'"
proof (cases "t \<noteq> tierKey a key \<or> (p_order p \<noteq> [] \<and> tier_holder p \<noteq> key)")
  case True
  then have "p' = p" using advance_pools [OF g p'] p by auto
  then show ?thesis using placed [OF True] well_placed_cong [of "advanceDiscoveryFrom key a" a] by simp
next
  case False
  then have "poolOf a key = Some p" "p_order p = [] \<or> tier_holder p = key" using p by (auto simp: poolOf_def)
  from advance_well_placed [OF wf g this]
  moreover have "poolOf (advanceDiscoveryFrom key a) key = Some p'"
  proof -
    have "tierKey (advanceDiscoveryFrom key a) key = tierKey a key"
      by (simp add: advanceDiscoveryFrom_def Let_def tierKey_def invalidatePlan_def split: option.splits)
    then show ?thesis using False p' by (simp add: poolOf_def)
  qed
  ultimately show ?thesis by simp
qed

lemma busier_keeps_placed:
  assumes "well_placed a p" "p_order p1 = p_order p" "p_discovery p1 = p_discovery p"
    "\<And>k. still a1 k \<Longrightarrow> still a k" "\<And>k. k \<noteq> key \<Longrightarrow> still a1 k = still a k"
    "p_order p = [] \<or> tier_holder p \<noteq> key \<or> still a1 key"
  shows "well_placed a1 p1"
  using assms by (auto simp: well_placed_def tier_holder_def) metis+

section \<open>Work moves the pointer on\<close>

definition rings_kept :: "allocator \<Rightarrow> allocator \<Rightarrow> bool"
  where "rings_kept a a1 \<longleftrightarrow> (\<forall>t p1. map_of (a_pools a1) t = Some p1 \<longrightarrow>
    (\<exists>p. map_of (a_pools a) t = Some p \<and> p_order p1 = p_order p \<and> p_discovery p1 = p_discovery p))"

lemma rings_kept_trans: "rings_kept a b \<Longrightarrow> rings_kept b c \<Longrightarrow> rings_kept a c"
  unfolding rings_kept_def by fastforce

lemma rings_kept_on_pool:
  assumes "\<And>p. p_order (f p) = p_order p" "\<And>p. p_discovery (f p) = p_discovery p"
  shows "rings_kept a (on_pool key f a)"
  using assms by (auto simp: rings_kept_def on_pool_def poolOf_def update_conv' split: option.splits)

lemma rings_kept_on_binding: "rings_kept a (on_binding key f a)"
  unfolding on_binding_def by (rule rings_kept_on_pool) (auto split: option.splits)

lemma rings_kept_add_active: "rings_kept a (add_active d key a)"
proof -
  let ?b = "on_binding key (\<lambda>b. b\<lparr>b_active := b_active b + d\<rparr>) a"
  have "rings_kept ?b (on_pool key (\<lambda>p. p\<lparr>p_active := p_active p + d\<rparr>) ?b)" by (rule rings_kept_on_pool) simp_all
  from rings_kept_trans [OF rings_kept_on_binding this] show ?thesis by (simp add: add_active_def rings_kept_def)
qed

text \<open>An operation that gives a binding demand or work and then advances the pointer keeps every ring well placed.\<close>

lemma busier_step:
  assumes ok: "alloc_ok a1" and g: "\<not> a_globalParallelism a1 > 0" and rings: "rings_kept a a1"
    and still: "\<And>k. still a1 k \<Longrightarrow> still a k" "\<And>k. k \<noteq> key \<Longrightarrow> still a1 k = still a k"
    and before: "\<And>p. map_of (a_pools a) t = Some p \<Longrightarrow> well_placed a p"
    and p': "map_of (a_pools (advanceDiscoveryFrom key (invalidatePlan a1))) t = Some p'"
  shows "well_placed (advanceDiscoveryFrom key (invalidatePlan a1)) p'"
proof -
  have wf': "pools_wf (invalidatePlan a1)" and g': "\<not> a_globalParallelism (invalidatePlan a1) > 0"
    using g alloc_okD(1) [of "invalidatePlan a1"] ok by simp_all
  from advance_pools [OF g' p'] obtain p1 where p1: "map_of (a_pools (invalidatePlan a1)) t = Some p1" by blast
  then obtain p where p: "map_of (a_pools a) t = Some p" "p_order p1 = p_order p" "p_discovery p1 = p_discovery p"
    using rings by (auto simp: rings_kept_def invalidatePlan_def)
  show ?thesis
  proof (rule advance_keeps_placed [OF wf' g' p1 p'])
    assume away: "t \<noteq> tierKey (invalidatePlan a1) key \<or> p_order p1 \<noteq> [] \<and> tier_holder p1 \<noteq> key"
    have "p_order p1 = [] \<or> tier_holder p1 \<noteq> key"
    proof (rule ccontr)
      assume "\<not> ?thesis"
      then have ne: "p_order p1 \<noteq> []" and "tier_holder p1 = key" by auto
      moreover have "p_discovery p1 < length (p_order p1)"
        using pool_wfD(4) [OF pools_wfD(3) [OF wf' p1]] ne by blast
      ultimately have "key \<in> set (p_order p1)" by (auto simp: tier_holder_def)
      then have "a_tierOf (invalidatePlan a1) key = Some t" using pool_wfD(3) [OF pools_wfD(3) [OF wf' p1]] by blast
      then show False using away \<open>tier_holder p1 = key\<close> by (simp add: tierKey_def)
    qed
    then have "p_order p = [] \<or> tier_holder p \<noteq> key" using p by (simp add: tier_holder_def)
    then show "well_placed (invalidatePlan a1) p1"
      using busier_keeps_placed [OF before [OF p(1)] p(2,3), of "invalidatePlan a1" key] still by auto
  qed
qed

lemma add_active_step:
  assumes ok: "alloc_ok a" and g: "\<not> a_globalParallelism a > 0" and b: "binding_of a key = Some b"
    and before: "\<And>p. map_of (a_pools a) t = Some p \<Longrightarrow> well_placed a p"
    and p': "map_of (a_pools (advanceDiscoveryFrom key (invalidatePlan (add_active 1 key a)))) t = Some p'"
  shows "well_placed (advanceDiscoveryFrom key (invalidatePlan (add_active 1 key a))) p'"
proof (rule busier_step [OF _ _ rings_kept_add_active _ _ before p'])
  have n: "0 \<le> b_active b" using binding_ok_of [OF ok b] by (simp add: binding_ok_def)
  show "alloc_ok (add_active 1 key a)" using add_active_ok [OF ok b, of 1] n by simp
  show "\<not> a_globalParallelism (add_active 1 key a) > 0" using g by (simp add: add_active_def)
  show "still a k" if "still (add_active 1 key a) k" for k
    using that b n by (auto simp: still_def silent_def split: if_splits option.splits)
  show "still (add_active 1 key a) k = still a k" if "k \<noteq> key" for k using that by (simp add: still_def)
qed

lemma demand_step:
  assumes ok: "alloc_ok a" and g: "\<not> a_globalParallelism a > 0" and d: "0 < d"
    and before: "\<And>p. map_of (a_pools a) t = Some p \<Longrightarrow> well_placed a p"
    and p': "map_of (a_pools (SetAssignedDemand key d a)) t = Some p'"
  shows "well_placed (SetAssignedDemand key d a) p'"
proof -
  let ?a = "on_binding key (\<lambda>b. b\<lparr>b_assignedDemand := d\<rparr>) a"
  show ?thesis
  proof (cases "\<exists>b. binding_of a key = Some b \<and> b_assignedDemand b \<noteq> d")
    case True
    then have eq: "SetAssignedDemand key d a = advanceDiscoveryFrom key (invalidatePlan ?a)"
      using d by (auto simp: SetAssignedDemand_def Let_def)
    have "alloc_ok ?a" using set_demand_ok [OF ok] d by simp
    then show ?thesis
      unfolding eq
    proof (rule busier_step [OF _ _ rings_kept_on_binding _ _ before])
      show "\<not> a_globalParallelism ?a > 0" using g by simp
      show "still a k" if "still ?a k" for k
        using that d by (auto simp: still_def silent_def binding_of_on_binding split: if_splits option.splits)
      show "still ?a k = still a k" if "k \<noteq> key" for k using that by (simp add: still_def binding_of_on_binding)
      show "map_of (a_pools (advanceDiscoveryFrom key (invalidatePlan ?a))) t = Some p'" using p' by (simp add: eq)
    qed
  next
    case False
    then have "SetAssignedDemand key d a = a" using d by (auto simp: SetAssignedDemand_def Let_def split: option.splits)
    then show ?thesis using before p' by simp
  qed
qed

lemma thawTier_placed:
  assumes wf: "pools_wf a" and g: "\<not> a_globalParallelism a > 0"
    and p': "map_of (a_pools (thawTier t a)) s = Some p'"
    and before: "\<And>p. s \<noteq> t \<Longrightarrow> map_of (a_pools a) s = Some p \<Longrightarrow> well_placed a p"
  shows "well_placed (thawTier t a) p'"
proof (cases "\<exists>p. map_of (a_pools a) t = Some p \<and> p_order p \<noteq> []")
  case True
  then obtain p where p: "map_of (a_pools a) t = Some p" "p_order p \<noteq> []" by blast
  let ?h = "tier_holder p"
  have eq: "thawTier t a = advanceDiscoveryFrom ?h a" using p by (simp add: thawTier_def tier_holder_def)
  have "p_discovery p < length (p_order p)" using pool_wfD(4) [OF pools_wfD(3) [OF wf p(1)]] p(2) by blast
  then have "a_tierOf a ?h = Some t"
    using pool_wfD(3) [OF pools_wfD(3) [OF wf p(1)], of ?h] by (simp add: tier_holder_def)
  then have home: "tierKey a ?h = t" by (simp add: tierKey_def)
  obtain q where q: "map_of (a_pools a) s = Some q" using advance_pools [OF g p' [unfolded eq]] by blast
  have "well_placed a q" if "s \<noteq> tierKey a ?h \<or> p_order q \<noteq> [] \<and> tier_holder q \<noteq> ?h"
    using that before [OF _ q] home p q by (cases "s = t") auto
  then show ?thesis using advance_keeps_placed [OF wf g q p' [unfolded eq]] by (simp add: eq)
next
  case False
  then have "thawTier t a = a" by (auto simp: thawTier_def split: option.splits)
  then show ?thesis using before p' False by (cases "s = t") (auto simp: well_placed_def)
qed

lemma thawTier_still [simp]: "still (thawTier t a) k = still a k"
  by (simp add: thawTier_def split: option.splits)

lemma in_keys_or_absent: "t \<in> set (keys m) \<or> (\<forall>p. map_of m t = Some p \<longrightarrow> Q p)"
  by (cases "map_of m t") (force dest: map_of_SomeD)+

lemma thaw_all_placed:
  assumes "alloc_ok a" "\<not> a_globalParallelism a > 0" "s \<in> set ts \<or> (\<forall>p. map_of (a_pools a) s = Some p \<longrightarrow> well_placed a p)"
    "map_of (a_pools (fold thawTier ts a)) s = Some p'"
  shows "well_placed (fold thawTier ts a) p'"
  using assms
proof (induction ts arbitrary: a)
  case (Cons t ts)
  have "alloc_ok (thawTier t a)" using Cons.prems(1) by (simp add: thawTier_ok)
  moreover have "\<not> a_globalParallelism (thawTier t a) > 0"
    using Cons.prems(2) by (auto simp: thawTier_def advance_global split: option.splits)
  moreover have "s \<in> set ts \<or> (\<forall>p. map_of (a_pools (thawTier t a)) s = Some p \<longrightarrow> well_placed (thawTier t a) p)"
    using thawTier_placed [OF alloc_okD(1) [OF Cons.prems(1)] Cons.prems(2), of t s] Cons.prems(3) by auto
  ultimately show ?case using Cons.IH [of "thawTier t a"] Cons.prems(4) by simp
qed simp

lemma thaw_well_placed:
  assumes ok: "alloc_ok a" and g: "\<not> a_globalParallelism a > 0" and held: "a_held a"
    and p: "map_of (a_pools (Hold False a)) t = Some p"
  shows "well_placed (Hold False a) p"
proof -
  let ?a0 = "invalidatePlan (a\<lparr>a_held := False,
    a_pools := map (\<lambda>(tierID, p). (tierID, hold_pool False p)) (a_pools a)\<rparr>)"
  define a1 where "a1 = (if a_order ?a0 = [] then ?a0 else advanceDiscoveryFrom (a_order ?a0 ! a_discovery ?a0) ?a0)"
  have eq: "Hold False a = fold thawTier (keys (a_pools a1)) a1"
    using held unfolding a1_def Hold_def Let_def by simp
  have "alloc_ok ?a0" using held_pools_ok [OF ok, of False] by simp
  then have "alloc_ok a1" unfolding a1_def by (simp only: advanceDiscoveryFrom_ok split: if_split) simp
  moreover have "\<not> a_globalParallelism a1 > 0" using g by (simp add: a1_def advance_global)
  ultimately show ?thesis
    using thaw_all_placed [of a1 t "keys (a_pools a1)" p] p in_keys_or_absent [of t "a_pools a1"] unfolding eq by blast
qed





section \<open>A credit the code leaves parked\<close>

definition parked_setup :: allocator
  where "parked_setup = SessionOpened ''also'' (SessionOpened ''busy''
    (snd (Register ''std'' ''also'' 2 (snd (Register ''std'' ''busy'' 2 New)))))"

definition parked :: allocator
  where "parked = SetAssignedDemand ''also'' 0 (SetAssignedDemand ''busy'' 1 (SetAssignedDemand ''also'' 1 parked_setup))"

lemma parked_reachable: "reachable 0 parked []"
proof -
  let ?a = "snd (Register ''std'' ''busy'' 2 (NewWithGlobalParallelism 0))"
  have a: "reachable 0 ?a []"
    by (rule reachable.local [OF reachable.new local_op.register]) (simp_all add: NewWithGlobalParallelism_def)
  have "a_tierOf ?a ''also'' = None"
    by (simp add: Register_def NewWithGlobalParallelism_def newPool_def Let_def invalidatePlan_def)
  then have "reachable 0 parked_setup []"
    unfolding parked_setup_def New_def by (intro reachable.opened reachable.local [OF a local_op.register]) simp_all
  then show ?thesis unfolding parked_def by (intro reachable.local [OF _ local_op.demand])
qed


section \<open>Polls\<close>

lemma CompletePoll_settled:
  "binding_of a (pl_key p) = Some b \<Longrightarrow> b_pending b = None \<Longrightarrow> CompletePoll p s e a = a"
  by (simp add: CompletePoll_def)

lemma CompletePoll_pending:
  assumes "binding_of a (pl_key p) = Some b" "b_pending b = Some pending" "pp_id pending = pl_id p"
  shows "\<exists>b'. binding_of (CompletePoll p s e a) (pl_key p) = Some b' \<and> b_pending b' = None"
  using assms by (simp add: CompletePoll_def Let_def settlePoll_def)

lemma CompletePoll_other:
  "binding_of a (pl_key p) = None \<or>
   (\<exists>b. binding_of a (pl_key p) = Some b \<and> (\<forall>pending. b_pending b = Some pending \<longrightarrow> pp_id pending \<noteq> pl_id p)) \<Longrightarrow>
   CompletePoll p s e a = a"
  by (auto simp: CompletePoll_def split: option.splits)

lemma CompletePoll_again: "CompletePoll p s e (CompletePoll p s' e' a) = CompletePoll p s' e' a"
proof (cases "\<exists>b pending. binding_of a (pl_key p) = Some b \<and> b_pending b = Some pending \<and> pp_id pending = pl_id p")
  case True
  then show ?thesis using CompletePoll_pending CompletePoll_settled by metis
next
  case False
  then have "CompletePoll p s' e' a = a" for s' e' by (intro CompletePoll_other) (cases "binding_of a (pl_key p)", auto)
  then show ?thesis by simp
qed

lemma CompletePoll_closed: "CompletePoll p s e (SessionClosed (pl_key p) c a) = SessionClosed (pl_key p) c a"
proof (cases "binding_of a (pl_key p)")
  case (Some b)
  then have "binding_of (SessionClosed (pl_key p) c a) (pl_key p) = Some ((closeSession c b)\<lparr>b_remoteKnown := c\<rparr>)"
    by (simp add: SessionClosed_def)
  then show ?thesis by (rule CompletePoll_settled) (simp add: closeSession_def Let_def)
qed (simp add: SessionClosed_def CompletePoll_def)

lemma CompletePoll_opened: "CompletePoll p s e (SessionOpened (pl_key p) a) = SessionOpened (pl_key p) a"
proof (cases "binding_of a (pl_key p)")
  case (Some b)
  then have "binding_of (SessionOpened (pl_key p) a) (pl_key p) =
      Some (b\<lparr>b_published := 0, b_pending := None, b_remoteKnown := True\<rparr>)"
    by (simp add: SessionOpened_def)
  then show ?thesis by (rule CompletePoll_settled) simp
qed (simp add: SessionOpened_def CompletePoll_def)

lemma CompletePoll_superseded:
  assumes ok: "polls_ok a polls" and p: "p \<in> set polls" and n: "length polls < 2 ^ 64 - 1"
    and valid: "Valid (fst (BeginPoll (pl_key p) a))"
  shows "CompletePoll p s e (snd (BeginPoll (pl_key p) a)) = snd (BeginPoll (pl_key p) a)"
proof (cases rule: BeginPoll_cases [of "pl_key p" a])
  case refused
  then show ?thesis using valid by (simp add: Valid_def invalidPoll_def)
next
  case (issued b pl capacity discovery generation desired)
  have "unat (b_pollID b) \<le> length polls" using ok issued(1) by (auto simp: polls_ok_def)
  then have suc: "unat (b_pollID b + 1) = unat (b_pollID b) + 1"
    using n by (simp add: unat_word_ariths)
  have "pl_id p \<noteq> b_pollID b + 1"
  proof (cases "pl_id p = 0")
    case True
    then show ?thesis using suc by (metis add_is_0 one_neq_zero unat_0)
  next
    case False
    then have "unat (pl_id p) \<le> unat (b_pollID b)"
      using ok p issued(1) by (auto simp: polls_ok_def poll_ok_def)
    then show ?thesis using suc by auto
  qed
  then show ?thesis
    by (intro CompletePoll_other) (simp add: issued(6) issued(1) binding_of_on_binding)
qed

text \<open>C32. A completion counts once and only for the poll in flight.  Completing a poll again, completing it after its
  session closed or was replaced, or after a newer poll of the same binding began, leaves the allocator as it is.\<close>

theorem late_completion_ignored:
  assumes "reachable g a polls" "p \<in> set polls" "length polls < 2 ^ 64 - 1"
  shows "CompletePoll p s e (CompletePoll p s' e' a) = CompletePoll p s' e' a \<and>
    CompletePoll p s e (SessionClosed (pl_key p) c a) = SessionClosed (pl_key p) c a \<and>
    CompletePoll p s e (SessionOpened (pl_key p) a) = SessionOpened (pl_key p) a \<and>
    (Valid (fst (BeginPoll (pl_key p) a)) \<longrightarrow>
      CompletePoll p s e (snd (BeginPoll (pl_key p) a)) = snd (BeginPoll (pl_key p) a))"
  using CompletePoll_superseded [OF reachable_ok(4) [OF assms(1)] assms(2,3)]
  by (simp add: CompletePoll_again CompletePoll_closed CompletePoll_opened)

theorem late_completion_ignored_witness:
  "let p = fst (BeginPoll ''a'' (demo 0)); a = CompletePoll p False False (snd (BeginPoll ''a'' (demo 0)))
   in Valid (fst (BeginPoll ''a'' a)) \<and> CompletePoll p True True (snd (BeginPoll ''a'' a)) = snd (BeginPoll ''a'' a)"
proof -
  let ?p = "fst (BeginPoll ''a'' (demo 0))" and ?a = "CompletePoll (fst (BeginPoll ''a'' (demo 0))) False False (snd (BeginPoll ''a'' (demo 0)))"
  have "reachable 0 ?a [?p]"
    by (rule reachable.complete [OF reachable.poll [OF demo_reachable]]) simp_all
  moreover have "Valid (fst (BeginPoll ''a'' ?a))" by code_simp
  moreover have "pl_key ?p = ''a''" by code_simp
  ultimately show ?thesis using late_completion_ignored [of 0 ?a "[?p]" ?p True True] by (simp add: Let_def)
qed

text \<open>While the fate of one session is unknown, no binding that shares its budget announces anything: the poll a
  binding begins carries capacity zero as long as some binding of its tier (of the instance, under a global limit) has
  never opened a session or lost one without confirmation.\<close>

theorem unknown_session_silences_budget:
  assumes "reachable g a polls" "binding_of a other = Some b" "\<not> b_remoteKnown b"
    "0 < g \<or> tierKey a key = tierKey a other"
  shows "pl_capacity (fst (BeginPoll key a)) = 0"
proof -
  note r = reachable_ok [OF assms(1)]
  obtain p where p: "poolOf a other = Some p" "p_state p other = Some b" "(tierKey a other, p) \<in> set (a_pools a)"
    "other \<in> set (p_order p)"
    using binding_home [OF r(2) assms(2)] by metis
  have counts: "p_unknown q = psum unknown_one q" if "(t, q) \<in> set (a_pools a)" for t q
    using alloc_okD(2) [OF r(1) that] by (simp add: pool_ok_def)
  have nonneg: "0 \<le> p_unknown q" if "(t, q) \<in> set (a_pools a)" for t q
    unfolding counts [OF that] psum_def by (rule sum_list_nonneg_int) (auto simp: unknown_one_def)
  have "unknown_one (the (p_state p other)) \<le> psum unknown_one p"
    unfolding psum_def by (rule member_le_sum_list_int) (use p(4) in \<open>auto simp: unknown_one_def\<close>)
  then have tier: "1 \<le> p_unknown p" using counts [OF p(3)] p(2) assms(3) by (simp add: unknown_one_def)
  have "(\<lambda>(t, q). p_unknown q) (tierKey a other, p) \<le> sum_list (map (\<lambda>(t, q). p_unknown q) (a_pools a))"
    by (rule member_le_sum_list_int [OF _ p(3)]) (use nonneg in auto)
  then have "1 \<le> a_unknownSessions a" using tier alloc_okD(4) [OF r(1)] by simp
  then have "\<not> remoteStateKnown a key"
    using assms(4) tier p(1) r(5) by (auto simp: remoteStateKnown_def poolOf_def)
  then show ?thesis
    by (cases rule: BeginPoll_cases [of key a]) (simp_all add: invalidPoll_def clampPublished_def)
qed

theorem unknown_session_silences_budget_witness:
  "binding_of (SessionClosed ''b'' False (demo 0)) ''b'' \<noteq> None \<and>
   pl_capacity (fst (BeginPoll ''a'' (SessionClosed ''b'' False (demo 0)))) = 0 \<and>
   0 < pl_capacity (fst (BeginPoll ''a'' (demo 0)))"
proof -
  let ?a = "SessionClosed ''b'' False (demo 0)"
  have "reachable 0 ?a []" by (rule reachable.closed [OF demo_reachable])
  moreover have b: "binding_of ?a ''b'' \<noteq> None" by code_simp
  moreover have "\<not> b_remoteKnown (the (binding_of ?a ''b''))" by code_simp
  moreover have "tierKey ?a ''a'' = tierKey ?a ''b''" by code_simp
  ultimately have "pl_capacity (fst (BeginPoll ''a'' ?a)) = 0"
    using unknown_session_silences_budget [of 0 ?a "[]" "''b''" "the (binding_of ?a ''b'')" "''a''"] by auto
  moreover have "0 < pl_capacity (fst (BeginPoll ''a'' (demo 0)))" by code_simp
  ultimately show ?thesis using b by simp
qed

end
