(* ===== verification/Disk.thy ===== *)
theory Disk
  imports Prelude
begin

text \<open>
  The disk-pressure state machine of \<^verbatim>\<open>internal/disk/disk.go\<close>.  Byte
  quantities are Go's \<^verbatim>\<open>int64\<close>: every sum, difference and product goes through
  the wrap-around \<^const>\<open>i64\<close>, and division truncates.
\<close>

section \<open>Levels\<close>

datatype level = Unknown | Normal | High | SoftEmergency | HardEmergency

text \<open>\<^verbatim>\<open>Level\<close> is an \<^verbatim>\<open>iota\<close> enumeration and the source compares its values as integers.\<close>

fun level_rank :: "level \<Rightarrow> nat"
  where
    "level_rank Unknown = 0"
  | "level_rank Normal = 1"
  | "level_rank High = 2"
  | "level_rank SoftEmergency = 3"
  | "level_rank HardEmergency = 4"

lemma level_rank_inject: "level_rank k = level_rank l \<longleftrightarrow> k = l"
  by (cases k; cases l) simp_all

instantiation level :: linorder
begin

definition less_eq_level :: "level \<Rightarrow> level \<Rightarrow> bool"
  where "k \<le> l \<longleftrightarrow> level_rank k \<le> level_rank l"

definition less_level :: "level \<Rightarrow> level \<Rightarrow> bool"
  where "k < l \<longleftrightarrow> level_rank k < level_rank l"

instance
  by standard (auto simp: less_eq_level_def less_level_def level_rank_inject [symmetric])

end

fun String :: "level \<Rightarrow> string"
  where
    "String Unknown = ''unknown''"
  | "String Normal = ''normal''"
  | "String High = ''high''"
  | "String SoftEmergency = ''soft_emergency''"
  | "String HardEmergency = ''hard_emergency''"

datatype parse_error = UnknownPressureLevel string

text \<open>Like the source, a failed parse also returns \<^const>\<open>Normal\<close>; callers look at the error first.\<close>

definition ParseLevel :: "string \<Rightarrow> level \<times> parse_error option"
  where "ParseLevel s =
    (case find (\<lambda>l. String l = s) [Unknown, Normal, High, SoftEmergency, HardEmergency] of
       Some l \<Rightarrow> (l, None)
     | None \<Rightarrow> (Normal, Some (UnknownPressureLevel s)))"

section \<open>Thresholds and facts\<close>

definition softInodeFloor :: int
  where "softInodeFloor = 100000"

definition hardInodeFloor :: int
  where "hardInodeFloor = 10000"

definition inodeRecoveryBand :: int
  where "inodeRecoveryBand = softInodeFloor - hardInodeFloor"

record thresholds =
  t_MaxManagedBytes :: int
  t_HighPct :: int
  t_LowPct :: int
  t_SoftFreeBytes :: int
  t_HardFreeBytes :: int
  t_ReserveFreeBytes :: int

record facts =
  f_FreeBytes :: int
  f_FreeInodes :: int
  f_ManagedBytes :: int

definition softFloor :: "thresholds \<Rightarrow> int"
  where "softFloor t =
    (if t_ReserveFreeBytes t > t_SoftFreeBytes t then t_ReserveFreeBytes t else t_SoftFreeBytes t)"

definition watermark :: "int \<Rightarrow> int \<Rightarrow> int"
  where "watermark maxManagedBytes pct = go_quot (i64 (maxManagedBytes * pct)) 100"

definition Next :: "level \<Rightarrow> facts \<Rightarrow> thresholds \<Rightarrow> level"
  where "Next prev f t =
    (let soft = softFloor t;
         band = i64 (t_SoftFreeBytes t - t_HardFreeBytes t);
         band = (if band < 0 then 0 else band);
         inodesKnown = (f_FreeInodes f \<ge> 0)
     in if f_FreeBytes f < t_HardFreeBytes t \<or> inodesKnown \<and> f_FreeInodes f < hardInodeFloor then HardEmergency
        else if f_FreeBytes f < soft \<or> inodesKnown \<and> f_FreeInodes f < softInodeFloor then SoftEmergency
        else if prev \<ge> SoftEmergency \<and> f_FreeBytes f < i64 (soft + band) then SoftEmergency
        else if prev \<ge> SoftEmergency \<and> inodesKnown \<and> f_FreeInodes f < softInodeFloor + inodeRecoveryBand
        then SoftEmergency
        else if t_MaxManagedBytes t > 0 then
          (let high = watermark (t_MaxManagedBytes t) (t_HighPct t);
               low = watermark (t_MaxManagedBytes t) (t_LowPct t)
           in if f_ManagedBytes f \<ge> high then High
              else if prev \<ge> High \<and> f_ManagedBytes f > low then High
              else Normal)
        else Normal)"

definition AdmissionClosed :: "level \<Rightarrow> bool"
  where "AdmissionClosed l \<longleftrightarrow> l = Unknown \<or> l \<ge> SoftEmergency"

definition WantsGC :: "level \<Rightarrow> bool"
  where "WantsGC l \<longleftrightarrow> l = High \<or> l = SoftEmergency"

definition Aggressive :: "level \<Rightarrow> bool"
  where "Aggressive l \<longleftrightarrow> l = SoftEmergency"

section \<open>Reading the machine\<close>

lemma level_order [simp]:
  "l \<ge> SoftEmergency \<longleftrightarrow> l = SoftEmergency \<or> l = HardEmergency"
  "l \<ge> High \<longleftrightarrow> l = High \<or> l = SoftEmergency \<or> l = HardEmergency"
  "l \<le> HardEmergency" "Unknown \<le> l"
  by (cases l; simp add: less_eq_level_def)+

lemma Next_known [simp]: "Next prev f t \<noteq> Unknown"
  by (simp add: Next_def Let_def)

text \<open>The thresholds a configuration can name: non-negative bytes and a watermark pair below the 64-bit limit.\<close>

definition thresholds_ok :: "thresholds \<Rightarrow> bool"
  where "thresholds_ok t \<longleftrightarrow>
    0 \<le> t_HardFreeBytes t \<and> t_HardFreeBytes t \<le> t_SoftFreeBytes t \<and> t_SoftFreeBytes t \<le> 2 ^ 61 \<and>
    0 \<le> t_ReserveFreeBytes t \<and> t_ReserveFreeBytes t \<le> 2 ^ 61 \<and>
    0 \<le> t_MaxManagedBytes t \<and> t_MaxManagedBytes t \<le> 2 ^ 56 \<and>
    0 \<le> t_LowPct t \<and> t_LowPct t \<le> t_HighPct t \<and> t_HighPct t \<le> 100"

definition recovery_band :: "thresholds \<Rightarrow> int"
  where "recovery_band t = t_SoftFreeBytes t - t_HardFreeBytes t"

definition short_of :: "facts \<Rightarrow> int \<Rightarrow> int \<Rightarrow> bool"
  where "short_of f bytes inodes \<longleftrightarrow> f_FreeBytes f < bytes \<or> (0 \<le> f_FreeInodes f \<and> f_FreeInodes f < inodes)"

lemma softFloor_max: "softFloor t = max (t_SoftFreeBytes t) (t_ReserveFreeBytes t)"
  by (simp add: softFloor_def max_def)

lemma pct_bounds:
  fixes m p :: int
  assumes "0 \<le> m" "m \<le> 2 ^ 56" "0 \<le> p" "p \<le> 100"
  shows "0 \<le> m * p" "m * p < 2 ^ 63"
proof -
  show "0 \<le> m * p" using assms by simp
  have "m * p \<le> 2 ^ 56 * 100" by (rule mult_mono) (use assms in auto)
  then show "m * p < 2 ^ 63" by simp
qed

lemma watermark_exact:
  assumes "0 \<le> m" "m \<le> 2 ^ 56" "0 \<le> p" "p \<le> 100"
  shows "watermark m p = m * p div 100"
  using pct_bounds [OF assms] by (simp add: watermark_def)

lemma Next_emergency:
  assumes "thresholds_ok t"
  shows "Next prev f t \<ge> SoftEmergency \<longleftrightarrow>
    short_of f (softFloor t) softInodeFloor \<or>
    prev \<ge> SoftEmergency \<and> short_of f (softFloor t + recovery_band t) (softInodeFloor + inodeRecoveryBand)"
proof -
  have floor: "0 \<le> softFloor t" "softFloor t \<le> 2 ^ 61" "t_HardFreeBytes t \<le> softFloor t"
    using assms by (auto simp: softFloor_max thresholds_ok_def)
  have band: "i64 (t_SoftFreeBytes t - t_HardFreeBytes t) = recovery_band t" "0 \<le> recovery_band t"
    "recovery_band t \<le> 2 ^ 61"
    using assms by (auto simp: thresholds_ok_def recovery_band_def)
  have sum: "i64 (softFloor t + recovery_band t) = softFloor t + recovery_band t"
    using floor band by simp
  show ?thesis
    using floor(3) band(2)
    by (auto simp: Next_def Let_def short_of_def band(1) sum hardInodeFloor_def softInodeFloor_def inodeRecoveryBand_def)
qed

lemma Next_hard: "Next prev f t = HardEmergency \<longleftrightarrow> short_of f (t_HardFreeBytes t) hardInodeFloor"
  by (simp add: Next_def Let_def short_of_def)

lemma cascade_calm:
  "\<not> (if a then HardEmergency else if b then SoftEmergency else if c then SoftEmergency else if d then SoftEmergency else r)
      \<ge> SoftEmergency \<Longrightarrow>
   (if a then HardEmergency else if b then SoftEmergency else if c then SoftEmergency else if d then SoftEmergency else r) = r"
  by (cases a; cases b; cases c; cases d) simp_all

lemma Next_calm:
  assumes "\<not> Next prev f t \<ge> SoftEmergency"
  shows "Next prev f t =
    (if t_MaxManagedBytes t > 0 \<and> (f_ManagedBytes f \<ge> watermark (t_MaxManagedBytes t) (t_HighPct t) \<or>
        prev \<ge> High \<and> f_ManagedBytes f > watermark (t_MaxManagedBytes t) (t_LowPct t)) then High else Normal)"
  unfolding Next_def Let_def cascade_calm [OF assms [unfolded Next_def Let_def]] by simp

lemma AdmissionClosed_emergency: "AdmissionClosed (Next prev f t) \<longleftrightarrow> Next prev f t \<ge> SoftEmergency"
  by (simp add: AdmissionClosed_def)

section \<open>Properties\<close>

text \<open>Rendering and parsing a level are inverse: the persisted name of a level parses back to it without an error,
  and a name that parses without an error is the rendering of the level it gives.\<close>

theorem level_round_trip:
  "ParseLevel (String l) = (l, None) \<and> (snd (ParseLevel s) = None \<longrightarrow> String (fst (ParseLevel s)) = s)"
  by (cases l) (auto simp: ParseLevel_def find_Some_iff split: option.splits)

theorem level_round_trip_witness: "String (fst (ParseLevel ''soft_emergency'')) = ''soft_emergency''"
proof -
  have "snd (ParseLevel ''soft_emergency'') = None" by (simp add: ParseLevel_def)
  then show ?thesis using level_round_trip [of Normal "''soft_emergency''"] by blast
qed

text \<open>A verdict is stable: measuring the same facts again never changes the level, whatever the thresholds are.\<close>

theorem verdict_stable: "Next (Next prev f t) f t = Next prev f t"
  by (simp add: Next_def Let_def)



text \<open>The machine is monotone: from a worse level, with less free space, fewer inodes (on a filesystem that counts
  them) and more managed bytes, the next level is at least as bad.\<close>

theorem worse_facts_worse_level:
  assumes "thresholds_ok t" "prev \<le> prev'" "f_FreeBytes f' \<le> f_FreeBytes f" "0 \<le> f_FreeInodes f'"
    "f_FreeInodes f' \<le> f_FreeInodes f" "f_ManagedBytes f \<le> f_ManagedBytes f'"
  shows "Next prev f t \<le> Next prev' f' t"
proof (cases "Next prev f t \<ge> SoftEmergency")
  case True
  have prev': "prev \<ge> SoftEmergency \<Longrightarrow> prev' \<ge> SoftEmergency" using assms(2) by (rule order_trans [rotated])
  have worse: "Next prev' f' t \<ge> SoftEmergency"
    using True prev' assms(3-5) unfolding Next_emergency [OF assms(1)] by (auto simp: short_of_def)
  show ?thesis
  proof (cases "Next prev f t = HardEmergency")
    case hard: True
    then have "Next prev' f' t = HardEmergency" using assms(3-5) by (auto simp: Next_hard short_of_def)
    then show ?thesis by simp
  next
    case False
    then have "Next prev f t = SoftEmergency" using True by simp
    then show ?thesis using worse by simp
  qed
next
  case False
  show ?thesis
  proof (cases "Next prev' f' t \<ge> SoftEmergency")
    case True
    then show ?thesis using False by (meson linear order_trans)
  next
    case ok: False
    have high: "prev \<ge> High \<Longrightarrow> prev' \<ge> High" using assms(2) by (rule order_trans [rotated])
    show ?thesis
      unfolding Next_calm [OF False] Next_calm [OF ok] using high assms(6) by (auto simp: less_eq_level_def)
  qed
qed

theorem worse_facts_worse_level_witness:
  "let t = \<lparr>t_MaxManagedBytes = 100, t_HighPct = 90, t_LowPct = 70, t_SoftFreeBytes = 20, t_HardFreeBytes = 10,
            t_ReserveFreeBytes = 0\<rparr>
   in Next Normal \<lparr>f_FreeBytes = 25, f_FreeInodes = 500000, f_ManagedBytes = 80\<rparr> t
      \<le> Next High \<lparr>f_FreeBytes = 22, f_FreeInodes = 200000, f_ManagedBytes = 80\<rparr> t"
  using worse_facts_worse_level [of "\<lparr>t_MaxManagedBytes = 100, t_HighPct = 90, t_LowPct = 70, t_SoftFreeBytes = 20,
      t_HardFreeBytes = 10, t_ReserveFreeBytes = 0\<rparr>" Normal High
      "\<lparr>f_FreeBytes = 22, f_FreeInodes = 200000, f_ManagedBytes = 80\<rparr>"
      "\<lparr>f_FreeBytes = 25, f_FreeInodes = 500000, f_ManagedBytes = 80\<rparr>"]
  by (simp add: thresholds_ok_def Let_def less_eq_level_def)

end
