(* ===== verification/StoreSchema.thy ===== *)
theory StoreSchema
  imports Prelude
begin

text \<open>
  The durable state of \<^verbatim>\<open>internal/store\<close>: one record per table of
  \<^verbatim>\<open>migrations/\<close> (the generated row types are \<^verbatim>\<open>sqlitedb/models.go\<close>), the closed
  vocabularies of the columns as datatypes, and the way a statement runs.

  A table is the list of its rows in \<^verbatim>\<open>rowid\<close> order.  A statement is a function on
  the store that returns an error or a result; a statement that fails leaves the
  store as it was, which is how SQLite aborts a statement.  A sequence of
  statements keeps what the earlier ones wrote until \<^verbatim>\<open>Tx\<close> rolls back.
  \<^verbatim>\<open>unixepoch()\<close> reads the field \<^verbatim>\<open>st_now\<close>, which the environment sets; random
  identifiers are arguments.
\<close>

section \<open>Vocabularies\<close>

datatype attempt_state =
  AttemptReady | AttemptLeased | AttemptPreparing | AttemptPrepared | AttemptStarting | AttemptRunning
  | AttemptManualReview | AttemptSuperseded | AttemptSettled | AttemptCanceled

datatype evidence =
  EvidenceNotStarted | EvidenceRuntimePrepared | EvidenceStartAuthorized | EvidenceRunningObserved
  | EvidenceExitObserved

datatype resolution =
  ResolutionCompletedObserved | ResolutionStartedObserved | ResolutionMayHaveExecuted
  | ResolutionRemoteCanceled | ResolutionSuperseded

datatype review_reason =
  ReviewReasonStartOutcomeUnknown | ReviewReasonRetryBudgetExhausted | ReviewReasonIncompatibleCapsule

datatype observation =
  NoObservation | ObservedCreated | ObservedNeverStarted | ObservedRunning | ObservedExited | ObservedAbsent
  | ObservedUnavailable

datatype lease_state =
  LeaseReserved | LeaseProvisioning | LeaseRuntimeRegistered | LeaseWorkloadRunning | LeaseDraining | LeaseCleaning
  | LeaseReleased | LeaseFailed | LeaseQuarantined

datatype event_kind =
  EventAttemptCreated | EventLeaseAttached | EventRuntimePrepared | EventStartAuthorized | EventRunningObserved
  | EventExitObserved | EventCleanupCompleted | EventManualReviewRequested | EventOperatorResolved
  | EventAttemptSettled | EventAttemptSuperseded | EventRemoteCanceled

datatype ack_state = AckPending | AckRequestedState | AckConfirmedState | AckUncertainState

datatype resource_kind = ResourceContainer | ResourceNetwork | ResourceVolume

datatype resource_role =
  ResourceRoleCapsule | ResourceRoleGateway | ResourceRoleCapsuleNetwork | ResourceRoleDindData

datatype resource_state =
  ResourcePlanned | ResourceCreating | ResourcePresent | ResourceCleanupPending | ResourceDeleting

section \<open>Rows\<close>

record binding_row =
  pb_id :: binding_id
  pb_target_id :: string
  pb_provider_kind :: string
  pb_source_binding_key :: string

record delivery =
  dl_id :: delivery_id
  dl_binding_id :: binding_id
  dl_key :: string
  dl_payload :: string
  dl_format :: string
  dl_ack :: ack_state
  dl_received_at :: time
  dl_ack_updated_at :: "time option"
  dl_acknowledged_at :: "time option"

record attempt =
  at_id :: attempt_id
  at_delivery_id :: delivery_id
  at_binding_id :: binding_id
  at_workload :: workload_key
  at_tenant :: string
  at_project :: string
  at_state :: attempt_state
  at_evidence :: evidence
  at_resolution :: "resolution option"
  at_review_reason :: "review_reason option"
  at_reviewed_at :: "time option"
  at_reviewed_by :: "string option"
  at_received_at :: time
  at_settled_at :: "time option"

record attempt_event =
  ev_attempt_id :: attempt_id
  ev_key :: string
  ev_kind :: event_kind
  ev_detail :: "(string, string) gomap"
  ev_created_at :: time

record lease =
  ls_id :: lease_id
  ls_binding_id :: binding_id
  ls_attempt_id :: attempt_id
  ls_tier_id :: tier_id
  ls_state :: lease_state
  ls_runtime_name :: "string option"
  ls_start_observation :: "observation option"
  ls_created_at :: time
  ls_updated_at :: time

record intent =
  in_id :: intent_id
  in_lease_id :: lease_id
  in_kind :: resource_kind
  in_role :: resource_role
  in_name :: string
  in_docker_id :: string
  in_state :: resource_state
  in_retries :: int
  in_last_error :: string
  in_not_before :: time
  in_created_at :: time
  in_updated_at :: time

record cache_project =
  cp_id :: string
  cp_source_project_key :: string

record cache_lane =
  cl_id :: string
  cl_project_id :: string
  cl_generation :: string
  cl_leased_by :: "lease_id option"
  cl_last_used :: time

record pressure =
  pr_level :: string
  pr_free_bytes :: int
  pr_free_inodes :: int
  pr_managed_bytes :: int
  pr_measured_at :: time

record audit_entry =
  au_at :: time
  au_actor :: string
  au_action :: string
  au_subject :: string
  au_detail :: string

record store =
  st_bindings :: "binding_row list"
  st_deliveries :: "delivery list"
  st_attempts :: "attempt list"
  st_events :: "attempt_event list"
  st_leases :: "lease list"
  st_intents :: "intent list"
  st_projects :: "cache_project list"
  st_lanes :: "cache_lane list"
  st_pressure :: "pressure option"
  st_audit :: "audit_entry list"
  st_retryBudget :: int
  st_now :: time

section \<open>Running statements\<close>

datatype store_error =
  ErrContractDrift | ErrOpenAttemptExists | ErrConflict | ErrNotFound | ErrInvalidTransition | ErrStateConflict
  | ErrRetryBudgetExhausted | ErrInvalidExecutionObservation | ErrObservationConflict | ErrNoLane | ErrLaneBusy
  | ErrUnsupportedFormat | ErrNoWorkloadKey | ErrBatchSize | ErrPageSize | ErrCursor | ErrResourcesRemain
  | ErrUnique | ErrConstraint | ErrEffect | ErrParse

type_synonym 'a tx = "store \<Rightarrow> (store_error + 'a) \<times> store"

definition ret :: "'a \<Rightarrow> 'a tx"
  where "ret x s = (Inr x, s)"

definition fail :: "store_error \<Rightarrow> 'a tx"
  where "fail e s = (Inl e, s)"

definition andThen :: "'a tx \<Rightarrow> ('a \<Rightarrow> 'b tx) \<Rightarrow> 'b tx"
  where "andThen m f s = (case m s of (Inl e, s') \<Rightarrow> (Inl e, s') | (Inr x, s') \<Rightarrow> f x s')"

text \<open>\<^verbatim>\<open>Store.Tx\<close>: a body that reports an error is rolled back.\<close>

definition Tx :: "'a tx \<Rightarrow> 'a tx"
  where "Tx body s = (case body s of (Inl e, _) \<Rightarrow> (Inl e, s) | (Inr x, s') \<Rightarrow> (Inr x, s'))"

text \<open>\<^verbatim>\<open>mustAffect\<close> and the guards written out at the other compare-and-swaps.\<close>

definition mustAffect :: "store_error \<Rightarrow> nat tx \<Rightarrow> unit tx"
  where "mustAffect e m = andThen m (\<lambda>n. if n = 0 then fail e else ret ())"

fun next_id :: "int list \<Rightarrow> int"
  where "next_id ids = foldr max ids 0 + 1"

section \<open>Table constraints\<close>

definition is_open :: "attempt_state \<Rightarrow> bool"
  where "is_open st \<longleftrightarrow> st \<in> {AttemptReady, AttemptLeased, AttemptPreparing, AttemptPrepared, AttemptStarting,
    AttemptRunning, AttemptManualReview}"

definition one_open_attempt_per_workload :: "attempt list \<Rightarrow> bool"
  where "one_open_attempt_per_workload as \<longleftrightarrow>
    distinct (map (\<lambda>a. (at_binding_id a, at_workload a)) (filter (\<lambda>a. is_open (at_state a)) as))"

definition one_live_lease_per_attempt :: "lease list \<Rightarrow> bool"
  where "one_live_lease_per_attempt ls \<longleftrightarrow>
    distinct (map ls_attempt_id (filter (\<lambda>l. ls_state l \<noteq> LeaseReleased) ls))"

section \<open>Statements on the attempt and lease tables\<close>

text \<open>\<^verbatim>\<open>UPDATE assignment_attempts SET ... WHERE id = ?1 AND ...\<close>, with the partial unique index checked.\<close>

definition update_attempts :: "attempt_id \<Rightarrow> (attempt \<Rightarrow> bool) \<Rightarrow> (attempt \<Rightarrow> attempt) \<Rightarrow> nat tx"
  where "update_attempts i P f s =
    (let as = map (\<lambda>a. if at_id a = i \<and> P a then f a else a) (st_attempts s) in
     if one_open_attempt_per_workload as
     then (Inr (length (filter (\<lambda>a. at_id a = i \<and> P a) (st_attempts s))), s\<lparr>st_attempts := as\<rparr>)
     else (Inl ErrUnique, s))"

definition update_leases :: "lease_id \<Rightarrow> (lease \<Rightarrow> bool) \<Rightarrow> (lease \<Rightarrow> lease) \<Rightarrow> nat tx"
  where "update_leases i P f s =
    (let ls = map (\<lambda>l. if ls_id l = i \<and> P l then f l else l) (st_leases s) in
     if one_live_lease_per_attempt ls
     then (Inr (length (filter (\<lambda>l. ls_id l = i \<and> P l) (st_leases s))), s\<lparr>st_leases := ls\<rparr>)
     else (Inl ErrUnique, s))"

definition find_attempt :: "store \<Rightarrow> attempt_id \<Rightarrow> attempt option"
  where "find_attempt s i = find (\<lambda>a. at_id a = i) (st_attempts s)"

definition find_lease :: "store \<Rightarrow> lease_id \<Rightarrow> lease option"
  where "find_lease s i = find (\<lambda>l. ls_id l = i) (st_leases s)"

section \<open>Reading the helpers\<close>

lemma ret_apply [simp]: "ret x s = (Inr x, s)"
  by (simp add: ret_def)

lemma fail_apply [simp]: "fail e s = (Inl e, s)"
  by (simp add: fail_def)

lemma andThen_split:
  "andThen m f s = (Inr y, s') \<longleftrightarrow> (\<exists>x s1. m s = (Inr x, s1) \<and> f x s1 = (Inr y, s'))"
  by (auto simp: andThen_def split: prod.splits sum.splits)

lemma andThen_Inr [simp]: "m s = (Inr x, s1) \<Longrightarrow> andThen m f s = f x s1"
  by (simp add: andThen_def)

lemma andThen_Inl [simp]: "m s = (Inl e, s1) \<Longrightarrow> andThen m f s = (Inl e, s1)"
  by (simp add: andThen_def)

lemma Tx_Inr: "Tx body s = (Inr x, s') \<longleftrightarrow> body s = (Inr x, s')"
  by (auto simp: Tx_def split: prod.splits sum.splits)

lemma Tx_Inl: "Tx body s = (Inl e, s') \<longleftrightarrow> s' = s \<and> (\<exists>s1. body s = (Inl e, s1))"
  by (auto simp: Tx_def split: prod.splits sum.splits)

lemma mustAffect_Inr: "mustAffect e m s = (Inr u, s') \<longleftrightarrow> (\<exists>n. m s = (Inr n, s') \<and> n \<noteq> 0)"
  by (auto simp: mustAffect_def andThen_split split: if_splits)

end
