(* ===== verification/Assignment.thy ===== *)
theory Assignment
  imports StoreSchema
begin

text \<open>
  The provider-neutral vocabulary of \<^verbatim>\<open>internal/assignment/assignment.go\<close>: workload
  assignments, delivery keys and the two delivery fingerprints.  A Go string is a
  sequence of bytes, here a list of characters.  SHA-256 is not part of the
  program; it is the parameter \<^verbatim>\<open>sha256\<close> of the definitions that call it.
\<close>

section \<open>Assignments\<close>

record workload_assignment =
  wa_SourceWorkloadKey :: workload_key
  wa_TenantKey :: string
  wa_ProjectKey :: string
  wa_SourceRequestID :: "64 word"
  wa_SourceRunID :: "64 word"
  wa_Labels :: "string list"

definition Validate :: "workload_assignment \<Rightarrow> store_error option"
  where "Validate a = (if wa_SourceWorkloadKey a = [] then Some ErrNoWorkloadKey else None)"

definition NewDeliveryKey :: "64 word \<Rightarrow> 64 word \<Rightarrow> string"
  where "NewDeliveryKey sourceQueueID sourceID =
    ''queue-delivery'' @ ''|'' @ decimal (sint sourceQueueID) @ ''|'' @ decimal (sint sourceID)"

section \<open>Fingerprints\<close>

fun join_with :: "string \<Rightarrow> string list \<Rightarrow> string"
  where
    "join_with sep [] = []"
  | "join_with sep [x] = x"
  | "join_with sep (x # y # xs) = x @ sep @ join_with sep (y # xs)"

definition delimited_line :: "workload_assignment \<Rightarrow> string"
  where "delimited_line a =
    wa_SourceWorkloadKey a @ ''|'' @ wa_TenantKey a @ ''|'' @ wa_ProjectKey a @ ''|'' @
    decimal (sint (wa_SourceRequestID a)) @ ''|'' @ decimal (sint (wa_SourceRunID a)) @ ''|'' @
    join_with '','' (sort (wa_Labels a))"

definition fingerprintDelimited :: "(string \<Rightarrow> string) \<Rightarrow> workload_assignment list \<Rightarrow> string"
  where "fingerprintDelimited sha256 assignments =
    sha256 (join_with [CHR 0x0A] (sort (map delimited_line assignments)))"

text \<open>\<^verbatim>\<open>binary.BigEndian.AppendUint64\<close>: eight bytes, most significant first.\<close>

fun big_endian :: "nat \<Rightarrow> nat \<Rightarrow> string"
  where
    "big_endian 0 n = []"
  | "big_endian (Suc k) n = big_endian k (n div 256) @ [char_of (n mod 256)]"

definition be64 :: "64 word \<Rightarrow> string"
  where "be64 w = big_endian 8 (unat w)"

definition lengthPrefixed :: "string \<Rightarrow> string"
  where "lengthPrefixed value = be64 (of_nat (length value)) @ value"

definition canonical_record :: "workload_assignment \<Rightarrow> string"
  where "canonical_record a =
    lengthPrefixed (wa_SourceWorkloadKey a) @ lengthPrefixed (wa_TenantKey a) @ lengthPrefixed (wa_ProjectKey a) @
    be64 (wa_SourceRequestID a) @ be64 (wa_SourceRunID a) @
    be64 (of_nat (length (wa_Labels a))) @ concat (map lengthPrefixed (sort (wa_Labels a)))"

definition canonicalFingerprintDomain :: string
  where "canonicalFingerprintDomain = ''runpool.delivery-fingerprint.length-prefixed'' @ [CHR 0x00]"

definition canonicalFingerprintPreimage :: "workload_assignment list \<Rightarrow> string"
  where "canonicalFingerprintPreimage assignments =
    (let records = sort (map canonical_record assignments)
     in canonicalFingerprintDomain @ be64 (of_nat (length records)) @ concat (map lengthPrefixed records))"

definition FingerprintFormatDelimiterSeparatedSHA256 :: string
  where "FingerprintFormatDelimiterSeparatedSHA256 = ''delimiter-separated-sha256''"

definition FingerprintFormatLengthPrefixedSHA256 :: string
  where "FingerprintFormatLengthPrefixedSHA256 = ''length-prefixed-sha256''"

definition DeliveryFingerprintForFormat ::
  "(string \<Rightarrow> string) \<Rightarrow> workload_assignment list \<Rightarrow> string \<Rightarrow> string option"
  where "DeliveryFingerprintForFormat sha256 assignments format =
    (if format = FingerprintFormatDelimiterSeparatedSHA256 then Some (fingerprintDelimited sha256 assignments)
     else if format = FingerprintFormatLengthPrefixedSHA256
     then Some (sha256 (canonicalFingerprintPreimage assignments))
     else None)"

definition CurrentDeliveryFingerprint :: "(string \<Rightarrow> string) \<Rightarrow> workload_assignment list \<Rightarrow> string \<times> string"
  where "CurrentDeliveryFingerprint sha256 assignments =
    (FingerprintFormatLengthPrefixedSHA256, sha256 (canonicalFingerprintPreimage assignments))"

section \<open>Observations\<close>

definition Establishes :: "observation \<Rightarrow> bool"
  where "Establishes obs \<longleftrightarrow> obs \<in> {ObservedCreated, ObservedNeverStarted, ObservedRunning, ObservedExited}"

section \<open>The big-endian encoding\<close>

lemma length_big_endian: "length (big_endian k n) = k"
  by (induction k n rule: big_endian.induct) simp_all

lemma length_be64 [simp]: "length (be64 w) = 8"
  by (simp add: be64_def length_big_endian)

definition read_big_endian :: "string \<Rightarrow> nat"
  where "read_big_endian s = foldl (\<lambda>n c. n * 256 + of_char c) 0 s"

lemma read_big_endian: "read_big_endian (big_endian k n) = n mod 256 ^ k"
proof (induction k n rule: big_endian.induct)
  case (2 k n)
  have "n mod 256 ^ Suc k = n div 256 mod 256 ^ k * 256 + n mod 256"
    by (simp add: mod_mult2_eq mult.commute)
  with 2 show ?case by (simp add: read_big_endian_def)
qed (simp add: read_big_endian_def)

lemma read_be64: "read_big_endian (be64 w) = unat w"
proof -
  have "(unsigned w :: nat) < 2 ^ LENGTH(64)" by (rule unsigned_less)
  then show ?thesis by (simp add: be64_def read_big_endian)
qed

lemma be64_inject [simp]: "be64 v = be64 w \<longleftrightarrow> v = w"
  by (metis read_be64 unsigned_word_eqI)

text \<open>Each encoder is a prefix code: what follows it can be read off.\<close>

lemma be64_prefix: "be64 v @ xs = be64 w @ ys \<longleftrightarrow> v = w \<and> xs = ys"
  by (simp add: append_eq_append_conv)

definition short :: "'a list \<Rightarrow> bool"
  where "short xs \<longleftrightarrow> length xs < 2 ^ 64"

lemma unat_short: "short xs \<Longrightarrow> unat (of_nat (length xs) :: 64 word) = length xs"
  by (simp add: short_def unat_of_nat)

lemma of_nat_short:
  "short xs \<Longrightarrow> short ys \<Longrightarrow> (of_nat (length xs) :: 64 word) = of_nat (length ys) \<longleftrightarrow> length xs = length ys"
  by (metis unat_short)

lemma lengthPrefixed_prefix:
  assumes "short v" "short w"
  shows "lengthPrefixed v @ xs = lengthPrefixed w @ ys \<longleftrightarrow> v = w \<and> xs = ys"
  using assms by (auto simp: lengthPrefixed_def be64_prefix of_nat_short append_eq_append_conv)

lemma concat_lengthPrefixed_prefix:
  assumes "length vs = length ws" "list_all short vs" "list_all short ws"
    "concat (map lengthPrefixed vs) @ xs = concat (map lengthPrefixed ws) @ ys"
  shows "vs = ws \<and> xs = ys"
  using assms
proof (induction vs ws rule: list_induct2)
  case (Cons v vs w ws)
  then have "lengthPrefixed v @ concat (map lengthPrefixed vs) @ xs = lengthPrefixed w @ concat (map lengthPrefixed ws) @ ys"
    by simp
  then have "v = w" "concat (map lengthPrefixed vs) @ xs = concat (map lengthPrefixed ws) @ ys"
    using lengthPrefixed_prefix Cons.prems by auto
  then show ?case using Cons by simp
qed simp

section \<open>What a fingerprint identifies\<close>

text \<open>Assignments are compared up to the order of their labels.\<close>

definition normal_labels :: "workload_assignment \<Rightarrow> workload_assignment"
  where "normal_labels a = a\<lparr>wa_Labels := sort (wa_Labels a)\<rparr>"

definition encodable :: "workload_assignment \<Rightarrow> bool"
  where "encodable a \<longleftrightarrow> short (wa_SourceWorkloadKey a) \<and> short (wa_TenantKey a) \<and> short (wa_ProjectKey a) \<and>
    short (wa_Labels a) \<and> list_all short (wa_Labels a) \<and> short (canonical_record a)"

lemma canonical_record_normal: "canonical_record (normal_labels a) = canonical_record a"
  by (simp add: canonical_record_def normal_labels_def sorted_sort_id)

lemma canonical_record_inject:
  assumes a: "encodable a" and b: "encodable b" and eq: "canonical_record a = canonical_record b"
  shows "normal_labels a = normal_labels b"
proof -
  from eq a b have fields: "wa_SourceWorkloadKey a = wa_SourceWorkloadKey b" "wa_TenantKey a = wa_TenantKey b"
    "wa_ProjectKey a = wa_ProjectKey b" "wa_SourceRequestID a = wa_SourceRequestID b"
    "wa_SourceRunID a = wa_SourceRunID b" "length (wa_Labels a) = length (wa_Labels b)"
    and rest: "concat (map lengthPrefixed (sort (wa_Labels a))) = concat (map lengthPrefixed (sort (wa_Labels b)))"
    by (auto simp: canonical_record_def lengthPrefixed_prefix be64_prefix encodable_def of_nat_short)
  have "sort (wa_Labels a) = sort (wa_Labels b)"
    using concat_lengthPrefixed_prefix [of "sort (wa_Labels a)" "sort (wa_Labels b)" "[]" "[]"] rest fields(6) a b
    by (simp add: encodable_def list_all_iff)
  with fields show ?thesis by (simp add: normal_labels_def)
qed

lemma image_mset_inj_on:
  assumes "image_mset f M = image_mset f N" "inj_on f (set_mset M \<union> set_mset N)"
  shows "M = N"
proof -
  let ?g = "inv_into (set_mset M \<union> set_mset N) f"
  have "image_mset (\<lambda>x. ?g (f x)) K = K" if "set_mset K \<subseteq> set_mset M \<union> set_mset N" for K
    using that assms(2) by (auto intro!: image_mset_cong [where g = "\<lambda>x. x", simplified] inv_into_f_f)
  then have "image_mset ?g (image_mset f M) = M" "image_mset ?g (image_mset f N) = N"
    by (simp_all add: image_mset.compositionality o_def)
  then show ?thesis using assms(1) by metis
qed

lemma preimage_records:
  assumes "short xs" "short ys" "list_all encodable xs" "list_all encodable ys"
    "canonicalFingerprintPreimage xs = canonicalFingerprintPreimage ys"
  shows "sort (map canonical_record xs) = sort (map canonical_record ys)"
proof -
  have "length xs = length ys"
    using assms(1,2,5) by (auto simp: canonicalFingerprintPreimage_def Let_def be64_prefix of_nat_short)
  moreover have "concat (map lengthPrefixed (sort (map canonical_record xs))) =
      concat (map lengthPrefixed (sort (map canonical_record ys)))"
    using assms(5) by (simp add: canonicalFingerprintPreimage_def Let_def be64_prefix)
  ultimately show ?thesis
    using concat_lengthPrefixed_prefix [of "sort (map canonical_record xs)" "sort (map canonical_record ys)" "[]" "[]"]
      assms(3,4) by (simp add: list_all_iff encodable_def)
qed

text \<open>C35. The length-prefixed encoding of a delivery is unambiguous and order-insensitive: two deliveries have the same
  fingerprint preimage exactly when they carry the same assignments, up to the order of the assignments and of each
  assignment's labels.\<close>

theorem fingerprint_preimage_faithful:
  assumes "short xs" "short ys" "list_all encodable xs" "list_all encodable ys"
  shows "canonicalFingerprintPreimage xs = canonicalFingerprintPreimage ys \<longleftrightarrow>
    mset (map normal_labels xs) = mset (map normal_labels ys)"
proof
  assume "canonicalFingerprintPreimage xs = canonicalFingerprintPreimage ys"
  then have "mset (map canonical_record xs) = mset (map canonical_record ys)"
    using arg_cong [OF preimage_records [OF assms], of mset] by simp
  then have "image_mset canonical_record (mset (map normal_labels xs)) = image_mset canonical_record (mset (map normal_labels ys))"
    by (simp add: image_mset.compositionality o_def canonical_record_normal)
  moreover have "inj_on canonical_record (set_mset (mset (map normal_labels xs)) \<union> set_mset (mset (map normal_labels ys)))"
  proof (rule inj_onI)
    fix u v
    assume u: "u \<in> set_mset (mset (map normal_labels xs)) \<union> set_mset (mset (map normal_labels ys))"
      and v: "v \<in> set_mset (mset (map normal_labels xs)) \<union> set_mset (mset (map normal_labels ys))"
      and eq: "canonical_record u = canonical_record v"
    from u v obtain a b where ab: "u = normal_labels a" "v = normal_labels b" "a \<in> set xs \<union> set ys" "b \<in> set xs \<union> set ys"
      by auto
    then have "encodable a" "encodable b" using assms(3,4) by (auto simp: list_all_iff)
    moreover have "canonical_record a = canonical_record b" using eq by (simp add: ab canonical_record_normal)
    ultimately show "u = v" unfolding ab by (rule canonical_record_inject)
  qed
  ultimately show "mset (map normal_labels xs) = mset (map normal_labels ys)" by (rule image_mset_inj_on)
next
  assume eq: "mset (map normal_labels xs) = mset (map normal_labels ys)"
  have "mset (map canonical_record xs) = mset (map canonical_record ys)"
    using arg_cong [OF eq, of "image_mset canonical_record"]
    by (simp add: image_mset.compositionality o_def canonical_record_normal)
  then have "sort (map canonical_record xs) = sort (map canonical_record ys)"
    by (intro properties_for_sort) simp_all
  moreover have "length xs = length ys" using mset_eq_length [OF eq] by simp
  ultimately show "canonicalFingerprintPreimage xs = canonicalFingerprintPreimage ys"
    by (simp add: canonicalFingerprintPreimage_def Let_def)
qed

definition demo_assignment :: "string \<Rightarrow> string list \<Rightarrow> workload_assignment"
  where "demo_assignment key labels = \<lparr>wa_SourceWorkloadKey = key, wa_TenantKey = ''t'', wa_ProjectKey = ''p'',
    wa_SourceRequestID = 1, wa_SourceRunID = 2, wa_Labels = labels\<rparr>"

lemma demo_encodable: "encodable (demo_assignment ''j1'' [''x'', ''y''])" "encodable (demo_assignment ''j1'' [''y'', ''x''])"
  by (simp_all add: encodable_def demo_assignment_def short_def canonical_record_def lengthPrefixed_def)

theorem fingerprint_preimage_faithful_witness:
  "canonicalFingerprintPreimage [demo_assignment ''j1'' [''x'', ''y'']] =
   canonicalFingerprintPreimage [demo_assignment ''j1'' [''y'', ''x'']]"
proof -
  have "normal_labels (demo_assignment ''j1'' [''x'', ''y'']) = normal_labels (demo_assignment ''j1'' [''y'', ''x''])"
    by code_simp
  then show ?thesis
    using fingerprint_preimage_faithful [of "[demo_assignment ''j1'' [''x'', ''y'']]" "[demo_assignment ''j1'' [''y'', ''x'']]"]
    by (simp add: demo_encodable short_def)
qed

text \<open>A delivery key identifies one delivery of one queue: distinct queue or delivery ids never share a key.\<close>

theorem delivery_key_injective: "NewDeliveryKey q d = NewDeliveryKey q' d' \<longleftrightarrow> q = q' \<and> d = d'"
proof
  assume "NewDeliveryKey q d = NewDeliveryKey q' d'"
  then have "decimal (sint q) @ CHR ''|'' # decimal (sint d) = decimal (sint q') @ CHR ''|'' # decimal (sint d')"
    by (simp add: NewDeliveryKey_def)
  from append_sep_inject [OF decimal_no_bar decimal_no_bar this] show "q = q' \<and> d = d'"
    by (auto intro: signed_word_eqI)
qed simp

end
