(* ===== verification/StoreAttempts.thy ===== *)
theory StoreAttempts
  imports Assignment
begin

text \<open>
  The attempt machine of \<^verbatim>\<open>internal/store\<close>: deliveries and attempts
  (\<^verbatim>\<open>assignment_repository.go\<close>), evidence (\<^verbatim>\<open>evidence.go\<close>), serving
  (\<^verbatim>\<open>serving.go\<close>) and the statements they run (\<^verbatim>\<open>sqlitedb/attempts.sql.go\<close>,
  \<^verbatim>\<open>deliveries.sql.go\<close>, \<^verbatim>\<open>attempt_events.sql.go\<close>, \<^verbatim>\<open>reconciliation.sql.go\<close>).
  The JSON detail of an event is kept as the map it encodes.
\<close>

section \<open>Events\<close>

fun kind_str :: "event_kind \<Rightarrow> string"
  where
    "kind_str EventAttemptCreated = ''attempt_created''"
  | "kind_str EventLeaseAttached = ''lease_attached''"
  | "kind_str EventRuntimePrepared = ''runtime_prepared''"
  | "kind_str EventStartAuthorized = ''execution_start_authorized''"
  | "kind_str EventRunningObserved = ''running_observed''"
  | "kind_str EventExitObserved = ''exit_observed''"
  | "kind_str EventCleanupCompleted = ''cleanup_completed''"
  | "kind_str EventManualReviewRequested = ''manual_review_requested''"
  | "kind_str EventOperatorResolved = ''operator_resolved''"
  | "kind_str EventAttemptSettled = ''attempt_settled''"
  | "kind_str EventAttemptSuperseded = ''attempt_superseded''"
  | "kind_str EventRemoteCanceled = ''remote_canceled''"

definition has_event :: "store \<Rightarrow> attempt_id \<Rightarrow> string \<Rightarrow> bool"
  where "has_event s i key = list_ex (\<lambda>e. ev_attempt_id e = i \<and> ev_key e = key) (st_events s)"

definition append_event :: "attempt_id \<Rightarrow> string \<Rightarrow> event_kind \<Rightarrow> (string, string) gomap \<Rightarrow> store \<Rightarrow> store"
  where "append_event i key kind detail s = s\<lparr>st_events := st_events s @
    [\<lparr>ev_attempt_id = i, ev_key = key, ev_kind = kind, ev_detail = detail, ev_created_at = st_now s\<rparr>]\<rparr>"

definition InsertAttemptEvent :: "attempt_id \<Rightarrow> string \<Rightarrow> event_kind \<Rightarrow> (string, string) gomap \<Rightarrow> nat tx"
  where "InsertAttemptEvent i key kind detail s =
    (if has_event s i key then (Inr 0, s)
     else if find_attempt s i = None then (Inl ErrConstraint, s)
     else (Inr 1, append_event i key kind detail s))"

definition InsertSequencedAttemptEvent :: "attempt_id \<Rightarrow> event_kind \<Rightarrow> (string, string) gomap \<Rightarrow> nat tx"
  where "InsertSequencedAttemptEvent i kind detail s =
    (let prior = length (filter (\<lambda>e. ev_attempt_id e = i \<and> ev_kind e = kind) (st_events s));
         key = kind_str kind @ '':'' @ decimal (int prior)
     in if has_event s i key then (Inl ErrUnique, s)
        else if find_attempt s i = None then (Inl ErrConstraint, s)
        else (Inr 1, append_event i key kind detail s))"

definition RecordEvent :: "attempt_id \<Rightarrow> string \<Rightarrow> event_kind \<Rightarrow> unit tx"
  where "RecordEvent i key kind = andThen (InsertAttemptEvent i key kind []) (\<lambda>_. ret ())"

definition RecordEventDetail :: "attempt_id \<Rightarrow> string \<Rightarrow> event_kind \<Rightarrow> (string, string) gomap \<Rightarrow> unit tx"
  where "RecordEventDetail i key kind detail = andThen (InsertAttemptEvent i key kind detail) (\<lambda>_. ret ())"

definition RecordRepeatableEvent :: "attempt_id \<Rightarrow> event_kind \<Rightarrow> (string, string) gomap \<Rightarrow> unit tx"
  where "RecordRepeatableEvent i kind detail = andThen (InsertSequencedAttemptEvent i kind detail) (\<lambda>_. ret ())"

definition Events :: "store \<Rightarrow> attempt_id \<Rightarrow> attempt_event list"
  where "Events s i = filter (\<lambda>e. ev_attempt_id e = i) (st_events s)"

section \<open>Evidence\<close>

fun evidence_str :: "evidence \<Rightarrow> string"
  where
    "evidence_str EvidenceNotStarted = ''not_started''"
  | "evidence_str EvidenceRuntimePrepared = ''runtime_prepared''"
  | "evidence_str EvidenceStartAuthorized = ''execution_start_authorized''"
  | "evidence_str EvidenceRunningObserved = ''running_observed''"
  | "evidence_str EvidenceExitObserved = ''exit_observed''"

definition evidenceStates :: "evidence list"
  where "evidenceStates = [EvidenceNotStarted, EvidenceRuntimePrepared, EvidenceStartAuthorized,
    EvidenceRunningObserved, EvidenceExitObserved]"

definition as_evidence :: "string \<Rightarrow> evidence option"
  where "as_evidence e = find (\<lambda>x. evidence_str x = e) evidenceStates"

fun evidenceRank :: "evidence \<Rightarrow> nat"
  where
    "evidenceRank EvidenceNotStarted = 0"
  | "evidenceRank EvidenceRuntimePrepared = 1"
  | "evidenceRank EvidenceStartAuthorized = 2"
  | "evidenceRank EvidenceRunningObserved = 3"
  | "evidenceRank EvidenceExitObserved = 4"

definition Retriable :: "evidence \<Rightarrow> bool"
  where "Retriable e \<longleftrightarrow> e = EvidenceNotStarted \<or> e = EvidenceRuntimePrepared"

text \<open>The empty kind of the source's last line is out of reach: nothing advances to the first rung.\<close>

fun eventKindOf :: "evidence \<Rightarrow> event_kind option"
  where
    "eventKindOf EvidenceRuntimePrepared = Some EventRuntimePrepared"
  | "eventKindOf EvidenceStartAuthorized = Some EventStartAuthorized"
  | "eventKindOf EvidenceRunningObserved = Some EventRunningObserved"
  | "eventKindOf EvidenceExitObserved = Some EventExitObserved"
  | "eventKindOf EvidenceNotStarted = None"

definition Get :: "attempt_id \<Rightarrow> attempt tx"
  where "Get i s = (case find_attempt s i of None \<Rightarrow> (Inl ErrNotFound, s) | Some a \<Rightarrow> (Inr a, s))"

definition RecordAttemptEvidence :: "evidence \<Rightarrow> attempt_id \<Rightarrow> evidence \<Rightarrow> nat tx"
  where "RecordAttemptEvidence nxt i current =
    update_attempts i (\<lambda>a. at_evidence a = current) (\<lambda>a. a\<lparr>at_evidence := nxt\<rparr>)"

text \<open>
  Evidence is a string in the source and any string can be asked for.  A stored
  value is inside the vocabulary by its column's constraint, so the branch for a
  corrupt row has no counterpart.
\<close>

definition RecordEvidence :: "attempt_id \<Rightarrow> string \<Rightarrow> unit tx"
  where "RecordEvidence i ev =
    (case as_evidence ev of None \<Rightarrow> fail ErrInvalidExecutionObservation
     | Some e \<Rightarrow>
        andThen (Get i) (\<lambda>a.
          let current = at_evidence a in
          if e = current then ret ()
          else if evidenceRank e < evidenceRank current then fail ErrObservationConflict
          else
            andThen (mustAffect ErrObservationConflict (RecordAttemptEvidence e i current)) (\<lambda>_.
              case eventKindOf e of None \<Rightarrow> fail ErrConstraint
              | Some kind \<Rightarrow> RecordEventDetail i (''evidence:'' @ evidence_str e) kind [(''observer'', ''controller'')])))"

section \<open>Deliveries\<close>

record workload_row =
  wr_SourceWorkloadKey :: workload_key
  wr_TenantKey :: string
  wr_ProjectKey :: string

definition GetDeliveryByKey :: "store \<Rightarrow> binding_id \<Rightarrow> string \<Rightarrow> delivery option"
  where "GetDeliveryByKey s b key = find (\<lambda>d. dl_binding_id d = b \<and> dl_key d = key) (st_deliveries s)"

definition InsertDelivery :: "binding_id \<Rightarrow> string \<Rightarrow> string \<Rightarrow> string \<Rightarrow> delivery tx"
  where "InsertDelivery b key payload format s =
    (let d = \<lparr>dl_id = next_id (map dl_id (st_deliveries s)), dl_binding_id = b, dl_key = key, dl_payload = payload,
              dl_format = format, dl_ack = AckPending, dl_received_at = st_now s, dl_ack_updated_at = None,
              dl_acknowledged_at = None\<rparr>
     in if key = [] \<or> length payload \<noteq> 32 then (Inl ErrConstraint, s)
        else if GetDeliveryByKey s b key \<noteq> None then (Inl ErrUnique, s)
        else if b \<notin> set (map pb_id (st_bindings s)) then (Inl ErrConstraint, s)
        else (Inr d, s\<lparr>st_deliveries := st_deliveries s @ [d]\<rparr>))"

definition new_attempt :: "attempt_id \<Rightarrow> delivery \<Rightarrow> workload_row \<Rightarrow> time \<Rightarrow> attempt"
  where "new_attempt i d w now = \<lparr>at_id = i, at_delivery_id = dl_id d, at_binding_id = dl_binding_id d,
    at_workload = wr_SourceWorkloadKey w, at_tenant = wr_TenantKey w, at_project = wr_ProjectKey w,
    at_state = AttemptReady, at_evidence = EvidenceNotStarted, at_resolution = None, at_review_reason = None,
    at_reviewed_at = None, at_reviewed_by = None, at_received_at = now, at_settled_at = None\<rparr>"

definition InsertAttempt :: "attempt_id \<Rightarrow> delivery \<Rightarrow> workload_row \<Rightarrow> nat tx"
  where "InsertAttempt i d w s =
    (let a = new_attempt i d w (st_now s) in
     if list_ex (\<lambda>a. at_delivery_id a = dl_id d \<and> at_workload a = wr_SourceWorkloadKey w) (st_attempts s)
     then (Inr 0, s)
     else if wr_SourceWorkloadKey w = [] then (Inl ErrConstraint, s)
     else if find_attempt s i \<noteq> None then (Inl ErrConstraint, s)
     else if \<not> one_open_attempt_per_workload (st_attempts s @ [a]) then (Inl ErrUnique, s)
     else (Inr 1, s\<lparr>st_attempts := st_attempts s @ [a]\<rparr>))"

definition insertAttempt :: "attempt_id \<Rightarrow> delivery \<Rightarrow> workload_row \<Rightarrow> unit tx"
  where "insertAttempt i d w s =
    (case InsertAttempt i d w s of
       (Inl e, s') \<Rightarrow> (Inl (if e = ErrUnique then ErrOpenAttemptExists else e), s')
     | (Inr n, s') \<Rightarrow>
        if n = 0 then (Inr (), s') else RecordEvent i ''attempt_created'' EventAttemptCreated s')"

text \<open>The loop over the workloads; each one draws a fresh identifier, and running out of them stands for
  \<^verbatim>\<open>newAttemptID\<close> failing.\<close>

fun insertAttempts :: "attempt_id list \<Rightarrow> delivery \<Rightarrow> workload_row list \<Rightarrow> unit tx"
  where
    "insertAttempts ids d [] = ret ()"
  | "insertAttempts ids d (w # ws) =
      (if wr_SourceWorkloadKey w = [] then fail ErrNoWorkloadKey
       else case ids of [] \<Rightarrow> fail ErrEffect
         | i # ids \<Rightarrow> andThen (insertAttempt i d w) (\<lambda>_. insertAttempts ids d ws))"

text \<open>The first half of \<^verbatim>\<open>RecordDelivery\<close>: the stored delivery when its fingerprint agrees, else a new one.\<close>

definition recorded_delivery ::
  "(string \<Rightarrow> string) \<Rightarrow> binding_id \<Rightarrow> string \<Rightarrow> workload_assignment list \<Rightarrow> delivery tx"
  where "recorded_delivery sha256 b key assigned s =
    (case GetDeliveryByKey s b key of
       Some d \<Rightarrow>
         (case DeliveryFingerprintForFormat sha256 assigned (dl_format d) of
            None \<Rightarrow> (Inl ErrUnsupportedFormat, s)
          | Some expected \<Rightarrow> if dl_payload d \<noteq> expected then (Inl ErrContractDrift, s) else (Inr d, s))
     | None \<Rightarrow>
         (let (format, fingerprint) = CurrentDeliveryFingerprint sha256 assigned
          in InsertDelivery b key fingerprint format s))"

text \<open>The delivery id travels with the error, so the result is the id, an optional error and the store.\<close>

definition RecordDelivery ::
  "(string \<Rightarrow> string) \<Rightarrow> attempt_id list \<Rightarrow> binding_id \<Rightarrow> string \<Rightarrow> workload_assignment list \<Rightarrow> workload_row list \<Rightarrow>
   store \<Rightarrow> (delivery_id \<times> store_error option) \<times> store"
  where "RecordDelivery sha256 ids b key assigned workloads s =
    (case recorded_delivery sha256 b key assigned s of
       (Inl e, s') \<Rightarrow> ((0, Some e), s')
     | (Inr d, s') \<Rightarrow>
         (case insertAttempts ids d workloads s' of
            (Inl e, s'') \<Rightarrow> ((dl_id d, Some e), s'')
          | (Inr _, s'') \<Rightarrow> ((dl_id d, None), s'')))"

definition OpenAttemptByWorkload :: "binding_id \<Rightarrow> workload_key \<Rightarrow> attempt tx"
  where "OpenAttemptByWorkload b w s =
    (case find (\<lambda>a. at_binding_id a = b \<and> at_workload a = w \<and> is_open (at_state a)) (st_attempts s) of
       None \<Rightarrow> (Inl ErrNotFound, s) | Some a \<Rightarrow> (Inr a, s))"

definition SupersedeAttempt :: "resolution option \<Rightarrow> attempt_id \<Rightarrow> nat tx"
  where "SupersedeAttempt res i s = update_attempts i
    (\<lambda>a. at_state a \<in> {AttemptReady, AttemptLeased, AttemptPreparing, AttemptPrepared, AttemptManualReview} \<and>
         Retriable (at_evidence a))
    (\<lambda>a. a\<lparr>at_state := AttemptSuperseded, at_resolution := res, at_settled_at := Some (st_now s)\<rparr>) s"

definition SupersedeOpenAttempt ::
  "binding_id \<Rightarrow> workload_key \<Rightarrow> resolution option \<Rightarrow> delivery_id \<Rightarrow> unit tx"
  where "SupersedeOpenAttempt b w res exceptDelivery =
    andThen (OpenAttemptByWorkload b w) (\<lambda>a.
      if at_delivery_id a = exceptDelivery then fail ErrNotFound
      else andThen (mustAffect ErrConflict (SupersedeAttempt res (at_id a))) (\<lambda>_.
        RecordEvent (at_id a) ''attempt_superseded'' EventAttemptSuperseded))"

section \<open>Acknowledgements\<close>

definition update_deliveries :: "delivery_id \<Rightarrow> (delivery \<Rightarrow> bool) \<Rightarrow> (delivery \<Rightarrow> delivery) \<Rightarrow> nat tx"
  where "update_deliveries i P f s =
    (Inr (length (filter (\<lambda>d. dl_id d = i \<and> P d) (st_deliveries s))),
     s\<lparr>st_deliveries := map (\<lambda>d. if dl_id d = i \<and> P d then f d else d) (st_deliveries s)\<rparr>)"

definition AckRequested :: "delivery_id \<Rightarrow> bool tx"
  where "AckRequested i s = andThen (update_deliveries i
    (\<lambda>d. dl_ack d \<in> {AckPending, AckRequestedState, AckUncertainState})
    (\<lambda>d. d\<lparr>dl_ack := AckRequestedState, dl_ack_updated_at := Some (st_now s)\<rparr>)) (\<lambda>n. ret (n > 0)) s"

definition AckConfirmed :: "delivery_id \<Rightarrow> unit tx"
  where "AckConfirmed i s = andThen (update_deliveries i
    (\<lambda>d. dl_ack d \<in> {AckPending, AckRequestedState, AckUncertainState})
    (\<lambda>d. d\<lparr>dl_ack := AckConfirmedState, dl_ack_updated_at := Some (st_now s),
           dl_acknowledged_at := Some (st_now s)\<rparr>)) (\<lambda>_. ret ()) s"

definition AckUncertain :: "delivery_id \<Rightarrow> unit tx"
  where "AckUncertain i s = andThen (update_deliveries i
    (\<lambda>d. dl_ack d \<in> {AckPending, AckRequestedState})
    (\<lambda>d. d\<lparr>dl_ack := AckUncertainState, dl_ack_updated_at := Some (st_now s)\<rparr>)) (\<lambda>_. ret ()) s"

end
