(* ===== verification/StoreServing.thy ===== *)
theory StoreServing
  imports StoreAttempts
begin

text \<open>
  Serving an attempt: the queue queries, the walk, the requeues with their retry
  budget, review, settlement and cancellation of \<^verbatim>\<open>internal/store/serving.go\<close>,
  and the lease transactions of \<^verbatim>\<open>lease.go\<close> and \<^verbatim>\<open>leasetx.go\<close>.
\<close>

section \<open>The queue\<close>

definition fifo :: "attempt list \<Rightarrow> attempt list"
  where "fifo = sort_key (\<lambda>a. (at_received_at a, at_id a))"

definition AllReadyAttempts :: "store \<Rightarrow> binding_id \<Rightarrow> attempt list"
  where "AllReadyAttempts s b =
    fifo (filter (\<lambda>a. at_binding_id a = b \<and> at_state a = AttemptReady) (st_attempts s))"

definition ReadyAttemptBatch :: "binding_id \<Rightarrow> int \<Rightarrow> attempt list tx"
  where "ReadyAttemptBatch b batchSize s =
    (if batchSize < 1 then (Inl ErrBatchSize, s)
     else (Inr (take (nat batchSize) (AllReadyAttempts s b)), s))"

definition CountReadyAttempts :: "store \<Rightarrow> binding_id \<Rightarrow> nat"
  where "CountReadyAttempts s b =
    length (filter (\<lambda>a. at_binding_id a = b \<and> at_state a = AttemptReady) (st_attempts s))"

definition AttemptsOfDelivery :: "store \<Rightarrow> delivery_id \<Rightarrow> attempt list"
  where "AttemptsOfDelivery s d = fifo (filter (\<lambda>a. at_delivery_id a = d) (st_attempts s))"

definition MaxAttemptPageSize :: int
  where "MaxAttemptPageSize = 1000"

record attempt_cursor =
  ac_ReceivedAt :: time
  ac_ID :: attempt_id

record attempt_page =
  pg_Attempts :: "attempt list"
  pg_Total :: nat
  pg_Next :: "attempt_cursor option"

definition attemptPagePosition :: "attempt_cursor option \<Rightarrow> int \<Rightarrow> store_error + (time \<times> attempt_id)"
  where "attemptPagePosition cursor pageSize =
    (if pageSize < 1 \<or> pageSize > MaxAttemptPageSize then Inl ErrPageSize
     else case cursor of None \<Rightarrow> Inr (0, [])
       | Some c \<Rightarrow> if ac_ID c = [] then Inl ErrCursor
                  else if ac_ReceivedAt c < 0 then Inl ErrCursor
                  else Inr (ac_ReceivedAt c, ac_ID c))"

definition newAttemptPage :: "attempt list \<Rightarrow> nat \<Rightarrow> nat \<Rightarrow> attempt_page"
  where "newAttemptPage rows depth pageSize =
    (let hasMore = length rows > pageSize;
         rows = (if hasMore then take pageSize rows else rows)
     in \<lparr>pg_Attempts = rows, pg_Total = depth,
         pg_Next = (if hasMore then Some \<lparr>ac_ReceivedAt = at_received_at (last rows), ac_ID = at_id (last rows)\<rparr>
                    else None)\<rparr>)"

definition pageOf :: "attempt_state \<Rightarrow> attempt_cursor option \<Rightarrow> int \<Rightarrow> attempt_page tx"
  where "pageOf st cursor pageSize s =
    (case attemptPagePosition cursor pageSize of
       Inl e \<Rightarrow> (Inl e, s)
     | Inr (afterReceivedAt, afterID) \<Rightarrow>
        (let rows = take (nat pageSize + 1) (fifo (filter (\<lambda>a. at_state a = st \<and>
               (at_received_at a > afterReceivedAt \<or> at_received_at a = afterReceivedAt \<and> at_id a > afterID))
               (st_attempts s)));
             depth = length (filter (\<lambda>a. at_state a = st) (st_attempts s))
         in (Inr (newAttemptPage rows depth (nat pageSize)), s)))"

definition ReadyAttemptPage :: "attempt_cursor option \<Rightarrow> int \<Rightarrow> attempt_page tx"
  where "ReadyAttemptPage = pageOf AttemptReady"

definition ManualReviewAttemptPage :: "attempt_cursor option \<Rightarrow> int \<Rightarrow> attempt_page tx"
  where "ManualReviewAttemptPage = pageOf AttemptManualReview"

section \<open>Leases\<close>

fun lease_transitions :: "lease_state \<Rightarrow> lease_state list"
  where
    "lease_transitions LeaseReserved = [LeaseProvisioning, LeaseFailed]"
  | "lease_transitions LeaseProvisioning = [LeaseRuntimeRegistered, LeaseFailed]"
  | "lease_transitions LeaseRuntimeRegistered = [LeaseWorkloadRunning, LeaseDraining, LeaseFailed]"
  | "lease_transitions LeaseWorkloadRunning = [LeaseDraining, LeaseFailed]"
  | "lease_transitions LeaseDraining = [LeaseCleaning, LeaseFailed]"
  | "lease_transitions LeaseCleaning = [LeaseReleased, LeaseQuarantined]"
  | "lease_transitions LeaseFailed = [LeaseCleaning]"
  | "lease_transitions LeaseQuarantined = [LeaseCleaning]"
  | "lease_transitions LeaseReleased = []"

definition ValidTransition :: "lease_state \<Rightarrow> lease_state \<Rightarrow> bool"
  where "ValidTransition from to \<longleftrightarrow> to \<in> set (lease_transitions from)"

definition Terminal :: "lease_state \<Rightarrow> bool"
  where "Terminal st \<longleftrightarrow> st = LeaseReleased"

definition leaseStates :: "lease_state list"
  where "leaseStates = [LeaseReserved, LeaseProvisioning, LeaseRuntimeRegistered, LeaseWorkloadRunning, LeaseDraining,
    LeaseCleaning, LeaseReleased, LeaseFailed, LeaseQuarantined]"

definition liveLeaseStates :: "lease_state list"
  where "liveLeaseStates = filter (\<lambda>st. \<not> Terminal st) leaseStates"

definition LeaseByID :: "lease_id \<Rightarrow> lease tx"
  where "LeaseByID i s = (case find_lease s i of None \<Rightarrow> (Inl ErrNotFound, s) | Some l \<Rightarrow> (Inr l, s))"

definition ClaimReadyAttempt :: "attempt_id \<Rightarrow> nat tx"
  where "ClaimReadyAttempt i =
    update_attempts i (\<lambda>a. at_state a = AttemptReady) (\<lambda>a. a\<lparr>at_state := AttemptLeased\<rparr>)"

definition InsertLease :: "lease_id \<Rightarrow> binding_id \<Rightarrow> attempt_id \<Rightarrow> tier_id \<Rightarrow> lease_state \<Rightarrow> unit tx"
  where "InsertLease i b a tier st s =
    (let l = \<lparr>ls_id = i, ls_binding_id = b, ls_attempt_id = a, ls_tier_id = tier, ls_state = st,
              ls_runtime_name = None, ls_start_observation = None, ls_created_at = st_now s, ls_updated_at = st_now s\<rparr>
     in if find_lease s i \<noteq> None then (Inl ErrConstraint, s)
        else if \<not> one_live_lease_per_attempt (st_leases s @ [l]) then (Inl ErrUnique, s)
        else if b \<notin> set (map pb_id (st_bindings s)) \<or> find_attempt s a = None then (Inl ErrConstraint, s)
        else (Inr (), s\<lparr>st_leases := st_leases s @ [l]\<rparr>))"

definition LeaseAttempt :: "lease_id \<Rightarrow> attempt_id \<Rightarrow> binding_id \<Rightarrow> tier_id \<Rightarrow> lease tx"
  where "LeaseAttempt newID attemptID bindingID tierID =
    andThen (mustAffect ErrConflict (ClaimReadyAttempt attemptID)) (\<lambda>_.
    andThen (InsertLease newID bindingID attemptID tierID LeaseReserved) (\<lambda>_.
    andThen (RecordEvent attemptID (''lease_attached:'' @ newID) EventLeaseAttached) (\<lambda>_.
      LeaseByID newID)))"

definition TransitionLease :: "lease_id \<Rightarrow> lease_state \<Rightarrow> lease_state \<Rightarrow> unit tx"
  where "TransitionLease i from to s =
    (if \<not> ValidTransition from to then (Inl ErrInvalidTransition, s)
     else andThen (update_leases i (\<lambda>l. ls_state l = from)
            (\<lambda>l. l\<lparr>ls_state := to, ls_updated_at := st_now s\<rparr>)) (\<lambda>n.
              if n = 0 then andThen (LeaseByID i) (\<lambda>_. fail ErrStateConflict) else ret ()) s)"

definition SetLeaseRuntimeName :: "lease_id \<Rightarrow> string \<Rightarrow> unit tx"
  where "SetLeaseRuntimeName i name s =
    (if name = [] \<and> find_lease s i \<noteq> None then (Inl ErrConstraint, s)
     else mustAffect ErrNotFound (update_leases i (\<lambda>_. True)
            (\<lambda>l. l\<lparr>ls_runtime_name := Some name, ls_updated_at := st_now s\<rparr>)) s)"

text \<open>The column admits the four values that establish something.\<close>

definition RecordLeaseStartObservation :: "lease_id \<Rightarrow> observation \<Rightarrow> unit tx"
  where "RecordLeaseStartObservation i obs s =
    (if \<not> Establishes obs \<and> find_lease s i \<noteq> None then (Inl ErrConstraint, s)
     else mustAffect ErrNotFound (update_leases i (\<lambda>_. True)
            (\<lambda>l. l\<lparr>ls_start_observation := Some obs, ls_updated_at := st_now s\<rparr>)) s)"

definition AttemptOfRuntimeName :: "string \<Rightarrow> attempt_id tx"
  where "AttemptOfRuntimeName name s =
    (if name = [] then (Inl ErrNotFound, s)
     else case find (\<lambda>l. ls_runtime_name l = Some name) (rev (st_leases s)) of
       None \<Rightarrow> (Inl ErrNotFound, s) | Some l \<Rightarrow> (Inr (ls_attempt_id l), s))"

definition LeaseByAttempt :: "attempt_id \<Rightarrow> lease tx"
  where "LeaseByAttempt i s =
    (case find (\<lambda>l. ls_attempt_id l = i) (rev (st_leases s)) of
       None \<Rightarrow> (Inl ErrNotFound, s) | Some l \<Rightarrow> (Inr l, s))"

definition AttemptByLease :: "lease_id \<Rightarrow> attempt tx"
  where "AttemptByLease i s =
    (case find_lease s i of None \<Rightarrow> (Inl ErrNotFound, s)
     | Some l \<Rightarrow> (case find_attempt s (ls_attempt_id l) of None \<Rightarrow> (Inl ErrNotFound, s) | Some a \<Rightarrow> (Inr a, s)))"

definition LeasesInStates :: "store \<Rightarrow> lease_state list \<Rightarrow> lease list"
  where "LeasesInStates s states =
    sort_key (\<lambda>l. (ls_created_at l, ls_id l)) (filter (\<lambda>l. ls_state l \<in> set states) (st_leases s))"

definition RecordEvidenceForLease :: "lease_id \<Rightarrow> string \<Rightarrow> unit tx"
  where "RecordEvidenceForLease i ev = andThen (LeaseByID i) (\<lambda>l. RecordEvidence (ls_attempt_id l) ev)"

section \<open>Retention\<close>

definition prunable :: "store \<Rightarrow> time \<Rightarrow> lease \<Rightarrow> bool"
  where "prunable s before l \<longleftrightarrow> ls_state l = LeaseReleased \<and> ls_updated_at l < before \<and>
    \<not> list_ex (\<lambda>a. at_id a = ls_attempt_id l \<and> is_open (at_state a)) (st_attempts s) \<and>
    \<not> list_ex (\<lambda>x. in_lease_id x = ls_id l) (st_intents s)"

definition prunableReleasedLeases :: "store \<Rightarrow> time \<Rightarrow> nat \<Rightarrow> lease list"
  where "prunableReleasedLeases s before limit =
    take limit (sort_key ls_updated_at (filter (prunable s before) (st_leases s)))"

definition CountPrunableLeases :: "store \<Rightarrow> time \<Rightarrow> nat \<Rightarrow> nat"
  where "CountPrunableLeases s before limit = length (prunableReleasedLeases s before limit)"

definition PruneLeaseHistory :: "time \<Rightarrow> nat \<Rightarrow> nat tx"
  where "PruneLeaseHistory before limit s =
    (let gone = map ls_id (prunableReleasedLeases s before limit)
     in (Inr (length (filter (\<lambda>l. ls_id l \<in> set gone) (st_leases s))),
         s\<lparr>st_leases := filter (\<lambda>l. ls_id l \<notin> set gone) (st_leases s)\<rparr>))"

definition PurgeLease :: "lease_id \<Rightarrow> unit tx"
  where "PurgeLease i s =
    (let hit = (\<lambda>l. ls_id l = i \<and>
           \<not> list_ex (\<lambda>a. at_id a = ls_attempt_id l \<and> is_open (at_state a)) (st_attempts s))
     in if \<not> list_ex hit (st_leases s) then andThen (LeaseByID i) (\<lambda>_. fail ErrConflict) s
        else if list_ex (\<lambda>x. in_lease_id x = i) (st_intents s) then (Inl ErrConstraint, s)
        else (Inr (), s\<lparr>st_leases := filter (\<lambda>l. \<not> hit l) (st_leases s)\<rparr>))"

section \<open>The walk\<close>

definition TransitionAttempt :: "attempt_state \<Rightarrow> attempt_id \<Rightarrow> attempt_state \<Rightarrow> nat tx"
  where "TransitionAttempt nxt i current =
    update_attempts i (\<lambda>a. at_state a = current) (\<lambda>a. a\<lparr>at_state := nxt\<rparr>)"

definition Advance :: "attempt_id \<Rightarrow> attempt_state \<Rightarrow> attempt_state \<Rightarrow> unit tx"
  where "Advance i from to = mustAffect ErrConflict (TransitionAttempt to i from)"

definition AuthorizeAttemptStart :: "attempt_id \<Rightarrow> lease_id \<Rightarrow> nat tx"
  where "AuthorizeAttemptStart i leaseID s =
    update_attempts i
      (\<lambda>a. at_state a \<in> {AttemptLeased, AttemptPreparing, AttemptPrepared} \<and>
           list_ex (\<lambda>l. ls_id l = leaseID \<and> ls_attempt_id l = i \<and> ls_state l \<noteq> LeaseReleased) (st_leases s))
      (\<lambda>a. a\<lparr>at_state := AttemptStarting\<rparr>) s"

definition AuthorizeStart :: "lease_id \<Rightarrow> attempt_id \<Rightarrow> unit tx"
  where "AuthorizeStart leaseID i = mustAffect ErrConflict (AuthorizeAttemptStart i leaseID)"

definition servingsSoFar :: "store \<Rightarrow> attempt_id \<Rightarrow> int"
  where "servingsSoFar s i = int (length (filter (\<lambda>l. ls_attempt_id l = i) (st_leases s)))"

definition withinRetryBudget :: "attempt_id \<Rightarrow> unit tx"
  where "withinRetryBudget i s =
    (if servingsSoFar s i \<ge> st_retryBudget s then (Inl ErrRetryBudgetExhausted, s) else (Inr (), s))"

definition requeued :: "attempt \<Rightarrow> attempt"
  where "requeued a = a\<lparr>at_state := AttemptReady, at_evidence := EvidenceNotStarted\<rparr>"

definition RequeueAttempt :: "attempt_id \<Rightarrow> nat tx"
  where "RequeueAttempt i =
    update_attempts i (\<lambda>a. at_state a \<in> {AttemptLeased, AttemptPreparing, AttemptPrepared}) requeued"

definition RequeueProvenInertAttempt :: "attempt_id \<Rightarrow> nat tx"
  where "RequeueProvenInertAttempt i =
    update_attempts i (\<lambda>a. at_state a \<in> {AttemptStarting, AttemptRunning}) requeued"

definition Requeue :: "attempt_id \<Rightarrow> unit tx"
  where "Requeue i = andThen (withinRetryBudget i) (\<lambda>_. mustAffect ErrConflict (RequeueAttempt i))"

definition RequeueProvenInert :: "attempt_id \<Rightarrow> unit tx"
  where "RequeueProvenInert i = andThen (withinRetryBudget i) (\<lambda>_. mustAffect ErrConflict (RequeueProvenInertAttempt i))"

definition RequeueServing :: "attempt \<Rightarrow> unit tx"
  where "RequeueServing a =
    (if at_state a = AttemptStarting \<or> at_state a = AttemptRunning then RequeueProvenInert (at_id a)
     else Requeue (at_id a))"

section \<open>Endings\<close>

definition CancelReadyAttempt :: "resolution option \<Rightarrow> attempt_id \<Rightarrow> nat tx"
  where "CancelReadyAttempt res i s =
    update_attempts i (\<lambda>a. at_state a = AttemptReady)
      (\<lambda>a. a\<lparr>at_state := AttemptCanceled, at_resolution := res, at_settled_at := Some (st_now s)\<rparr>) s"

definition CancelReady :: "attempt_id \<Rightarrow> resolution option \<Rightarrow> unit tx"
  where "CancelReady i res = andThen (mustAffect ErrConflict (CancelReadyAttempt res i))
    (\<lambda>_. RecordEvent i ''remote_canceled'' EventRemoteCanceled)"

definition named_actor :: "attempt_id \<Rightarrow> string \<Rightarrow> 'a tx \<Rightarrow> 'a tx"
  where "named_actor i actor m s =
    (if actor = [] \<and> list_ex (\<lambda>a. at_id a = i \<and> at_state a = AttemptManualReview) (st_attempts s)
     then (Inl ErrConstraint, s) else m s)"

definition ResolveManualReviewToReady :: "string \<Rightarrow> attempt_id \<Rightarrow> nat tx"
  where "ResolveManualReviewToReady actor i s = named_actor i actor
    (update_attempts i (\<lambda>a. at_state a = AttemptManualReview)
      (\<lambda>a. a\<lparr>at_state := AttemptReady, at_evidence := EvidenceNotStarted, at_review_reason := None,
             at_resolution := None, at_reviewed_at := Some (st_now s), at_reviewed_by := Some actor\<rparr>)) s"

definition ResolveManualReviewToSettled :: "resolution option \<Rightarrow> string \<Rightarrow> attempt_id \<Rightarrow> nat tx"
  where "ResolveManualReviewToSettled res actor i s = named_actor i actor
    (update_attempts i (\<lambda>a. at_state a = AttemptManualReview)
      (\<lambda>a. a\<lparr>at_state := AttemptSettled, at_resolution := res, at_reviewed_at := Some (st_now s),
             at_reviewed_by := Some actor, at_settled_at := Some (st_now s)\<rparr>)) s"

definition ResolveReviewToReady :: "attempt_id \<Rightarrow> string \<Rightarrow> string \<Rightarrow> unit tx"
  where "ResolveReviewToReady i reason actor = andThen (mustAffect ErrConflict (ResolveManualReviewToReady actor i))
    (\<lambda>_. RecordRepeatableEvent i EventOperatorResolved
      [(''decision'', ''retry''), (''actor'', actor), (''reason'', reason)])"

definition ResolveReviewToSettled :: "attempt_id \<Rightarrow> resolution option \<Rightarrow> string \<Rightarrow> string \<Rightarrow> unit tx"
  where "ResolveReviewToSettled i res reason actor =
    andThen (mustAffect ErrConflict (ResolveManualReviewToSettled res actor i))
    (\<lambda>_. RecordRepeatableEvent i EventOperatorResolved
      [(''decision'', ''settle''), (''actor'', actor), (''reason'', reason)])"

definition SettleAttempt :: "resolution option \<Rightarrow> attempt_id \<Rightarrow> attempt_state \<Rightarrow> nat tx"
  where "SettleAttempt res i current s =
    update_attempts i (\<lambda>a. at_state a = current)
      (\<lambda>a. a\<lparr>at_state := AttemptSettled, at_resolution := res, at_settled_at := Some (st_now s)\<rparr>) s"

definition Settle :: "attempt_id \<Rightarrow> attempt_state \<Rightarrow> resolution option \<Rightarrow> unit tx"
  where "Settle i current res = andThen (mustAffect ErrConflict (SettleAttempt res i current))
    (\<lambda>_. RecordEvent i ''attempt_settled'' EventAttemptSettled)"

fun reason_str :: "review_reason \<Rightarrow> string"
  where
    "reason_str ReviewReasonStartOutcomeUnknown = ''start_outcome_unknown''"
  | "reason_str ReviewReasonRetryBudgetExhausted = ''retry_budget_exhausted''"
  | "reason_str ReviewReasonIncompatibleCapsule = ''capsule_incompatible''"

definition MarkAttemptManualReview :: "review_reason \<Rightarrow> attempt_id \<Rightarrow> nat tx"
  where "MarkAttemptManualReview reason i =
    update_attempts i
      (\<lambda>a. at_state a \<in> {AttemptReady, AttemptLeased, AttemptPreparing, AttemptPrepared, AttemptStarting, AttemptRunning})
      (\<lambda>a. a\<lparr>at_state := AttemptManualReview, at_review_reason := Some reason\<rparr>)"

definition HoldForReview :: "attempt_id \<Rightarrow> review_reason \<Rightarrow> unit tx"
  where "HoldForReview i reason = andThen (mustAffect ErrConflict (MarkAttemptManualReview reason i))
    (\<lambda>_. RecordRepeatableEvent i EventManualReviewRequested [(''reason'', reason_str reason)])"

definition StrandedAttempts :: "store \<Rightarrow> attempt list"
  where "StrandedAttempts s = fifo (filter (\<lambda>a.
    at_state a \<in> {AttemptLeased, AttemptPreparing, AttemptPrepared, AttemptStarting, AttemptRunning} \<and>
    list_ex (\<lambda>l. ls_attempt_id l = at_id a \<and> ls_state l = LeaseReleased) (st_leases s) \<and>
    \<not> list_ex (\<lambda>l. ls_attempt_id l = at_id a \<and> ls_state l \<noteq> LeaseReleased) (st_leases s)) (st_attempts s))"

lemmas walk_statements = TransitionAttempt_def RequeueAttempt_def RequeueProvenInertAttempt_def MarkAttemptManualReview_def

lemmas stamped_statements = AuthorizeAttemptStart_def [abs_def] CancelReadyAttempt_def [abs_def]
  ResolveManualReviewToReady_def [abs_def] ResolveManualReviewToSettled_def [abs_def] SettleAttempt_def [abs_def]

end
