(* ===== verification/StoreResources.thy ===== *)
theory StoreResources
  imports StoreServing
begin

text \<open>
  The rest of \<^verbatim>\<open>internal/store\<close>: the resource-intent saga of \<^verbatim>\<open>leasetx.go\<close>
  (\<^verbatim>\<open>sqlitedb/resources.sql.go\<close>), the cache lanes of \<^verbatim>\<open>cache.go\<close>
  (\<^verbatim>\<open>sqlitedb/cache.sql.go\<close>), the pressure verdict and the audit trail of
  \<^verbatim>\<open>pressure.go\<close> (\<^verbatim>\<open>sqlitedb/operations.sql.go\<close>), bindings, and uninstall
  (\<^verbatim>\<open>purge.go\<close>).
\<close>

section \<open>Resource intents\<close>

definition Handle :: "intent \<Rightarrow> string"
  where "Handle r = (if in_docker_id r \<noteq> [] then in_docker_id r else in_name r)"

definition update_intents :: "(intent \<Rightarrow> bool) \<Rightarrow> (intent \<Rightarrow> intent) \<Rightarrow> nat tx"
  where "update_intents P f s =
    (Inr (length (filter P (st_intents s))),
     s\<lparr>st_intents := map (\<lambda>x. if P x then f x else x) (st_intents s)\<rparr>)"

definition PlanResource :: "lease_id \<Rightarrow> resource_kind \<Rightarrow> resource_role \<Rightarrow> string \<Rightarrow> intent_id tx"
  where "PlanResource leaseID kind role name s =
    (let i = next_id (map in_id (st_intents s)) in
     if name = [] then (Inl ErrConstraint, s)
     else if list_ex (\<lambda>x. in_lease_id x = leaseID \<and> in_kind x = kind \<and> in_name x = name) (st_intents s)
     then (Inl ErrUnique, s)
     else if find_lease s leaseID = None then (Inl ErrConstraint, s)
     else (Inr i, s\<lparr>st_intents := st_intents s @
       [\<lparr>in_id = i, in_lease_id = leaseID, in_kind = kind, in_role = role, in_name = name, in_docker_id = [],
         in_state = ResourcePlanned, in_retries = 0, in_last_error = [], in_not_before = 0,
         in_created_at = st_now s, in_updated_at = st_now s\<rparr>]\<rparr>))"

definition MarkResourceCreating :: "intent_id \<Rightarrow> unit tx"
  where "MarkResourceCreating i s = mustAffect ErrNotFound (update_intents
    (\<lambda>x. in_id x = i \<and> in_state x = ResourcePlanned)
    (\<lambda>x. x\<lparr>in_state := ResourceCreating, in_updated_at := st_now s\<rparr>)) s"

definition MarkResourcePresent :: "intent_id \<Rightarrow> string \<Rightarrow> unit tx"
  where "MarkResourcePresent i dockerID s = mustAffect ErrNotFound (update_intents
    (\<lambda>x. in_id x = i \<and> in_state x \<in> {ResourcePlanned, ResourceCreating})
    (\<lambda>x. x\<lparr>in_state := ResourcePresent, in_docker_id := dockerID, in_updated_at := st_now s\<rparr>)) s"

definition MarkResourceCleanup :: "lease_id \<Rightarrow> unit tx"
  where "MarkResourceCleanup leaseID s = andThen (update_intents
    (\<lambda>x. in_lease_id x = leaseID \<and> in_state x \<in> {ResourcePlanned, ResourceCreating, ResourcePresent})
    (\<lambda>x. x\<lparr>in_state := ResourceCleanupPending, in_updated_at := st_now s\<rparr>)) (\<lambda>_. ret ()) s"

definition MarkResourceDeleting :: "intent_id \<Rightarrow> unit tx"
  where "MarkResourceDeleting i s = mustAffect ErrNotFound (update_intents
    (\<lambda>x. in_id x = i \<and> in_state x \<in> {ResourceCleanupPending, ResourceDeleting})
    (\<lambda>x. x\<lparr>in_state := ResourceDeleting, in_updated_at := st_now s\<rparr>)) s"

definition ForgetResource :: "intent_id \<Rightarrow> unit tx"
  where "ForgetResource i s = mustAffect ErrNotFound (\<lambda>s.
    (Inr (length (filter (\<lambda>x. in_id x = i) (st_intents s))),
     s\<lparr>st_intents := filter (\<lambda>x. in_id x \<noteq> i) (st_intents s)\<rparr>)) s"

definition RecordResourceError :: "intent_id \<Rightarrow> string \<Rightarrow> time \<Rightarrow> unit tx"
  where "RecordResourceError i msg notBefore s = mustAffect ErrNotFound (update_intents (\<lambda>x. in_id x = i)
    (\<lambda>x. x\<lparr>in_retries := in_retries x + 1, in_last_error := msg, in_not_before := notBefore,
           in_updated_at := st_now s\<rparr>)) s"

definition Resources :: "store \<Rightarrow> lease_id \<Rightarrow> intent list"
  where "Resources s leaseID = filter (\<lambda>x. in_lease_id x = leaseID) (st_intents s)"

definition pendingRemovals :: "store \<Rightarrow> time \<Rightarrow> nat \<Rightarrow> intent list"
  where "pendingRemovals s now limit = take limit (sort_key (\<lambda>x. (in_not_before x, in_id x))
    (filter (\<lambda>x. in_state x \<in> {ResourceCleanupPending, ResourceDeleting} \<and> in_not_before x \<le> now) (st_intents s)))"

section \<open>Cache lanes\<close>

definition EnsureCacheProject :: "string \<Rightarrow> string \<Rightarrow> string tx"
  where "EnsureCacheProject newID sourceProjectKey s =
    (case find (\<lambda>p. cp_source_project_key p = sourceProjectKey) (st_projects s) of
       Some p \<Rightarrow> (Inr (cp_id p), s)
     | None \<Rightarrow>
        if newID \<in> set (map cp_id (st_projects s)) then (Inl ErrConstraint, s)
        else (Inr newID, s\<lparr>st_projects := st_projects s @ [\<lparr>cp_id = newID, cp_source_project_key = sourceProjectKey\<rparr>]\<rparr>))"

definition lane_pool :: "store \<Rightarrow> string \<Rightarrow> string \<Rightarrow> cache_lane list"
  where "lane_pool s projectID generation =
    filter (\<lambda>l. cl_project_id l = projectID \<and> cl_generation l = generation) (st_lanes s)"

text \<open>\<^verbatim>\<open>ORDER BY last_used DESC LIMIT 1\<close> among the free lanes of the pool; ties are SQLite's to break, here by table
  order.\<close>

definition FindFreeCacheLane :: "store \<Rightarrow> string \<Rightarrow> string \<Rightarrow> cache_lane option"
  where "FindFreeCacheLane s projectID generation =
    (case sort_key (\<lambda>l. - cl_last_used l) (filter (\<lambda>l. cl_leased_by l = None) (lane_pool s projectID generation)) of
       [] \<Rightarrow> None | l # _ \<Rightarrow> Some l)"

definition ClaimCacheLane :: "lease_id \<Rightarrow> string \<Rightarrow> nat tx"
  where "ClaimCacheLane leaseID i s =
    (let hit = (\<lambda>l. cl_id l = i \<and> cl_leased_by l = None) in
     if leaseID = [] \<and> list_ex hit (st_lanes s) then (Inl ErrConstraint, s)
     else (Inr (length (filter hit (st_lanes s))),
           s\<lparr>st_lanes := map (\<lambda>l. if hit l then l\<lparr>cl_leased_by := Some leaseID, cl_last_used := st_now s\<rparr> else l)
              (st_lanes s)\<rparr>))"

definition InsertCacheLane :: "string \<Rightarrow> string \<Rightarrow> string \<Rightarrow> lease_id \<Rightarrow> unit tx"
  where "InsertCacheLane i projectID generation leaseID s =
    (if leaseID = [] \<or> i \<in> set (map cl_id (st_lanes s)) \<or> projectID \<notin> set (map cp_id (st_projects s))
     then (Inl ErrConstraint, s)
     else (Inr (), s\<lparr>st_lanes := st_lanes s @ [\<lparr>cl_id = i, cl_project_id = projectID, cl_generation = generation,
            cl_leased_by = Some leaseID, cl_last_used = st_now s\<rparr>]\<rparr>))"

definition LeaseCacheLane :: "string \<Rightarrow> string \<Rightarrow> string \<Rightarrow> lease_id \<Rightarrow> int \<Rightarrow> string tx"
  where "LeaseCacheLane newID projectID generation leaseID maxLanes s =
    (case FindFreeCacheLane s projectID generation of
       Some l \<Rightarrow> andThen (mustAffect ErrNoLane (ClaimCacheLane leaseID (cl_id l))) (\<lambda>_. ret (cl_id l)) s
     | None \<Rightarrow>
        if int (length (lane_pool s projectID generation)) \<ge> maxLanes then (Inl ErrNoLane, s)
        else andThen (InsertCacheLane newID projectID generation leaseID) (\<lambda>_. ret newID) s)"

definition ReleaseCacheLane :: "lease_id \<Rightarrow> unit tx"
  where "ReleaseCacheLane leaseID s = (Inr (),
    s\<lparr>st_lanes := map (\<lambda>l. if cl_leased_by l = Some leaseID then l\<lparr>cl_leased_by := None\<rparr> else l) (st_lanes s)\<rparr>)"

definition DeleteCacheLane :: "string \<Rightarrow> unit tx"
  where "DeleteCacheLane i s =
    (let hit = (\<lambda>l. cl_id l = i \<and> cl_leased_by l = None) in
     if \<not> list_ex hit (st_lanes s) then (Inl ErrLaneBusy, s)
     else (Inr (), s\<lparr>st_lanes := filter (\<lambda>l. \<not> hit l) (st_lanes s)\<rparr>))"

record cache_lane_info =
  ci_ID :: string
  ci_SourceProjectKey :: string
  ci_Generation :: string
  ci_LeasedBy :: string
  ci_LastUsed :: time

definition CacheLanes :: "store \<Rightarrow> cache_lane_info list"
  where "CacheLanes s = sort_key (\<lambda>i. (ci_SourceProjectKey i, ci_Generation i, ci_ID i))
    (concat (map (\<lambda>l. map (\<lambda>p. \<lparr>ci_ID = cl_id l, ci_SourceProjectKey = cp_source_project_key p,
       ci_Generation = cl_generation l, ci_LeasedBy = (case cl_leased_by l of None \<Rightarrow> [] | Some x \<Rightarrow> x),
       ci_LastUsed = cl_last_used l\<rparr>) (filter (\<lambda>p. cp_id p = cl_project_id l) (st_projects s))) (st_lanes s)))"

section \<open>Pressure and audit\<close>

record pressure_verdict =
  pv_Level :: string
  pv_FreeBytes :: int
  pv_FreeInodes :: int
  pv_ManagedBytes :: int

definition SetPressure :: "pressure_verdict \<Rightarrow> unit tx"
  where "SetPressure p s = (Inr (), s\<lparr>st_pressure := Some
    \<lparr>pr_level = pv_Level p, pr_free_bytes = pv_FreeBytes p, pr_free_inodes = pv_FreeInodes p,
     pr_managed_bytes = pv_ManagedBytes p, pr_measured_at = st_now s\<rparr>\<rparr>)"

definition Pressure :: "store \<Rightarrow> pressure option"
  where "Pressure s = st_pressure s"

definition RecordAudit :: "string \<Rightarrow> string \<Rightarrow> string \<Rightarrow> string \<Rightarrow> unit tx"
  where "RecordAudit actor action subject detail s = (Inr (), s\<lparr>st_audit := st_audit s @
    [\<lparr>au_at = st_now s, au_actor = actor, au_action = action, au_subject = subject, au_detail = detail\<rparr>]\<rparr>)"

text \<open>\<^verbatim>\<open>ORDER BY at DESC, id DESC\<close>: the table is in id order, so the reverse of a stable sort by time.\<close>

definition AuditTail :: "store \<Rightarrow> nat \<Rightarrow> audit_entry list"
  where "AuditTail s limit = take limit (rev (sort_key au_at (st_audit s)))"

section \<open>Bindings\<close>

definition EnsureBinding :: "string \<Rightarrow> string \<Rightarrow> string \<Rightarrow> binding_id tx"
  where "EnsureBinding targetID providerKind key s =
    (if providerKind = [] \<or> key = [] then (Inl ErrConstraint, s)
     else case find (\<lambda>b. pb_provider_kind b = providerKind \<and> pb_source_binding_key b = key) (st_bindings s) of
       Some b \<Rightarrow> (Inr (pb_id b), s\<lparr>st_bindings :=
         map (\<lambda>b. if pb_provider_kind b = providerKind \<and> pb_source_binding_key b = key
                  then b\<lparr>pb_target_id := targetID\<rparr> else b) (st_bindings s)\<rparr>)
     | None \<Rightarrow> (let i = next_id (map pb_id (st_bindings s)) in
         (Inr i, s\<lparr>st_bindings := st_bindings s @ [\<lparr>pb_id = i, pb_target_id = targetID,
            pb_provider_kind = providerKind, pb_source_binding_key = key\<rparr>]\<rparr>)))"

text \<open>Removing a binding that a lease still references is refused by the foreign key; a lease implies a delivery of
  its attempt's binding, which keeps the row.\<close>

definition unclaimed :: "store \<Rightarrow> binding_id list \<Rightarrow> binding_row \<Rightarrow> bool"
  where "unclaimed s claimed b \<longleftrightarrow> pb_id b \<notin> set claimed \<and> \<not> list_ex (\<lambda>d. dl_binding_id d = pb_id b) (st_deliveries s)"

definition ForgetUnclaimedBindings :: "binding_id list \<Rightarrow> nat tx"
  where "ForgetUnclaimedBindings claimed s =
    (if claimed = [] then (Inr 0, s)
     else if list_ex (\<lambda>l. list_ex (\<lambda>b. pb_id b = ls_binding_id l \<and> unclaimed s claimed b) (st_bindings s)) (st_leases s)
     then (Inl ErrConstraint, s)
     else (Inr (length (filter (unclaimed s claimed) (st_bindings s))),
           s\<lparr>st_bindings := filter (\<lambda>b. \<not> unclaimed s claimed b) (st_bindings s)\<rparr>))"

definition PurgeEverything :: "unit tx"
  where "PurgeEverything s = (Inr (), s\<lparr>st_intents := [], st_leases := [], st_events := [], st_attempts := [],
    st_deliveries := [], st_bindings := [], st_lanes := [], st_projects := []\<rparr>)"

end
