(* ===== verification/StoreInv.thy ===== *)
theory StoreInv
  imports StoreResources
begin

text \<open>
  The schema invariant: primary keys, unique indexes and foreign keys of the
  migrations, stated as a predicate on the store, and that every transaction of
  \<^verbatim>\<open>internal/store\<close> keeps it.  The collection \<^verbatim>\<open>keeps\<close> holds one rule per
  statement and per operation; composition does the rest.
\<close>

section \<open>The invariant\<close>

definition attempts_ok :: "attempt list \<Rightarrow> bool"
  where "attempts_ok as \<longleftrightarrow> distinct (map at_id as) \<and>
    distinct (map (\<lambda>a. (at_delivery_id a, at_workload a)) as) \<and> one_open_attempt_per_workload as"

definition leases_ok :: "lease list \<Rightarrow> bool"
  where "leases_ok ls \<longleftrightarrow> distinct (map ls_id ls) \<and> one_live_lease_per_attempt ls"

definition references_ok :: "store \<Rightarrow> bool"
  where "references_ok s \<longleftrightarrow>
    (\<forall>a \<in> set (st_attempts s). (at_delivery_id a, at_binding_id a) \<in> set (map (\<lambda>d. (dl_id d, dl_binding_id d)) (st_deliveries s))) \<and>
    (\<forall>e \<in> set (st_events s). ev_attempt_id e \<in> set (map at_id (st_attempts s))) \<and>
    (\<forall>l \<in> set (st_leases s). ls_attempt_id l \<in> set (map at_id (st_attempts s))) \<and>
    (\<forall>x \<in> set (st_intents s). in_lease_id x \<in> set (map ls_id (st_leases s)))"

definition schema_ok :: "store \<Rightarrow> bool"
  where "schema_ok s \<longleftrightarrow> attempts_ok (st_attempts s) \<and> leases_ok (st_leases s) \<and>
    distinct (map (\<lambda>e. (ev_attempt_id e, ev_key e)) (st_events s)) \<and>
    distinct (map dl_id (st_deliveries s)) \<and> distinct (map (\<lambda>d. (dl_binding_id d, dl_key d)) (st_deliveries s)) \<and>
    distinct (map in_id (st_intents s)) \<and>
    distinct (map (\<lambda>x. (in_lease_id x, in_kind x, in_name x)) (st_intents s)) \<and>
    distinct (map cl_id (st_lanes s)) \<and> (\<forall>l \<in> set (st_lanes s). cl_leased_by l \<noteq> Some []) \<and>
    references_ok s"

section \<open>Transactions that keep an invariant\<close>

named_theorems keeps \<open>statements and operations that preserve the schema\<close>

definition preserves :: "(store \<Rightarrow> bool) \<Rightarrow> 'a tx \<Rightarrow> bool"
  where "preserves I m \<longleftrightarrow> (\<forall>s. I s \<longrightarrow> I (snd (m s)))"

lemma preservesI: "(\<And>s. I s \<Longrightarrow> I (snd (m s))) \<Longrightarrow> preserves I m"
  by (simp add: preserves_def)

lemma preservesD: "preserves I m \<Longrightarrow> I s \<Longrightarrow> I (snd (m s))"
  by (simp add: preserves_def)

lemma preserves_ret [keeps]: "preserves I (ret x)" "preserves I (fail e)"
  by (simp_all add: preserves_def)

lemma preserves_andThen [keeps]:
  assumes "preserves I m" "\<And>x. preserves I (f x)"
  shows "preserves I (andThen m f)"
proof (rule preservesI)
  fix s
  assume "I s"
  then have "I (snd (m s))" using assms(1) by (rule preservesD [rotated])
  then show "I (snd (andThen m f s))"
    using preservesD [OF assms(2)] by (auto simp: andThen_def split: prod.splits sum.splits)
qed

lemma preserves_mustAffect [keeps]: "preserves I m \<Longrightarrow> preserves I (mustAffect e m)"
  unfolding mustAffect_def by (intro preserves_andThen) (auto intro: preserves_ret)

lemma preserves_Tx [keeps]: "preserves I m \<Longrightarrow> preserves I (Tx m)"
  by (auto simp: preserves_def Tx_def split: prod.splits sum.splits)

lemma preserves_if [keeps]:
  "(c \<Longrightarrow> preserves I m) \<Longrightarrow> (\<not> c \<Longrightarrow> preserves I m') \<Longrightarrow> preserves I (if c then m else m')"
  by simp

lemma preserves_option [keeps]:
  "(z = None \<Longrightarrow> preserves I m) \<Longrightarrow> (\<And>x. z = Some x \<Longrightarrow> preserves I (f x)) \<Longrightarrow> preserves I (case z of None \<Rightarrow> m | Some x \<Rightarrow> f x)"
  by (cases z) simp_all

lemma preserves_read:
  "(\<And>s. snd (m s) = s) \<Longrightarrow> preserves I m"
  by (simp add: preserves_def)

section \<open>Statements\<close>

definition same_identity :: "(attempt \<Rightarrow> attempt) \<Rightarrow> bool"
  where "same_identity f \<longleftrightarrow> (\<forall>a. at_id (f a) = at_id a \<and> at_delivery_id (f a) = at_delivery_id a \<and>
    at_binding_id (f a) = at_binding_id a \<and> at_workload (f a) = at_workload a)"

lemma map_update:
  "(\<And>x. g (f x) = g x) \<Longrightarrow> map g (map (\<lambda>x. if P x then f x else x) xs) = map g xs"
  by simp

text \<open>Replacing a table by one with the same keys keeps everything that refers to the keys.\<close>

lemma replace_attempts:
  assumes ok: "schema_ok s" and one: "one_open_attempt_per_workload as"
    and ids: "map at_id as = map at_id (st_attempts s)"
      "map (\<lambda>a. (at_delivery_id a, at_workload a)) as = map (\<lambda>a. (at_delivery_id a, at_workload a)) (st_attempts s)"
      "map (\<lambda>a. (at_delivery_id a, at_binding_id a)) as = map (\<lambda>a. (at_delivery_id a, at_binding_id a)) (st_attempts s)"
  shows "schema_ok (s\<lparr>st_attempts := as\<rparr>)"
proof -
  have "(\<lambda>a. (at_delivery_id a, at_binding_id a)) ` set as = (\<lambda>a. (at_delivery_id a, at_binding_id a)) ` set (st_attempts s)"
    using arg_cong [OF ids(3), of set] by (simp only: set_map)
  then have refs: "(\<forall>a \<in> set as. (at_delivery_id a, at_binding_id a) \<in> D) =
      (\<forall>a \<in> set (st_attempts s). (at_delivery_id a, at_binding_id a) \<in> D)" for D
    by (metis (no_types, lifting) image_iff)
  show ?thesis
    using ok one by (simp add: schema_ok_def attempts_ok_def references_ok_def ids refs del: set_map)
qed

lemma replace_leases:
  assumes ok: "schema_ok s" and one: "one_live_lease_per_attempt ls"
    and ids: "map ls_id ls = map ls_id (st_leases s)" "map ls_attempt_id ls = map ls_attempt_id (st_leases s)"
  shows "schema_ok (s\<lparr>st_leases := ls\<rparr>)"
proof -
  have "ls_attempt_id ` set ls = ls_attempt_id ` set (st_leases s)"
    using arg_cong [OF ids(2), of set] by (simp only: set_map)
  then have refs: "(\<forall>l \<in> set ls. ls_attempt_id l \<in> D) = (\<forall>l \<in> set (st_leases s). ls_attempt_id l \<in> D)" for D
    by (metis (no_types, lifting) image_iff)
  show ?thesis
    using ok one by (simp add: schema_ok_def leases_ok_def references_ok_def ids refs del: set_map)
qed

lemma update_attempts_keeps:
  assumes "same_identity f"
  shows "preserves schema_ok (update_attempts i P f)"
proof (rule preservesI)
  fix s
  assume ok: "schema_ok s"
  show "schema_ok (snd (update_attempts i P f s))"
    using ok assms by (auto simp: update_attempts_def Let_def same_identity_def intro!: replace_attempts)
qed

lemma update_leases_keeps:
  assumes "\<And>l. ls_id (f l) = ls_id l" "\<And>l. ls_attempt_id (f l) = ls_attempt_id l"
  shows "preserves schema_ok (update_leases i P f)"
proof (rule preservesI)
  fix s
  assume ok: "schema_ok s"
  show "schema_ok (snd (update_leases i P f s))"
    using ok assms by (auto simp: update_leases_def Let_def intro!: replace_leases)
qed

lemma find_SomeD: "find P xs = Some x \<Longrightarrow> x \<in> set xs \<and> P x"
  by (auto simp: find_Some_iff)

lemma find_attempt_Some: "find_attempt s i = Some a \<Longrightarrow> a \<in> set (st_attempts s) \<and> at_id a = i"
  by (auto simp: find_attempt_def dest: find_SomeD)

lemma find_lease_Some: "find_lease s i = Some l \<Longrightarrow> l \<in> set (st_leases s) \<and> ls_id l = i"
  by (auto simp: find_lease_def dest: find_SomeD)

lemma find_attempt_None: "find_attempt s i = None \<longleftrightarrow> i \<notin> set (map at_id (st_attempts s))"
  by (auto simp: find_attempt_def find_None_iff)

lemma find_lease_None: "find_lease s i = None \<longleftrightarrow> i \<notin> set (map ls_id (st_leases s))"
  by (auto simp: find_lease_def find_None_iff)

lemma has_event_iff: "has_event s i key \<longleftrightarrow> (i, key) \<in> set (map (\<lambda>e. (ev_attempt_id e, ev_key e)) (st_events s))"
  by (auto simp: has_event_def list_ex_iff)

lemma append_event_ok:
  assumes "schema_ok s" "\<not> has_event s i key" "find_attempt s i \<noteq> None"
  shows "schema_ok (append_event i key kind detail s)"
  using assms by (auto simp: schema_ok_def references_ok_def append_event_def has_event_iff find_attempt_None)

lemma InsertAttemptEvent_keeps [keeps]: "preserves schema_ok (InsertAttemptEvent i key kind detail)"
  by (rule preservesI) (simp add: InsertAttemptEvent_def append_event_ok)

lemma InsertSequencedAttemptEvent_keeps [keeps]: "preserves schema_ok (InsertSequencedAttemptEvent i kind detail)"
  by (rule preservesI) (simp add: InsertSequencedAttemptEvent_def Let_def append_event_ok)

lemma record_event_keeps [keeps]:
  "preserves schema_ok (RecordEvent i key kind)" "preserves schema_ok (RecordEventDetail i key kind detail)"
  "preserves schema_ok (RecordRepeatableEvent i kind detail)"
  unfolding RecordEvent_def RecordEventDetail_def RecordRepeatableEvent_def by (intro keeps)+

lemma Get_keeps [keeps]: "preserves I (Get i)" "preserves I (LeaseByID l)" "preserves I (OpenAttemptByWorkload b w)"
  "preserves I (AttemptByLease l)" "preserves I (LeaseByAttempt i)" "preserves I (AttemptOfRuntimeName n)"
  "preserves I (withinRetryBudget i)"
  by (rule preserves_read;
      simp add: Get_def LeaseByID_def OpenAttemptByWorkload_def AttemptByLease_def LeaseByAttempt_def
        AttemptOfRuntimeName_def withinRetryBudget_def split: option.splits)+

section \<open>Operations on attempts\<close>

lemma update_state_keeps [keeps]:
  "(\<And>a. at_id (f a) = at_id a) \<Longrightarrow> (\<And>a. at_delivery_id (f a) = at_delivery_id a) \<Longrightarrow>
   (\<And>a. at_binding_id (f a) = at_binding_id a) \<Longrightarrow> (\<And>a. at_workload (f a) = at_workload a) \<Longrightarrow>
   preserves schema_ok (update_attempts i P f)"
  by (rule update_attempts_keeps) (simp add: same_identity_def)

lemma preserves_apply:
  assumes "\<And>t. preserves I (m t)"
  shows "preserves I (\<lambda>s. m s s)"
  using assms by (simp add: preserves_def)

lemma named_actor_keeps [keeps]: "preserves I m \<Longrightarrow> preserves I (named_actor i actor m)"
  by (simp add: preserves_def named_actor_def)

lemma RecordEvidence_keeps [keeps]: "preserves schema_ok (RecordEvidence i ev)"
  unfolding RecordEvidence_def RecordAttemptEvidence_def Let_def by (intro keeps) simp_all

lemma RecordEvidenceForLease_keeps [keeps]: "preserves schema_ok (RecordEvidenceForLease l ev)"
  unfolding RecordEvidenceForLease_def by (intro keeps)

lemma attempt_ops_keep [keeps]:
  "preserves schema_ok (Advance i from to)" "preserves schema_ok (ClaimReadyAttempt i)"
  "preserves schema_ok (Requeue i)" "preserves schema_ok (RequeueProvenInert i)"
  "preserves schema_ok (HoldForReview i reason)"
  unfolding Advance_def ClaimReadyAttempt_def Requeue_def RequeueProvenInert_def HoldForReview_def walk_statements
  by (intro keeps; simp add: requeued_def)+

lemma RequeueServing_keeps [keeps]: "preserves schema_ok (RequeueServing a)"
  unfolding RequeueServing_def by (intro keeps)

lemma stamped_statements_keep [keeps]:
  "preserves schema_ok (SupersedeAttempt res i)" "preserves schema_ok (CancelReadyAttempt res i)"
  "preserves schema_ok (ResolveManualReviewToReady actor i)" "preserves schema_ok (ResolveManualReviewToSettled res actor i)"
  "preserves schema_ok (SettleAttempt res i current)" "preserves schema_ok (AuthorizeAttemptStart i leaseID)"
  unfolding SupersedeAttempt_def [abs_def] stamped_statements by (rule preserves_apply, intro keeps; simp)+

lemma stamped_ops_keep [keeps]:
  "preserves schema_ok (CancelReady i res)" "preserves schema_ok (ResolveReviewToReady i reason actor)"
  "preserves schema_ok (ResolveReviewToSettled i res reason actor)" "preserves schema_ok (Settle i current res)"
  "preserves schema_ok (AuthorizeStart leaseID i)"
  unfolding CancelReady_def ResolveReviewToReady_def ResolveReviewToSettled_def Settle_def AuthorizeStart_def
  by (intro keeps)+

lemma SupersedeOpenAttempt_keeps [keeps]: "preserves schema_ok (SupersedeOpenAttempt b w res d)"
  unfolding SupersedeOpenAttempt_def by (intro keeps)

section \<open>Operations on leases\<close>

lemma update_lease_keeps [keeps]:
  "(\<And>l. ls_id (f l) = ls_id l) \<Longrightarrow> (\<And>l. ls_attempt_id (f l) = ls_attempt_id l) \<Longrightarrow>
   preserves schema_ok (update_leases i P f)"
  by (rule update_leases_keeps)

lemma TransitionLease_keeps [keeps]: "preserves schema_ok (TransitionLease i from to)"
proof -
  have "preserves schema_ok (\<lambda>s. (if \<not> ValidTransition from to then fail ErrInvalidTransition
      else andThen (update_leases i (\<lambda>l. ls_state l = from) (\<lambda>l. l\<lparr>ls_state := to, ls_updated_at := st_now s\<rparr>)) (\<lambda>n.
              if n = 0 then andThen (LeaseByID i) (\<lambda>_. fail ErrStateConflict) else ret ())) s)"
    by (rule preserves_apply, intro keeps; simp)
  moreover have "TransitionLease i from to = (\<lambda>s. (if \<not> ValidTransition from to then fail ErrInvalidTransition
      else andThen (update_leases i (\<lambda>l. ls_state l = from) (\<lambda>l. l\<lparr>ls_state := to, ls_updated_at := st_now s\<rparr>)) (\<lambda>n.
              if n = 0 then andThen (LeaseByID i) (\<lambda>_. fail ErrStateConflict) else ret ())) s)"
    by (rule ext) (simp add: TransitionLease_def)
  ultimately show ?thesis by simp
qed

lemma lease_field_ops_keep [keeps]:
  "preserves schema_ok (SetLeaseRuntimeName i name)" "preserves schema_ok (RecordLeaseStartObservation i obs)"
proof -
  have stamp: "preserves schema_ok (\<lambda>s. mustAffect ErrNotFound (update_leases i (\<lambda>_. True) (f (st_now s))) s)"
    if "\<And>t l. ls_id (f t l) = ls_id l" "\<And>t l. ls_attempt_id (f t l) = ls_attempt_id l" for f
    by (rule preserves_apply, intro keeps) (use that in simp_all)
  show "preserves schema_ok (SetLeaseRuntimeName i name)"
    using stamp [of "\<lambda>t l. l\<lparr>ls_runtime_name := Some name, ls_updated_at := t\<rparr>"]
    by (simp add: preserves_def SetLeaseRuntimeName_def)
  show "preserves schema_ok (RecordLeaseStartObservation i obs)"
    using stamp [of "\<lambda>t l. l\<lparr>ls_start_observation := Some obs, ls_updated_at := t\<rparr>"]
    by (simp add: preserves_def RecordLeaseStartObservation_def)
qed

lemma InsertLease_keeps [keeps]: "preserves schema_ok (InsertLease i b a tier st)"
proof (rule preservesI)
  fix s
  assume "schema_ok s"
  then show "schema_ok (snd (InsertLease i b a tier st s))"
    by (auto simp: InsertLease_def Let_def schema_ok_def leases_ok_def references_ok_def find_lease_None find_attempt_None)
qed

lemma LeaseAttempt_keeps [keeps]: "preserves schema_ok (LeaseAttempt n i b t)"
  unfolding LeaseAttempt_def by (intro keeps)

text \<open>Deleting leases that own no intent keeps the references.\<close>

lemma delete_leases:
  assumes ok: "schema_ok s" and free: "\<And>l. l \<in> set (st_leases s) \<Longrightarrow> \<not> P l \<Longrightarrow> ls_id l \<notin> in_lease_id ` set (st_intents s)"
  shows "schema_ok (s\<lparr>st_leases := filter P (st_leases s)\<rparr>)"
proof -
  have one: "one_live_lease_per_attempt (filter P (st_leases s))"
    using ok distinct_map_filter [of ls_attempt_id "filter (\<lambda>l. ls_state l \<noteq> LeaseReleased) (st_leases s)" P]
    by (simp add: schema_ok_def leases_ok_def one_live_lease_per_attempt_def conj_commute)
  have "\<forall>x \<in> set (st_intents s). in_lease_id x \<in> ls_id ` set (filter P (st_leases s))"
  proof
    fix x
    assume x: "x \<in> set (st_intents s)"
    then obtain l where "l \<in> set (st_leases s)" "ls_id l = in_lease_id x"
      using ok by (auto simp: schema_ok_def references_ok_def)
    then show "in_lease_id x \<in> ls_id ` set (filter P (st_leases s))" using free x by force
  qed
  then show ?thesis
    using ok one by (auto simp: schema_ok_def leases_ok_def references_ok_def intro: distinct_map_filter)
qed

lemma PruneLeaseHistory_keeps [keeps]: "preserves schema_ok (PruneLeaseHistory before limit)"
proof (rule preservesI)
  fix s
  assume ok: "schema_ok s"
  let ?gone = "set (map ls_id (prunableReleasedLeases s before limit))"
  have free: "i \<notin> in_lease_id ` set (st_intents s)" if "i \<in> ?gone" for i
    using that by (fastforce simp: prunableReleasedLeases_def prunable_def list_ex_iff dest: in_set_takeD)
  have "schema_ok (s\<lparr>st_leases := filter (\<lambda>l. ls_id l \<notin> ?gone) (st_leases s)\<rparr>)"
    by (rule delete_leases [OF ok]) (use free in blast)
  then show "schema_ok (snd (PruneLeaseHistory before limit s))" by (simp add: PruneLeaseHistory_def)
qed

lemma PurgeLease_keeps [keeps]: "preserves schema_ok (PurgeLease i)"
proof (rule preservesI)
  fix s
  assume ok: "schema_ok s"
  let ?hit = "\<lambda>l. ls_id l = i \<and> \<not> list_ex (\<lambda>a. at_id a = ls_attempt_id l \<and> is_open (at_state a)) (st_attempts s)"
  have "schema_ok (s\<lparr>st_leases := filter (\<lambda>l. \<not> ?hit l) (st_leases s)\<rparr>)"
    if "\<not> list_ex (\<lambda>x. in_lease_id x = i) (st_intents s)"
    by (rule delete_leases [OF ok]) (use that in \<open>auto simp: list_ex_iff\<close>)
  moreover have "snd (andThen (LeaseByID i) (\<lambda>_. fail ErrConflict :: unit tx) s) = s"
    by (simp add: andThen_def LeaseByID_def split: option.splits)
  ultimately show "schema_ok (snd (PurgeLease i s))" using ok by (simp add: PurgeLease_def Let_def)
qed

section \<open>Deliveries and their attempts\<close>

lemma next_id_fresh [simp]: "next_id ids \<notin> set ids"
proof -
  have "x \<le> foldr max ids 0" if "x \<in> set ids" for x
    using that by (induction ids) (auto simp: max_def)
  then show ?thesis by force
qed

declare next_id.simps [simp del]

lemma next_id_fresh_image [simp]: "next_id (map f xs) \<notin> f ` set xs"
  using next_id_fresh [of "map f xs"] by simp

lemma GetDeliveryByKey_None:
  "GetDeliveryByKey s b key = None \<longleftrightarrow> (b, key) \<notin> (\<lambda>d. (dl_binding_id d, dl_key d)) ` set (st_deliveries s)"
  by (auto simp: GetDeliveryByKey_def find_None_iff)

lemma InsertDelivery_ok:
  assumes "schema_ok s"
  shows "schema_ok (snd (InsertDelivery b key payload format s))"
    and "InsertDelivery b key payload format s = (Inr d, s') \<Longrightarrow> d \<in> set (st_deliveries s')"
  using assms
  by (auto simp: InsertDelivery_def Let_def schema_ok_def references_ok_def GetDeliveryByKey_None split: if_splits)

lemma insertAttempt_ok:
  assumes ok: "schema_ok s" and d: "d \<in> set (st_deliveries s)"
  shows "schema_ok (snd (insertAttempt i d w s))" "st_deliveries (snd (insertAttempt i d w s)) = st_deliveries s"
proof -
  let ?s = "snd (InsertAttempt i d w s)"
  have ok': "schema_ok ?s"
    using ok d
    by (auto simp: InsertAttempt_def Let_def schema_ok_def attempts_ok_def references_ok_def find_attempt_None
        new_attempt_def list_ex_iff)
  have ds: "st_deliveries ?s = st_deliveries s" by (simp add: InsertAttempt_def Let_def)
  have ev: "st_deliveries (snd (RecordEvent i k e t)) = st_deliveries t" for k e t
    by (simp add: RecordEvent_def RecordEventDetail_def andThen_def InsertAttemptEvent_def append_event_def Let_def
        split: option.splits prod.splits sum.splits)
  show "schema_ok (snd (insertAttempt i d w s))"
    using ok' preservesD [OF record_event_keeps(1) ok'] by (auto simp: insertAttempt_def split: prod.splits sum.splits)
  show "st_deliveries (snd (insertAttempt i d w s)) = st_deliveries s"
    using ds ev by (auto simp: insertAttempt_def split: prod.splits sum.splits)
qed

lemma insertAttempts_ok:
  "schema_ok s \<Longrightarrow> d \<in> set (st_deliveries s) \<Longrightarrow> schema_ok (snd (insertAttempts ids d ws s))"
proof (induction ids d ws arbitrary: s rule: insertAttempts.induct)
  case (2 ids d w ws)
  show ?case
  proof (cases ids)
    case Nil
    then show ?thesis using 2 by simp
  next
    case (Cons i ids')
    obtain r s1 where r: "insertAttempt i d w s = (r, s1)" by fastforce
    then have "schema_ok s1" "d \<in> set (st_deliveries s1)"
      using insertAttempt_ok [OF "2.prems", of i w] 2 by simp_all
    then show ?thesis
      using 2 Cons r by (cases r) (auto simp: andThen_def)
  qed
qed simp

lemma recorded_delivery_ok:
  assumes ok: "schema_ok s"
  shows "schema_ok (snd (recorded_delivery sha256 b key assigned s))"
    and "recorded_delivery sha256 b key assigned s = (Inr d, s') \<Longrightarrow> d \<in> set (st_deliveries s')"
  using ok InsertDelivery_ok [OF ok]
  by (auto simp: recorded_delivery_def GetDeliveryByKey_def CurrentDeliveryFingerprint_def find_Some_iff
      split: option.splits if_splits)

lemma RecordDelivery_ok:
  assumes ok: "schema_ok s"
  shows "schema_ok (snd (RecordDelivery sha256 ids b key assigned ws s))"
proof -
  obtain r s' where r: "recorded_delivery sha256 b key assigned s = (r, s')" by fastforce
  then have "schema_ok s'" using recorded_delivery_ok(1) [OF ok] by (metis snd_conv)
  then show ?thesis
    using r recorded_delivery_ok(2) [OF ok] insertAttempts_ok [of s' "projr r" ids ws]
    by (cases r) (auto simp: RecordDelivery_def split: prod.splits sum.splits)
qed

lemma update_deliveries_keeps [keeps]:
  assumes f: "\<And>d. dl_id (f d) = dl_id d" "\<And>d. dl_binding_id (f d) = dl_binding_id d" "\<And>d. dl_key (f d) = dl_key d"
  shows "preserves schema_ok (update_deliveries i P f)"
proof (rule preservesI)
  fix s
  assume ok: "schema_ok s"
  let ?ds = "map (\<lambda>d. if dl_id d = i \<and> P d then f d else d) (st_deliveries s)"
  have same: "map dl_id ?ds = map dl_id (st_deliveries s)"
    "map (\<lambda>d. (dl_binding_id d, dl_key d)) ?ds = map (\<lambda>d. (dl_binding_id d, dl_key d)) (st_deliveries s)"
    "map (\<lambda>d. (dl_id d, dl_binding_id d)) ?ds = map (\<lambda>d. (dl_id d, dl_binding_id d)) (st_deliveries s)"
    using f by auto
  have "schema_ok (s\<lparr>st_deliveries := ds\<rparr>)"
    if "map dl_id ds = map dl_id (st_deliveries s)"
      "map (\<lambda>d. (dl_binding_id d, dl_key d)) ds = map (\<lambda>d. (dl_binding_id d, dl_key d)) (st_deliveries s)"
      "map (\<lambda>d. (dl_id d, dl_binding_id d)) ds = map (\<lambda>d. (dl_id d, dl_binding_id d)) (st_deliveries s)" for ds
    using ok by (simp add: schema_ok_def references_ok_def that del: set_map)
  then show "schema_ok (snd (update_deliveries i P f s))" unfolding update_deliveries_def using same by simp
qed

lemma ack_ops_keep [keeps]:
  "preserves schema_ok (AckRequested i)" "preserves schema_ok (AckConfirmed i)" "preserves schema_ok (AckUncertain i)"
  unfolding AckRequested_def [abs_def] AckConfirmed_def [abs_def] AckUncertain_def [abs_def]
  by (rule preserves_apply, intro keeps; simp)+

section \<open>Intents, lanes and the rest\<close>

lemma replace_intents:
  assumes ok: "schema_ok s" and ids: "map in_id xs = map in_id (st_intents s)"
    "map (\<lambda>x. (in_lease_id x, in_kind x, in_name x)) xs = map (\<lambda>x. (in_lease_id x, in_kind x, in_name x)) (st_intents s)"
  shows "schema_ok (s\<lparr>st_intents := xs\<rparr>)"
proof -
  have "map in_lease_id xs = map in_lease_id (st_intents s)"
    using arg_cong [OF ids(2), of "map fst"] by (simp add: comp_def)
  then have "in_lease_id ` set xs = in_lease_id ` set (st_intents s)" by (metis set_map)
  then have refs: "(\<forall>x \<in> set xs. in_lease_id x \<in> D) = (\<forall>x \<in> set (st_intents s). in_lease_id x \<in> D)" for D
    by (metis (no_types, lifting) image_iff)
  show ?thesis using ok by (simp add: schema_ok_def references_ok_def ids refs)
qed

lemma update_intents_keeps [keeps]:
  assumes "\<And>x. in_id (f x) = in_id x" "\<And>x. in_lease_id (f x) = in_lease_id x" "\<And>x. in_kind (f x) = in_kind x"
    "\<And>x. in_name (f x) = in_name x"
  shows "preserves schema_ok (update_intents P f)"
proof (rule preservesI)
  fix s
  assume ok: "schema_ok s"
  show "schema_ok (snd (update_intents P f s))"
    unfolding update_intents_def snd_conv by (rule replace_intents [OF ok]) (use assms in auto)
qed

lemma PlanResource_keeps [keeps]: "preserves schema_ok (PlanResource l k r n)"
  by (rule preservesI)
    (auto simp: PlanResource_def Let_def schema_ok_def references_ok_def list_ex_iff find_lease_None)

lemma delete_intents_keeps [keeps]:
  "preserves schema_ok (\<lambda>s. (r s, s\<lparr>st_intents := filter P (st_intents s)\<rparr>))"
  by (rule preservesI) (auto simp: schema_ok_def references_ok_def intro: distinct_map_filter)

lemma intent_ops_keep [keeps]:
  "preserves schema_ok (MarkResourceCreating i)" "preserves schema_ok (MarkResourcePresent i d)"
  "preserves schema_ok (MarkResourceCleanup l)" "preserves schema_ok (MarkResourceDeleting i)"
  "preserves schema_ok (ForgetResource i)" "preserves schema_ok (RecordResourceError i m t)"
  unfolding MarkResourceCreating_def [abs_def] MarkResourcePresent_def [abs_def] MarkResourceCleanup_def [abs_def]
    MarkResourceDeleting_def [abs_def] ForgetResource_def [abs_def] RecordResourceError_def [abs_def]
  by (rule preserves_apply, intro keeps; simp)+

lemma replace_lanes:
  "schema_ok s \<Longrightarrow> distinct (map cl_id ls) \<Longrightarrow> \<forall>l \<in> set ls. cl_leased_by l \<noteq> Some [] \<Longrightarrow>
   schema_ok (s\<lparr>st_lanes := ls\<rparr>)"
  by (simp add: schema_ok_def references_ok_def)

lemma update_lanes:
  assumes ok: "schema_ok s" and f: "\<And>l. cl_id (f l) = cl_id l" "\<And>l. P l \<Longrightarrow> l \<in> set (st_lanes s) \<Longrightarrow> cl_leased_by (f l) \<noteq> Some []"
  shows "schema_ok (s\<lparr>st_lanes := map (\<lambda>l. if P l then f l else l) (st_lanes s)\<rparr>)"
proof (rule replace_lanes [OF ok])
  have "map cl_id (map (\<lambda>l. if P l then f l else l) (st_lanes s)) = map cl_id (st_lanes s)" using f(1) by auto
  then show "distinct (map cl_id (map (\<lambda>l. if P l then f l else l) (st_lanes s)))" using ok by (simp only: schema_ok_def)
  show "\<forall>l \<in> set (map (\<lambda>l. if P l then f l else l) (st_lanes s)). cl_leased_by l \<noteq> Some []"
    using ok f(2) by (auto simp: schema_ok_def)
qed

lemma lane_statements_keep [keeps]:
  "preserves schema_ok (ClaimCacheLane l i)" "preserves schema_ok (InsertCacheLane i p g l)"
  "preserves schema_ok (ReleaseCacheLane l)" "preserves schema_ok (DeleteCacheLane i)"
proof -
  show "preserves schema_ok (ClaimCacheLane l i)"
    by (rule preservesI) (auto simp: ClaimCacheLane_def Let_def list_ex_iff intro!: update_lanes)
  show "preserves schema_ok (ReleaseCacheLane l)"
    by (rule preservesI) (auto simp: ReleaseCacheLane_def intro!: update_lanes)
  show "preserves schema_ok (InsertCacheLane i p g l)"
    by (rule preservesI) (auto simp: InsertCacheLane_def schema_ok_def references_ok_def)
  show "preserves schema_ok (DeleteCacheLane i)"
    by (rule preservesI) (auto simp: DeleteCacheLane_def Let_def schema_ok_def references_ok_def intro!: distinct_map_filter)
qed

lemma LeaseCacheLane_keeps [keeps]: "preserves schema_ok (LeaseCacheLane n p g l m)"
proof (rule preservesI)
  fix s
  assume ok: "schema_ok s"
  have "preserves schema_ok (andThen (mustAffect ErrNoLane (ClaimCacheLane l i)) (\<lambda>_. ret i))"
    "preserves schema_ok (andThen (InsertCacheLane n p g l) (\<lambda>_. ret n))" for i :: string
    by (intro keeps)+
  then show "schema_ok (snd (LeaseCacheLane n p g l m s))"
    using ok by (simp add: LeaseCacheLane_def preserves_def split: option.splits)
qed

lemma other_tables_keep [keeps]:
  "preserves schema_ok (EnsureCacheProject n k)" "preserves schema_ok (SetPressure p)"
  "preserves schema_ok (RecordAudit w x y z)" "preserves schema_ok (EnsureBinding t pk k)"
  "preserves schema_ok (ForgetUnclaimedBindings claimed)" "preserves schema_ok PurgeEverything"
  by (auto intro!: preservesI simp: EnsureCacheProject_def SetPressure_def RecordAudit_def EnsureBinding_def
      ForgetUnclaimedBindings_def PurgeEverything_def schema_ok_def references_ok_def attempts_ok_def leases_ok_def
      one_open_attempt_per_workload_def one_live_lease_per_attempt_def Let_def split: option.splits)

end
