(* ===== verification/StoreReach.thy ===== *)
theory StoreReach
  imports StoreInv
begin

text \<open>
  Every call that writes the store, as a value, and the stores that calls can
  produce.  A call may succeed or fail, and a transaction that fails goes back to
  the store it began with, which was already produced: so the reachable stores
  contain every committed store and every store a transaction body sees.  An
  interface of invariants (\<^verbatim>\<open>guarded_store\<close>) is interpreted for the schema, the
  numbering of repeatable events and the retry budget.
\<close>

section \<open>Calls\<close>

datatype walk_step = ToPreparing | ToPrepared | ToRunning

text \<open>The three advances \<^verbatim>\<open>runCapsule\<close> asks for, and the two event keys of each kind that callers make up.\<close>

datatype delivery_op =
    DoRecordDelivery "attempt_id list" binding_id string "workload_assignment list" "workload_row list"
  | DoSupersede binding_id workload_key "resolution option" delivery_id
  | DoAckRequested delivery_id | DoAckConfirmed delivery_id | DoAckUncertain delivery_id

datatype event_op =
    DoRecordEvidence attempt_id string | DoRecordEvidenceForLease lease_id string
  | DoRunningHint attempt_id string | DoExitHint attempt_id string | DoCanceledHint attempt_id
  | DoCleanupCompleted attempt_id lease_id

datatype attempt_op =
    DoAdvance attempt_id walk_step | DoAuthorizeStart lease_id attempt_id
  | DoRequeue attempt_id | DoRequeueProvenInert attempt_id
  | DoCancelReady attempt_id "resolution option"
  | DoResolveReady attempt_id string string | DoResolveSettled attempt_id "resolution option" string string
  | DoSettle attempt_id attempt_state "resolution option" | DoHold attempt_id review_reason

datatype lease_op =
    DoLeaseAttempt lease_id attempt_id binding_id tier_id
  | DoTransitionLease lease_id lease_state lease_state
  | DoSetRuntimeName lease_id string | DoStartObservation lease_id observation
  | DoPruneHistory time nat | DoPurgeLease lease_id

datatype intent_op =
    DoPlan lease_id resource_kind resource_role string | DoCreating intent_id | DoPresent intent_id string
  | DoCleanup lease_id | DoDeleting intent_id | DoForget intent_id | DoResourceError intent_id string time

datatype table_op =
    DoEnsureProject string string | DoLeaseLane string string string lease_id int
  | DoReleaseLane lease_id | DoDeleteLane string
  | DoSetPressure pressure_verdict | DoAudit string string string string
  | DoEnsureBinding string string string | DoForgetBindings "binding_id list" | DoPurgeEverything

datatype store_op =
    Clock time | Delivery delivery_op | Event event_op | Attempt attempt_op | Lease lease_op | Intent intent_op
  | Table table_op

fun walk :: "walk_step \<Rightarrow> attempt_state \<times> attempt_state"
  where
    "walk ToPreparing = (AttemptLeased, AttemptPreparing)"
  | "walk ToPrepared = (AttemptPreparing, AttemptPrepared)"
  | "walk ToRunning = (AttemptStarting, AttemptRunning)"

definition effect :: "'a tx \<Rightarrow> store \<Rightarrow> store"
  where "effect m s = snd (m s)"

primrec exec_delivery :: "(string \<Rightarrow> string) \<Rightarrow> delivery_op \<Rightarrow> store \<Rightarrow> store"
  where
    "exec_delivery sha256 (DoRecordDelivery ids b key assigned ws) = (\<lambda>s. snd (RecordDelivery sha256 ids b key assigned ws s))"
  | "exec_delivery sha256 (DoSupersede b w res d) = effect (SupersedeOpenAttempt b w res d)"
  | "exec_delivery sha256 (DoAckRequested i) = effect (AckRequested i)"
  | "exec_delivery sha256 (DoAckConfirmed i) = effect (AckConfirmed i)"
  | "exec_delivery sha256 (DoAckUncertain i) = effect (AckUncertain i)"

primrec exec_event :: "event_op \<Rightarrow> store \<Rightarrow> store"
  where
    "exec_event (DoRecordEvidence i e) = effect (RecordEvidence i e)"
  | "exec_event (DoRecordEvidenceForLease l e) = effect (RecordEvidenceForLease l e)"
  | "exec_event (DoRunningHint i r) = effect (RecordEvent i (''remote_running_observed:'' @ r) EventRunningObserved)"
  | "exec_event (DoExitHint i r) = effect (RecordEvent i (''remote_exit_observed:'' @ r) EventExitObserved)"
  | "exec_event (DoCanceledHint i) = effect (RecordEvent i ''remote_canceled'' EventRemoteCanceled)"
  | "exec_event (DoCleanupCompleted i l) = effect (RecordEvent i (''cleanup_completed:'' @ l) EventCleanupCompleted)"

primrec exec_attempt :: "attempt_op \<Rightarrow> store \<Rightarrow> store"
  where
    "exec_attempt (DoAdvance i w) = effect (Advance i (fst (walk w)) (snd (walk w)))"
  | "exec_attempt (DoAuthorizeStart l i) = effect (AuthorizeStart l i)"
  | "exec_attempt (DoRequeue i) = effect (Requeue i)"
  | "exec_attempt (DoRequeueProvenInert i) = effect (RequeueProvenInert i)"
  | "exec_attempt (DoCancelReady i res) = effect (CancelReady i res)"
  | "exec_attempt (DoResolveReady i reason actor) = effect (ResolveReviewToReady i reason actor)"
  | "exec_attempt (DoResolveSettled i res reason actor) = effect (ResolveReviewToSettled i res reason actor)"
  | "exec_attempt (DoSettle i st res) = effect (Settle i st res)"
  | "exec_attempt (DoHold i reason) = effect (HoldForReview i reason)"

primrec exec_lease :: "lease_op \<Rightarrow> store \<Rightarrow> store"
  where
    "exec_lease (DoLeaseAttempt n i b t) = effect (LeaseAttempt n i b t)"
  | "exec_lease (DoTransitionLease l from to) = effect (TransitionLease l from to)"
  | "exec_lease (DoSetRuntimeName l n) = effect (SetLeaseRuntimeName l n)"
  | "exec_lease (DoStartObservation l obs) = effect (RecordLeaseStartObservation l obs)"
  | "exec_lease (DoPruneHistory before limit) = effect (PruneLeaseHistory before limit)"
  | "exec_lease (DoPurgeLease l) = effect (PurgeLease l)"

primrec exec_intent :: "intent_op \<Rightarrow> store \<Rightarrow> store"
  where
    "exec_intent (DoPlan l k r n) = effect (PlanResource l k r n)"
  | "exec_intent (DoCreating i) = effect (MarkResourceCreating i)"
  | "exec_intent (DoPresent i d) = effect (MarkResourcePresent i d)"
  | "exec_intent (DoCleanup l) = effect (MarkResourceCleanup l)"
  | "exec_intent (DoDeleting i) = effect (MarkResourceDeleting i)"
  | "exec_intent (DoForget i) = effect (ForgetResource i)"
  | "exec_intent (DoResourceError i m t) = effect (RecordResourceError i m t)"

primrec exec_table :: "table_op \<Rightarrow> store \<Rightarrow> store"
  where
    "exec_table (DoEnsureProject n k) = effect (EnsureCacheProject n k)"
  | "exec_table (DoLeaseLane n p g l m) = effect (LeaseCacheLane n p g l m)"
  | "exec_table (DoReleaseLane l) = effect (ReleaseCacheLane l)"
  | "exec_table (DoDeleteLane i) = effect (DeleteCacheLane i)"
  | "exec_table (DoSetPressure p) = effect (SetPressure p)"
  | "exec_table (DoAudit w x y z) = effect (RecordAudit w x y z)"
  | "exec_table (DoEnsureBinding t p k) = effect (EnsureBinding t p k)"
  | "exec_table (DoForgetBindings claimed) = effect (ForgetUnclaimedBindings claimed)"
  | "exec_table DoPurgeEverything = effect PurgeEverything"

primrec exec :: "(string \<Rightarrow> string) \<Rightarrow> store_op \<Rightarrow> store \<Rightarrow> store"
  where
    "exec sha256 (Clock t) = (\<lambda>s. s\<lparr>st_now := t\<rparr>)"
  | "exec sha256 (Delivery op) = exec_delivery sha256 op"
  | "exec sha256 (Event op) = exec_event op"
  | "exec sha256 (Attempt op) = exec_attempt op"
  | "exec sha256 (Lease op) = exec_lease op"
  | "exec sha256 (Intent op) = exec_intent op"
  | "exec sha256 (Table op) = exec_table op"

definition run :: "(string \<Rightarrow> string) \<Rightarrow> store_op list \<Rightarrow> store \<Rightarrow> store"
  where "run sha256 ops s = fold (exec sha256) ops s"

definition empty_store :: "int \<Rightarrow> time \<Rightarrow> store"
  where "empty_store budget now = \<lparr>st_bindings = [], st_deliveries = [], st_attempts = [], st_events = [], st_leases = [],
    st_intents = [], st_projects = [], st_lanes = [], st_pressure = None, st_audit = [], st_retryBudget = budget,
    st_now = now\<rparr>"

section \<open>Invariants of every call\<close>

text \<open>What a client of the store relies on: a property the empty store has and no call breaks.\<close>

locale guarded_store =
  fixes admissible :: "int \<Rightarrow> bool" and I :: "store \<Rightarrow> bool"
  assumes empty_ok: "admissible budget \<Longrightarrow> I (empty_store budget now)"
    and exec_ok: "I s \<Longrightarrow> I (exec sha256 op s)"
begin

lemma history_step: "I s \<Longrightarrow> I (run sha256 ops s)"
  unfolding run_def by (induction ops arbitrary: s) (simp_all add: exec_ok)

lemma history_ok: "admissible budget \<Longrightarrow> I (run sha256 ops (empty_store budget now))"
  by (rule history_step) (rule empty_ok)

end

lemma effect_keeps: "preserves I m \<Longrightarrow> I s \<Longrightarrow> I (effect m s)"
  by (simp add: effect_def preserves_def)

lemma schema_ok_empty: "schema_ok (empty_store budget now)"
  by (simp add: empty_store_def schema_ok_def attempts_ok_def leases_ok_def references_ok_def
      one_open_attempt_per_workload_def one_live_lease_per_attempt_def)

lemma schema_ok_clock: "schema_ok s \<Longrightarrow> schema_ok (s\<lparr>st_now := t\<rparr>)"
  by (simp add: schema_ok_def references_ok_def)

lemma schema_ok_exec: "schema_ok s \<Longrightarrow> schema_ok (exec sha256 op s)"
proof (cases op)
  case (Delivery o')
  then show "schema_ok s \<Longrightarrow> ?thesis" by (cases o') (simp_all add: RecordDelivery_ok effect_keeps keeps)
next
  case (Event o')
  then show "schema_ok s \<Longrightarrow> ?thesis" by (cases o') (simp_all add: effect_keeps keeps)
next
  case (Attempt o')
  then show "schema_ok s \<Longrightarrow> ?thesis" by (cases o') (simp_all add: effect_keeps keeps)
next
  case (Lease o')
  then show "schema_ok s \<Longrightarrow> ?thesis" by (cases o') (simp_all add: effect_keeps keeps)
next
  case (Intent o')
  then show "schema_ok s \<Longrightarrow> ?thesis" by (cases o') (simp_all add: effect_keeps keeps)
next
  case (Table o')
  then show "schema_ok s \<Longrightarrow> ?thesis" by (cases o') (simp_all add: effect_keeps keeps)
qed (simp add: schema_ok_clock)

interpretation schema: guarded_store "\<lambda>_. True" schema_ok
  by unfold_locales (rule schema_ok_empty, rule schema_ok_exec)

end
