(* ===== verification/StoreBudget.thy ===== *)
theory StoreBudget
  imports StoreReach
begin

text \<open>
  Two more invariants of the store: repeatable events are numbered without gaps,
  so recording one never collides; and the servings of an attempt stay within its
  retry budget plus what operators granted, counted over the event trail, which
  retention never shortens.
\<close>

section \<open>The books\<close>

definition repeatable :: "event_kind set"
  where "repeatable = {EventManualReviewRequested, EventOperatorResolved}"

definition numbered_key :: "event_kind \<Rightarrow> nat \<Rightarrow> string"
  where "numbered_key k n = kind_str k @ '':'' @ decimal (int n)"

definition events_of :: "store \<Rightarrow> attempt_id \<Rightarrow> event_kind \<Rightarrow> attempt_event list"
  where "events_of s i k = filter (\<lambda>e. ev_attempt_id e = i \<and> ev_kind e = k) (st_events s)"

definition numbered :: "store \<Rightarrow> bool"
  where "numbered s \<longleftrightarrow>
    (\<forall>e \<in> set (st_events s). \<forall>k \<in> repeatable. \<forall>n. ev_key e = numbered_key k n \<longrightarrow> ev_kind e = k) \<and>
    (\<forall>i. \<forall>k \<in> repeatable. map ev_key (events_of s i k) = map (numbered_key k) [0..<length (events_of s i k)])"

text \<open>How often an attempt was leased, and how often an operator sent it back, both read off the trail.\<close>

definition attached :: "store \<Rightarrow> attempt_id \<Rightarrow> nat"
  where "attached s i = length (events_of s i EventLeaseAttached)"

definition is_retry :: "attempt_event \<Rightarrow> bool"
  where "is_retry e \<longleftrightarrow> map_of (ev_detail e) ''decision'' = Some ''retry''"

definition retried :: "store \<Rightarrow> attempt_id \<Rightarrow> nat"
  where "retried s i = length (filter is_retry (events_of s i EventOperatorResolved))"

definition allowance :: "store \<Rightarrow> attempt_id \<Rightarrow> int"
  where "allowance s i = st_retryBudget s + int (retried s i)"

definition budgeted :: "store \<Rightarrow> attempt \<Rightarrow> bool"
  where "budgeted s a \<longleftrightarrow>
    int (attached s (at_id a)) \<le> allowance s (at_id a) \<and>
    (is_open (at_state a) \<longrightarrow> int (attached s (at_id a)) \<le> servingsSoFar s (at_id a)) \<and>
    (at_state a = AttemptReady \<longrightarrow> int (attached s (at_id a)) < allowance s (at_id a))"

definition books_ok :: "store \<Rightarrow> bool"
  where "books_ok s \<longleftrightarrow> 1 \<le> st_retryBudget s \<and> numbered s \<and> (\<forall>a \<in> set (st_attempts s). budgeted s a)"

section \<open>Calls outside the books\<close>

definition core :: "store \<Rightarrow> attempt list \<times> attempt_event list \<times> lease list \<times> int"
  where "core s = (st_attempts s, st_events s, st_leases s, st_retryBudget s)"

lemma books_core: "core s' = core s \<Longrightarrow> books_ok s \<Longrightarrow> books_ok s'"
  by (simp add: core_def books_ok_def numbered_def budgeted_def attached_def allowance_def retried_def events_of_def
      servingsSoFar_def)

lemma core_keeps: "(\<And>s. core (snd (m s)) = core s) \<Longrightarrow> preserves books_ok m"
  by (meson preservesI books_core)

lemma core_deliveries [simp]: "core (s\<lparr>st_deliveries := x\<rparr>) = core s" "core (s\<lparr>st_intents := y\<rparr>) = core s"
  "core (s\<lparr>st_lanes := z\<rparr>) = core s" "core (s\<lparr>st_projects := u\<rparr>) = core s" "core (s\<lparr>st_bindings := v\<rparr>) = core s"
  "core (s\<lparr>st_now := t\<rparr>) = core s" "core (s\<lparr>st_pressure := p\<rparr>) = core s" "core (s\<lparr>st_audit := q\<rparr>) = core s"
  by (simp_all add: core_def)

section \<open>Attempts that move on\<close>

text \<open>A move inside the books: the attempt keeps its state, or leaves the queue without reopening.\<close>

definition quiet :: "attempt \<Rightarrow> attempt \<Rightarrow> bool"
  where "quiet a b \<longleftrightarrow> at_id b = at_id a \<and> (at_state b = at_state a \<or>
    at_state b \<noteq> AttemptReady \<and> (is_open (at_state b) \<longrightarrow> is_open (at_state a)))"

lemma read_attempts [simp]:
  "events_of (s\<lparr>st_attempts := as\<rparr>) i k = events_of s i k" "attached (s\<lparr>st_attempts := as\<rparr>) i = attached s i"
  "allowance (s\<lparr>st_attempts := as\<rparr>) i = allowance s i" "servingsSoFar (s\<lparr>st_attempts := as\<rparr>) i = servingsSoFar s i"
  "numbered (s\<lparr>st_attempts := as\<rparr>) = numbered s" "budgeted (s\<lparr>st_attempts := as\<rparr>) a = budgeted s a"
  by (simp_all add: events_of_def attached_def allowance_def retried_def servingsSoFar_def numbered_def budgeted_def)

lemma budgeted_quiet: "quiet a b \<Longrightarrow> budgeted s a \<Longrightarrow> budgeted s b"
  by (auto simp: quiet_def budgeted_def)

lemma update_books:
  assumes "books_ok s"
    and "\<And>a. a \<in> set (st_attempts s) \<Longrightarrow> at_id a = i \<Longrightarrow> P a \<Longrightarrow> budgeted s a \<Longrightarrow> budgeted s (f a)"
  shows "books_ok (snd (update_attempts i P f s))"
  using assms by (auto simp: update_attempts_def Let_def books_ok_def)

lemma update_quiet [keeps]:
  "(\<And>a. P a \<Longrightarrow> quiet a (f a)) \<Longrightarrow> preserves books_ok (update_attempts i P f)"
  by (rule preservesI, rule update_books) (auto intro: budgeted_quiet)

section \<open>Events\<close>

lemma events_of_append:
  "events_of (append_event i key kind detail s) j k = events_of s j k @
    (if j = i \<and> k = kind then [\<lparr>ev_attempt_id = i, ev_key = key, ev_kind = kind, ev_detail = detail, ev_created_at = st_now s\<rparr>]
     else [])"
  by (auto simp: events_of_def append_event_def)

lemma append_reads [simp]:
  "st_attempts (append_event i key kind detail s) = st_attempts s" "st_leases (append_event i key kind detail s) = st_leases s"
  "st_retryBudget (append_event i key kind detail s) = st_retryBudget s"
  "servingsSoFar (append_event i key kind detail s) j = servingsSoFar s j"
  by (simp_all add: append_event_def servingsSoFar_def)

lemma attached_append:
  "attached (append_event i key kind detail s) j = attached s j + (if j = i \<and> kind = EventLeaseAttached then 1 else 0)"
  by (simp add: attached_def events_of_append)

lemma retried_append:
  "retried s j \<le> retried (append_event i key kind detail s) j"
  by (simp add: retried_def events_of_append)

lemma retried_append_retry:
  "is_retry e \<Longrightarrow> ev_detail e = detail \<Longrightarrow> retried (append_event i key EventOperatorResolved detail s) i = retried s i + 1"
  by (simp add: retried_def events_of_append is_retry_def)

lemma budgeted_append: "kind \<noteq> EventLeaseAttached \<Longrightarrow> budgeted s a \<Longrightarrow> budgeted (append_event i key kind detail s) a"
  using retried_append [of s "at_id a" i key kind detail]
  by (auto simp: budgeted_def allowance_def attached_append)

text \<open>A key callers make up begins with none of the letters that begin a numbered key.\<close>

definition plain_key :: "string \<Rightarrow> bool"
  where "plain_key key \<longleftrightarrow> key \<noteq> [] \<and> hd key \<noteq> CHR ''m'' \<and> hd key \<noteq> CHR ''o''"

lemma plain_not_numbered: "plain_key key \<Longrightarrow> k \<in> repeatable \<Longrightarrow> key \<noteq> numbered_key k n"
  by (auto simp: plain_key_def repeatable_def numbered_key_def)

lemma numbered_plain:
  assumes "numbered s" "plain_key key" "kind \<notin> repeatable"
  shows "numbered (append_event i key kind detail s)"
proof -
  have "events_of (append_event i key kind detail s) j k = events_of s j k" if "k \<in> repeatable" for j k
    using that assms(3) by (auto simp: events_of_append)
  then show ?thesis
    using assms plain_not_numbered by (auto simp: numbered_def append_event_def)
qed

lemma numbered_key_inject: "k \<in> repeatable \<Longrightarrow> k' \<in> repeatable \<Longrightarrow> numbered_key k n = numbered_key k' m \<longleftrightarrow> k = k' \<and> n = m"
  using decimal_inject [of "int n" "int m"] by (auto simp: repeatable_def numbered_key_def)

lemma numbered_fresh:
  assumes "numbered s" "k \<in> repeatable"
  shows "\<not> has_event s i (numbered_key k (length (events_of s i k)))"
proof
  let ?n = "length (events_of s i k)"
  assume "has_event s i (numbered_key k ?n)"
  then obtain e where e: "e \<in> set (st_events s)" "ev_attempt_id e = i" "ev_key e = numbered_key k ?n"
    by (auto simp: has_event_def list_ex_iff)
  then have "e \<in> set (events_of s i k)" using assms by (auto simp: numbered_def events_of_def)
  then have "numbered_key k ?n \<in> set (map ev_key (events_of s i k))" using e(3) by force
  also have "\<dots> = numbered_key k ` {0..<?n}" using assms by (auto simp: numbered_def)
  finally show False using numbered_key_inject [OF assms(2) assms(2)] by auto
qed

lemma numbered_next:
  assumes num: "numbered s" and k: "k \<in> repeatable"
  shows "numbered (append_event i (numbered_key k (length (events_of s i k))) k detail s)"
proof -
  have old: "ev_kind e = k'" if "e \<in> set (st_events s)" "k' \<in> repeatable" "ev_key e = numbered_key k' n" for e k' n
    using num that unfolding numbered_def by blast
  have "ev_kind e = k'"
    if "e \<in> set (st_events (append_event i (numbered_key k (length (events_of s i k))) k detail s))" "k' \<in> repeatable"
      "ev_key e = numbered_key k' n" for e k' n
    using that old numbered_key_inject [OF k that(2)] by (auto simp: append_event_def)
  then show ?thesis using num by (auto simp: numbered_def events_of_append)
qed

lemma append_books:
  assumes "books_ok s" "plain_key key" "kind \<notin> repeatable" "kind \<noteq> EventLeaseAttached"
  shows "books_ok (append_event i key kind detail s)"
  using assms by (simp add: books_ok_def numbered_plain budgeted_append)

lemma plain_events_keep [keeps]:
  assumes "plain_key key" "kind \<notin> repeatable" "kind \<noteq> EventLeaseAttached"
  shows "preserves books_ok (RecordEvent i key kind)" "preserves books_ok (RecordEventDetail i key kind detail)"
proof -
  have "preserves books_ok (InsertAttemptEvent i key kind d)" for d
    by (rule preservesI) (simp add: InsertAttemptEvent_def append_books assms)
  then show "preserves books_ok (RecordEvent i key kind)" "preserves books_ok (RecordEventDetail i key kind detail)"
    by (simp_all add: RecordEvent_def RecordEventDetail_def keeps)
qed

lemma repeatable_event:
  assumes "numbered s" "k \<in> repeatable" "find_attempt s i \<noteq> None"
  shows "RecordRepeatableEvent i k detail s =
    (Inr (), append_event i (numbered_key k (length (events_of s i k))) k detail s)"
  using numbered_fresh [OF assms(1,2), of i] assms(3)
  by (simp add: RecordRepeatableEvent_def InsertSequencedAttemptEvent_def andThen_def numbered_key_def events_of_def Let_def)

lemma repeatable_books:
  "books_ok s \<Longrightarrow> k \<in> repeatable \<Longrightarrow> books_ok (append_event i (numbered_key k (length (events_of s i k))) k detail s)"
  by (auto simp: books_ok_def numbered_next repeatable_def intro: budgeted_append)

lemma repeatable_events_keep [keeps]:
  assumes "k \<in> repeatable"
  shows "preserves books_ok (RecordRepeatableEvent i k detail)"
proof (rule preservesI)
  fix s
  assume ok: "books_ok s"
  show "books_ok (snd (RecordRepeatableEvent i k detail s))"
  proof (cases "find_attempt s i = None")
    case True
    then have "snd (RecordRepeatableEvent i k detail s) = s"
      by (simp add: RecordRepeatableEvent_def InsertSequencedAttemptEvent_def andThen_def Let_def)
    then show ?thesis using ok by simp
  next
    case False
    moreover have "numbered s" using ok by (simp add: books_ok_def)
    ultimately show ?thesis using repeatable_event [of s k i detail] repeatable_books [OF ok assms] assms by simp
  qed
qed

lemmas state_facts = is_open_def quiet_def repeatable_def plain_key_def

lemma eventKindOf_plain: "eventKindOf e = Some k \<Longrightarrow> k \<notin> repeatable \<and> k \<noteq> EventLeaseAttached"
  by (cases e) (auto simp: repeatable_def)

lemma RecordEvidence_books [keeps]: "preserves books_ok (RecordEvidence i ev)"
  unfolding RecordEvidence_def RecordAttemptEvidence_def Let_def
  by (intro keeps) (auto simp: quiet_def plain_key_def dest: eventKindOf_plain)

lemma RecordEvidenceForLease_books [keeps]: "preserves books_ok (RecordEvidenceForLease l ev)"
  unfolding RecordEvidenceForLease_def by (intro keeps)

section \<open>Calls that leave the queue or stay out of it\<close>

lemma attempt_ops_books [keeps]:
  "preserves books_ok (Advance i (fst (walk w)) (snd (walk w)))" "preserves books_ok (HoldForReview i reason)"
  "preserves books_ok (SupersedeOpenAttempt b wk res d)"
proof -
  show "preserves books_ok (Advance i (fst (walk w)) (snd (walk w)))"
    by (cases w; simp add: Advance_def TransitionAttempt_def; intro keeps; simp add: state_facts)
  show "preserves books_ok (HoldForReview i reason)"
    unfolding HoldForReview_def MarkAttemptManualReview_def by (intro keeps; auto simp: state_facts)
  have "preserves books_ok (SupersedeAttempt res j)" for j
    unfolding SupersedeAttempt_def [abs_def] by (rule preserves_apply, intro keeps; simp add: state_facts)
  then show "preserves books_ok (SupersedeOpenAttempt b wk res d)"
    unfolding SupersedeOpenAttempt_def by (intro keeps; simp add: state_facts)
qed

lemma ending_statements_books [keeps]:
  "preserves books_ok (AuthorizeAttemptStart i l)" "preserves books_ok (CancelReadyAttempt res i)"
  "preserves books_ok (ResolveManualReviewToSettled res actor i)" "preserves books_ok (SettleAttempt res i st)"
  unfolding stamped_statements by (rule preserves_apply, intro keeps; auto simp: state_facts)+

lemma ending_ops_books [keeps]:
  "preserves books_ok (AuthorizeStart l i)" "preserves books_ok (CancelReady i res)"
  "preserves books_ok (ResolveReviewToSettled i res reason actor)" "preserves books_ok (Settle i st res)"
  unfolding AuthorizeStart_def CancelReady_def ResolveReviewToSettled_def Settle_def
  by (intro keeps; simp add: state_facts)+

section \<open>Calls that reopen\<close>

lemma snd_mustAffect [simp]: "snd (mustAffect e m s) = snd (m s)"
  by (auto simp: mustAffect_def andThen_def split: prod.splits sum.splits)

lemma requeue_books:
  assumes ok: "books_ok s" and within: "servingsSoFar s i < st_retryBudget s" and open_only: "\<And>a. P a \<Longrightarrow> is_open (at_state a)"
  shows "books_ok (snd (update_attempts i P requeued s))"
  by (rule update_books [OF ok])
    (use within open_only in \<open>auto simp: budgeted_def requeued_def is_open_def allowance_def\<close>)

lemma requeue_ops_books [keeps]:
  "preserves books_ok (Requeue i)" "preserves books_ok (RequeueProvenInert i)"
proof -
  have here: "books_ok (snd (andThen (withinRetryBudget i) (\<lambda>_. mustAffect ErrConflict (update_attempts i P requeued)) s))"
    if "books_ok s" "\<And>a. P a \<Longrightarrow> is_open (at_state a)" for P s
    using that requeue_books [of s i P] by (simp add: andThen_def withinRetryBudget_def not_le)
  show "preserves books_ok (Requeue i)" "preserves books_ok (RequeueProvenInert i)"
    unfolding Requeue_def RequeueProvenInert_def walk_statements
    by (rule preservesI, rule here, assumption, auto simp: is_open_def)+
qed

lemma find_attempt_mem: "find_attempt s i \<noteq> None \<longleftrightarrow> i \<in> at_id ` set (st_attempts s)"
  by (auto simp: find_attempt_None)

lemma update_attempts_Inr:
  assumes up: "update_attempts i P f s = (Inr n, s1)" and f: "\<And>a. at_id (f a) = at_id a"
  shows "s1 = s\<lparr>st_attempts := map (\<lambda>a. if at_id a = i \<and> P a then f a else a) (st_attempts s)\<rparr>"
    and "n \<noteq> 0 \<longleftrightarrow> (\<exists>a \<in> set (st_attempts s). at_id a = i \<and> P a)"
    and "map at_id (st_attempts s1) = map at_id (st_attempts s)"
  using up f by (auto simp: update_attempts_def Let_def filter_empty_conv split: if_splits)

lemma grant_books:
  assumes ok: "books_ok s" and f: "\<And>a. at_id (f a) = at_id a" "\<And>a. P a \<Longrightarrow> is_open (at_state a)"
    and retry: "map_of detail ''decision'' = Some ''retry''"
    and up: "update_attempts i P f s = (Inr n, s1)"
  shows "books_ok (append_event i (numbered_key EventOperatorResolved (length (events_of s1 i EventOperatorResolved)))
     EventOperatorResolved detail s1)" (is "books_ok ?s2")
proof -
  have s1: "s1 = s\<lparr>st_attempts := map (\<lambda>a. if at_id a = i \<and> P a then f a else a) (st_attempts s)\<rparr>"
    using up by (auto simp: update_attempts_def Let_def split: if_splits)
  have num: "numbered ?s2" using ok numbered_next [of s1] by (simp add: s1 books_ok_def repeatable_def)
  have "budgeted ?s2 b" if b: "b \<in> set (st_attempts s1)" for b
  proof -
    obtain a where a: "a \<in> set (st_attempts s)" "b = (if at_id a = i \<and> P a then f a else a)"
      using b by (auto simp: s1)
    have budget: "budgeted s a" using ok a(1) by (simp add: books_ok_def)
    show ?thesis
    proof (cases "at_id a = i \<and> P a")
      case False
      then have "b = a" using a(2) by auto
      then show ?thesis using budget by (auto simp: s1 intro: budgeted_append)
    next
      case True
      have "allowance ?s2 i = allowance s i + 1"
        using retry by (simp add: allowance_def retried_def events_of_append is_retry_def s1)
      moreover have "attached ?s2 i = attached s i" by (simp add: attached_append s1)
      ultimately show ?thesis using True a(2) budget f by (simp add: budgeted_def s1)
    qed
  qed
  then show ?thesis using num ok by (simp add: books_ok_def s1)
qed

lemma ResolveReviewToReady_books [keeps]: "preserves books_ok (ResolveReviewToReady i reason actor)"
proof (rule preservesI)
  fix s
  assume ok: "books_ok s"
  define P :: "attempt \<Rightarrow> bool" where "P = (\<lambda>a. at_state a = AttemptManualReview)"
  define f :: "attempt \<Rightarrow> attempt" where "f = (\<lambda>a. a\<lparr>at_state := AttemptReady, at_evidence := EvidenceNotStarted, at_review_reason := None,
             at_resolution := None, at_reviewed_at := Some (st_now s), at_reviewed_by := Some actor\<rparr>)"
  define detail where "detail = [(''decision'', ''retry''), (''actor'', actor), (''reason'', reason)]"
  have eq: "ResolveReviewToReady i reason actor s = andThen (mustAffect ErrConflict (named_actor i actor (update_attempts i P f)))
      (\<lambda>_. RecordRepeatableEvent i EventOperatorResolved detail) s"
    by (simp add: ResolveReviewToReady_def ResolveManualReviewToReady_def mustAffect_def andThen_def P_def f_def detail_def)
  have "(\<exists>e. named_actor i actor (update_attempts i P f) s = (Inl e, s)) \<or>
      (\<exists>n s1. named_actor i actor (update_attempts i P f) s = (Inr n, s1) \<and> update_attempts i P f s = (Inr n, s1))"
    by (simp add: named_actor_def update_attempts_def Let_def)
  then consider e where "named_actor i actor (update_attempts i P f) s = (Inl e, s)"
    | n s1 where "named_actor i actor (update_attempts i P f) s = (Inr n, s1)" "update_attempts i P f s = (Inr n, s1)"
    by blast
  then show "books_ok (snd (ResolveReviewToReady i reason actor s))"
  proof cases
    case 1
    then show ?thesis using ok by (simp add: eq andThen_def mustAffect_def)
  next
    case (2 n s1)
    show ?thesis
    proof (cases "n = 0")
      case True
      then have none: "\<not> (at_id a = i \<and> P a)" if "a \<in> set (st_attempts s)" for a
        using that update_attempts_Inr(2) [OF 2(2)] by (auto simp: f_def)
      have "books_ok (snd (update_attempts i P f s))" by (rule update_books [OF ok]) (use none in blast)
      then show ?thesis using True 2 by (simp add: eq andThen_def mustAffect_def)
    next
      case False
      then have "i \<in> set (map at_id (st_attempts s1))"
        using update_attempts_Inr [OF 2(2)] by (simp del: set_map) (force simp: f_def)
      then have "find_attempt s1 i \<noteq> None" unfolding find_attempt_mem by simp
      moreover have "numbered s1" using ok update_attempts_Inr(1) [OF 2(2)] by (simp add: f_def books_ok_def)
      ultimately have "find_attempt s1 i \<noteq> None" "numbered s1" by simp_all
      from repeatable_event [OF this(2) _ this(1), of EventOperatorResolved detail]
      have "snd (ResolveReviewToReady i reason actor s) =
          append_event i (numbered_key EventOperatorResolved (length (events_of s1 i EventOperatorResolved))) EventOperatorResolved detail s1"
        using False 2 by (simp add: eq andThen_def mustAffect_def repeatable_def)
      moreover have "books_ok \<dots>"
        by (rule grant_books [OF ok _ _ _ 2(2)]) (auto simp: f_def P_def detail_def is_open_def)
      ultimately show ?thesis by simp
    qed
  qed
qed

section \<open>Leases\<close>

lemma read_leases [simp]:
  "events_of (s\<lparr>st_leases := ls\<rparr>) i k = events_of s i k" "attached (s\<lparr>st_leases := ls\<rparr>) i = attached s i"
  "allowance (s\<lparr>st_leases := ls\<rparr>) i = allowance s i" "numbered (s\<lparr>st_leases := ls\<rparr>) = numbered s"
  by (simp_all add: events_of_def attached_def allowance_def retried_def numbered_def)

lemma leases_books:
  assumes ok: "books_ok s"
    and more: "\<And>a. a \<in> set (st_attempts s) \<Longrightarrow> is_open (at_state a) \<Longrightarrow>
      servingsSoFar s (at_id a) \<le> servingsSoFar (s\<lparr>st_leases := ls\<rparr>) (at_id a)"
  shows "books_ok (s\<lparr>st_leases := ls\<rparr>)"
  using ok more by (force simp: books_ok_def budgeted_def)

lemma servings_map:
  "(\<And>l. ls_attempt_id (f l) = ls_attempt_id l) \<Longrightarrow>
   servingsSoFar (s\<lparr>st_leases := map (\<lambda>l. if Q l then f l else l) (st_leases s)\<rparr>) i = servingsSoFar s i"
  by (simp add: servingsSoFar_def filter_map comp_def if_distrib [of ls_attempt_id] cong: if_cong)

lemma update_leases_books [keeps]:
  "(\<And>l. ls_attempt_id (f l) = ls_attempt_id l) \<Longrightarrow> preserves books_ok (update_leases i P f)"
  by (rule preservesI) (auto simp: update_leases_def Let_def servings_map intro!: leases_books)

lemma lease_field_ops_books [keeps]:
  "preserves books_ok (SetLeaseRuntimeName i name)" "preserves books_ok (RecordLeaseStartObservation i obs)"
  "preserves books_ok (TransitionLease i from to)"
proof -
  have stamp: "books_ok (snd (update_leases i P (f s) s))"
    if "books_ok s" "\<And>t l. ls_attempt_id (f t l) = ls_attempt_id l" for P f s
    using that by (intro preservesD [OF update_leases_books]) simp_all
  show "preserves books_ok (SetLeaseRuntimeName i name)"
    by (rule preservesI) (simp add: SetLeaseRuntimeName_def stamp [where f = "\<lambda>s l. l\<lparr>ls_runtime_name := Some name, ls_updated_at := st_now s\<rparr>"])
  show "preserves books_ok (RecordLeaseStartObservation i obs)"
    by (rule preservesI) (simp add: RecordLeaseStartObservation_def stamp [where f = "\<lambda>s l. l\<lparr>ls_start_observation := Some obs, ls_updated_at := st_now s\<rparr>"])
  have "snd (andThen m (\<lambda>n. if n = 0 then andThen (LeaseByID i) (\<lambda>_. fail ErrStateConflict) else ret ()) s) = snd (m s)"
    for m :: "nat tx" and s
    by (auto simp: andThen_def LeaseByID_def split: prod.splits sum.splits option.splits)
  then show "preserves books_ok (TransitionLease i from to)"
    by (intro preservesI) (simp add: TransitionLease_def stamp [where f = "\<lambda>s l. l\<lparr>ls_state := to, ls_updated_at := st_now s\<rparr>"])
qed

text \<open>Retention drops no lease of an open attempt, so it never lowers a count the budget reads.\<close>

lemma servings_filter:
  assumes "\<And>l. l \<in> set (st_leases s) \<Longrightarrow> ls_attempt_id l = i \<Longrightarrow> Q l"
  shows "servingsSoFar (s\<lparr>st_leases := filter Q (st_leases s)\<rparr>) i = servingsSoFar s i"
proof -
  have "filter (\<lambda>l. ls_attempt_id l = i) (filter Q (st_leases s)) = filter (\<lambda>l. ls_attempt_id l = i) (st_leases s)"
    using assms by (auto intro: filter_cong)
  then show ?thesis by (simp add: servingsSoFar_def del: filter_filter)
qed

lemma retention_books:
  assumes ok: "books_ok s"
    and kept: "\<And>l a. l \<in> set (st_leases s) \<Longrightarrow> a \<in> set (st_attempts s) \<Longrightarrow> ls_attempt_id l = at_id a \<Longrightarrow> is_open (at_state a) \<Longrightarrow> Q l"
  shows "books_ok (s\<lparr>st_leases := filter Q (st_leases s)\<rparr>)"
proof (rule leases_books [OF ok])
  fix a
  assume "a \<in> set (st_attempts s)" "is_open (at_state a)"
  then have "servingsSoFar (s\<lparr>st_leases := filter Q (st_leases s)\<rparr>) (at_id a) = servingsSoFar s (at_id a)"
    using kept by (intro servings_filter) auto
  then show "servingsSoFar s (at_id a) \<le> servingsSoFar (s\<lparr>st_leases := filter Q (st_leases s)\<rparr>) (at_id a)" by simp
qed

lemma prunable_listed: "l \<in> set (prunableReleasedLeases s before limit) \<Longrightarrow> l \<in> set (st_leases s) \<and> prunable s before l"
  by (auto simp: prunableReleasedLeases_def dest!: in_set_takeD)

lemma PruneLeaseHistory_books:
  assumes "schema_ok s" "books_ok s"
  shows "books_ok (snd (PruneLeaseHistory before limit s))"
proof -
  let ?gone = "set (map ls_id (prunableReleasedLeases s before limit))"
  have "ls_id l \<notin> ?gone"
    if l: "l \<in> set (st_leases s)" and a: "a \<in> set (st_attempts s)" "ls_attempt_id l = at_id a" "is_open (at_state a)" for l a
  proof
    assume "ls_id l \<in> ?gone"
    then obtain l' where l': "l' \<in> set (st_leases s)" "ls_id l' = ls_id l" "prunable s before l'"
      using prunable_listed by fastforce
    have "l' = l" using l' l assms(1) by (auto simp: schema_ok_def leases_ok_def distinct_map dest: inj_onD)
    then show False using l'(3) a by (auto simp: prunable_def list_ex_iff)
  qed
  then have "books_ok (s\<lparr>st_leases := filter (\<lambda>l. ls_id l \<notin> ?gone) (st_leases s)\<rparr>)"
    by (intro retention_books [OF assms(2)]) blast
  then show ?thesis by (simp add: PruneLeaseHistory_def)
qed

lemma PurgeLease_books [keeps]: "preserves books_ok (PurgeLease i)"
proof (rule preservesI)
  fix s
  assume ok: "books_ok s"
  let ?hit = "\<lambda>l. ls_id l = i \<and> \<not> list_ex (\<lambda>a. at_id a = ls_attempt_id l \<and> is_open (at_state a)) (st_attempts s)"
  have "books_ok (s\<lparr>st_leases := filter (\<lambda>l. \<not> ?hit l) (st_leases s)\<rparr>)"
    by (rule retention_books [OF ok]) (auto simp: list_ex_iff)
  moreover have "snd (andThen (LeaseByID i) (\<lambda>_. fail ErrConflict :: unit tx) s) = s"
    by (simp add: andThen_def LeaseByID_def split: option.splits)
  ultimately show "books_ok (snd (PurgeLease i s))" using ok by (simp add: PurgeLease_def Let_def)
qed

text \<open>The claim takes the last ready unit of the allowance, the row pays for it, and only then is the event written.\<close>

lemma attach_books:
  assumes ok: "books_ok s" and key: "plain_key key"
    and paid: "\<And>a. a \<in> set (st_attempts s) \<Longrightarrow> at_id a = i \<Longrightarrow> at_state a \<noteq> AttemptReady"
      "int (attached s i) < allowance s i" "int (attached s i) < servingsSoFar s i"
  shows "books_ok (append_event i key EventLeaseAttached detail s)"
proof -
  have "budgeted (append_event i key EventLeaseAttached detail s) a" if a: "a \<in> set (st_attempts s)" for a
  proof -
    have "retried (append_event i key EventLeaseAttached detail s) j = retried s j" for j
      by (simp add: retried_def events_of_append)
    moreover have "budgeted s a" using ok a by (simp add: books_ok_def)
    ultimately show ?thesis using paid a by (auto simp: budgeted_def attached_append allowance_def)
  qed
  then show ?thesis using ok key numbered_plain by (simp add: books_ok_def repeatable_def)
qed

lemma InsertLease_cases:
  obtains e where "InsertLease n b i tier st s = (Inl e, s)"
  | l where "InsertLease n b i tier st s = (Inr (), s\<lparr>st_leases := st_leases s @ [l]\<rparr>)" "ls_attempt_id l = i"
proof -
  have "(\<exists>e. InsertLease n b i tier st s = (Inl e, s)) \<or>
      (\<exists>l. InsertLease n b i tier st s = (Inr (), s\<lparr>st_leases := st_leases s @ [l]\<rparr>) \<and> ls_attempt_id l = i)"
    unfolding InsertLease_def Let_def by (auto intro!: exI)
  then show thesis using that by blast
qed

lemma claimed:
  assumes ok: "books_ok s" and claim: "mustAffect ErrConflict (ClaimReadyAttempt i) s = (Inr u, s1)"
  shows "books_ok s1" "int (attached s1 i) < allowance s1 i" "int (attached s1 i) \<le> servingsSoFar s1 i"
    "\<forall>a \<in> set (st_attempts s1). at_id a = i \<longrightarrow> at_state a \<noteq> AttemptReady"
proof -
  obtain n where up: "update_attempts i (\<lambda>a. at_state a = AttemptReady) (\<lambda>a. a\<lparr>at_state := AttemptLeased\<rparr>) s = (Inr n, s1)"
    and n: "n \<noteq> 0" using claim by (auto simp: mustAffect_Inr ClaimReadyAttempt_def)
  have "preserves books_ok (ClaimReadyAttempt i)"
    unfolding ClaimReadyAttempt_def by (intro keeps) (simp add: state_facts)
  from preservesD [OF this ok] show "books_ok s1" by (simp add: ClaimReadyAttempt_def up)
  note rows = update_attempts_Inr [OF up, simplified]
  obtain a where a: "a \<in> set (st_attempts s)" "at_id a = i" "at_state a = AttemptReady" using rows(2) n by auto
  have "budgeted s a" using ok a(1) by (simp add: books_ok_def)
  then show "int (attached s1 i) < allowance s1 i" "int (attached s1 i) \<le> servingsSoFar s1 i"
    using a by (simp_all add: budgeted_def is_open_def rows(1))
  show "\<forall>a \<in> set (st_attempts s1). at_id a = i \<longrightarrow> at_state a \<noteq> AttemptReady"
    by (simp add: rows(1) ball_Un image_iff)
qed

lemma attach_event_books:
  assumes ok: "books_ok s" and l: "ls_attempt_id l = i"
    and paid: "int (attached s i) < allowance s i" "int (attached s i) \<le> servingsSoFar s i"
      "\<forall>a \<in> set (st_attempts s). at_id a = i \<longrightarrow> at_state a \<noteq> AttemptReady"
  shows "books_ok (snd (RecordEvent i (''lease_attached:'' @ n) EventLeaseAttached (s\<lparr>st_leases := st_leases s @ [l]\<rparr>)))"
proof -
  let ?s = "s\<lparr>st_leases := st_leases s @ [l]\<rparr>"
  have ok2: "books_ok ?s" by (rule leases_books [OF ok]) (simp add: servingsSoFar_def)
  have "servingsSoFar ?s i = servingsSoFar s i + 1" using l by (simp add: servingsSoFar_def)
  then have "books_ok (append_event i (''lease_attached:'' @ n) EventLeaseAttached [] ?s)"
    using paid by (intro attach_books [OF ok2]) (simp_all add: plain_key_def)
  then show ?thesis using ok2 by (simp add: RecordEvent_def andThen_def InsertAttemptEvent_def)
qed

lemma LeaseAttempt_books [keeps]: "preserves books_ok (LeaseAttempt newID i b tier)"
proof (rule preservesI)
  fix s
  assume ok: "books_ok s"
  obtain r s1 where claim: "mustAffect ErrConflict (ClaimReadyAttempt i) s = (r, s1)" by fastforce
  have lookup: "snd (andThen m (\<lambda>_. LeaseByID newID) t) = snd (m t)" for m :: "unit tx" and t
    by (auto simp: andThen_def LeaseByID_def split: prod.splits sum.splits option.splits)
  show "books_ok (snd (LeaseAttempt newID i b tier s))"
  proof (cases r)
    case (Inl e)
    have "preserves books_ok (ClaimReadyAttempt i)"
      unfolding ClaimReadyAttempt_def by (intro keeps) (simp add: state_facts)
    from preservesD [OF preserves_mustAffect [OF this, where e = ErrConflict] ok] show ?thesis
      using claim Inl by (simp add: LeaseAttempt_def del: snd_mustAffect)
  next
    case (Inr u)
    note held = claimed [OF ok claim [unfolded Inr]]
    show ?thesis
    proof (cases rule: InsertLease_cases [of newID b i tier LeaseReserved s1])
      case (1 e)
      then show ?thesis using claim Inr held(1) by (simp add: LeaseAttempt_def)
    next
      case (2 l)
      then show ?thesis
        using claim Inr attach_event_books [OF held(1) 2(2) held(2-4), of newID] by (simp add: LeaseAttempt_def lookup)
    qed
  qed
qed

section \<open>New work, and everything else\<close>

lemma fresh_attempt_unseen:
  assumes "schema_ok s" "find_attempt s i = None"
  shows "attached s i = 0"
proof -
  have "i \<notin> at_id ` set (st_attempts s)" using assms(2) by (simp add: find_attempt_None)
  then have "events_of s i k = []" for k
    using assms(1) by (auto simp: schema_ok_def references_ok_def events_of_def filter_empty_conv)
  then show ?thesis by (simp add: attached_def)
qed

lemma insertAttempt_books:
  assumes "schema_ok s" "books_ok s"
  shows "books_ok (snd (insertAttempt i d w s))"
proof -
  have "budgeted s (new_attempt i d w t)" if "find_attempt s i = None" for t
    using assms(2) fresh_attempt_unseen [OF assms(1) that]
    by (simp add: books_ok_def budgeted_def new_attempt_def allowance_def servingsSoFar_def)
  then have new: "books_ok (s\<lparr>st_attempts := st_attempts s @ [new_attempt i d w t]\<rparr>)" if "find_attempt s i = None" for t
    using assms(2) that by (simp add: books_ok_def)
  have ok: "books_ok (snd (InsertAttempt i d w s))"
    using new assms(2) by (simp add: InsertAttempt_def Let_def)
  have "preserves books_ok (RecordEvent i ''attempt_created'' EventAttemptCreated)"
    by (rule plain_events_keep) (simp_all add: plain_key_def repeatable_def)
  from preservesD [OF this] ok show ?thesis
    by (auto simp: insertAttempt_def split: prod.splits sum.splits)
qed

lemma insertAttempts_books:
  "schema_ok s \<Longrightarrow> d \<in> set (st_deliveries s) \<Longrightarrow> books_ok s \<Longrightarrow> books_ok (snd (insertAttempts ids d ws s))"
proof (induction ids d ws arbitrary: s rule: insertAttempts.induct)
  case (2 ids d w ws)
  show ?case
  proof (cases ids)
    case (Cons i ids')
    obtain r s1 where r: "insertAttempt i d w s = (r, s1)" by fastforce
    then have "schema_ok s1" "d \<in> set (st_deliveries s1)" "books_ok s1"
      using insertAttempt_ok [OF "2.prems"(1,2), of i w] insertAttempt_books [OF "2.prems"(1,3), of i d w] 2 by simp_all
    then show ?thesis using 2 Cons r by (cases r) (auto simp: andThen_def)
  qed (use 2 in simp)
qed simp

lemma recorded_delivery_core: "core (snd (recorded_delivery sha256 b key assigned s)) = core s"
  by (auto simp: recorded_delivery_def InsertDelivery_def Let_def split: option.splits prod.splits)

lemma RecordDelivery_books:
  assumes ok: "schema_ok s" "books_ok s"
  shows "books_ok (snd (RecordDelivery sha256 ids b key assigned ws s))"
proof -
  obtain r s' where r: "recorded_delivery sha256 b key assigned s = (r, s')" by fastforce
  then have "schema_ok s'" "books_ok s'"
    using recorded_delivery_ok(1) [OF ok(1)] books_core [OF recorded_delivery_core ok(2)] by (metis snd_conv)+
  then show ?thesis
    using r recorded_delivery_ok(2) [OF ok(1)] insertAttempts_books [of s' "projr r" ids ws]
    by (cases r) (auto simp: RecordDelivery_def split: prod.splits sum.splits)
qed

lemma ack_core: "core (effect (AckRequested i) s) = core s" "core (effect (AckConfirmed i) s) = core s"
  "core (effect (AckUncertain i) s) = core s"
  by (simp_all add: effect_def AckRequested_def AckConfirmed_def AckUncertain_def andThen_def update_deliveries_def)

lemma intent_core: "core (exec_intent op s) = core s"
  by (cases op) (simp_all add: effect_def PlanResource_def MarkResourceCreating_def MarkResourcePresent_def
      MarkResourceCleanup_def MarkResourceDeleting_def ForgetResource_def RecordResourceError_def update_intents_def
      andThen_def Let_def)

lemma LeaseCacheLane_core: "core (snd (LeaseCacheLane n p g l m s)) = core s"
  by (auto simp: LeaseCacheLane_def andThen_def mustAffect_def ClaimCacheLane_def InsertCacheLane_def Let_def
      split: option.splits)

lemma table_core: "op \<noteq> DoPurgeEverything \<Longrightarrow> core (exec_table op s) = core s"
  by (cases op) (auto simp: effect_def EnsureCacheProject_def LeaseCacheLane_core ReleaseCacheLane_def DeleteCacheLane_def
      SetPressure_def RecordAudit_def EnsureBinding_def ForgetUnclaimedBindings_def Let_def split: option.splits)

lemma purge_books: "books_ok s \<Longrightarrow> books_ok (effect PurgeEverything s)"
  by (simp add: effect_def PurgeEverything_def books_ok_def numbered_def events_of_def)

section \<open>The interpretation\<close>

definition ledger_ok :: "store \<Rightarrow> bool"
  where "ledger_ok s \<longleftrightarrow> schema_ok s \<and> books_ok s"

lemma books_exec: "schema_ok s \<Longrightarrow> books_ok s \<Longrightarrow> books_ok (exec sha256 op s)"
proof (cases op)
  case (Clock t)
  then show "books_ok s \<Longrightarrow> ?thesis" by (auto intro: books_core [rotated])
next
  case (Delivery o')
  then show "schema_ok s \<Longrightarrow> books_ok s \<Longrightarrow> ?thesis"
    by (cases o') (simp_all add: RecordDelivery_books effect_keeps keeps books_core [OF ack_core(1)]
        books_core [OF ack_core(2)] books_core [OF ack_core(3)])
next
  case (Event o')
  then show "books_ok s \<Longrightarrow> ?thesis" by (cases o') (simp_all add: effect_keeps keeps state_facts)
next
  case (Attempt o')
  then show "books_ok s \<Longrightarrow> ?thesis" by (cases o') (simp_all add: effect_keeps keeps)
next
  case (Lease o')
  then show "schema_ok s \<Longrightarrow> books_ok s \<Longrightarrow> ?thesis"
    by (cases o') (simp_all add: effect_keeps keeps, simp add: effect_def PruneLeaseHistory_books)
next
  case (Intent o')
  then show "books_ok s \<Longrightarrow> ?thesis" using books_core [OF intent_core] by simp
next
  case (Table o')
  then show "books_ok s \<Longrightarrow> ?thesis" using books_core [OF table_core] by (cases "o' = DoPurgeEverything") (simp_all add: purge_books)
qed

interpretation ledger: guarded_store "\<lambda>budget. 1 \<le> budget" ledger_ok
proof
  show "ledger_ok (empty_store budget now)" if "1 \<le> budget" for budget now
    using that schema_ok_empty [of budget now]
    by (simp add: ledger_ok_def books_ok_def numbered_def events_of_def) (simp add: empty_store_def)
  show "ledger_ok (exec sha256 op s)" if "ledger_ok s" for sha256 op s
    using that by (simp add: ledger_ok_def schema_ok_exec books_exec)
qed

end
