(* ===== verification/StoreProps.thy ===== *)
theory StoreProps
  imports StoreBudget
begin

text \<open>
  What the store promises its callers: integrity of the schema over every history
  of calls, the retry budget, one authorized start per attempt, evidence that only
  climbs and is never dropped silently, and deliveries that are recorded once.
\<close>

section \<open>Histories\<close>


lemma ledger_run: "ledger_ok s \<Longrightarrow> ledger_ok (run sha256 ops s)"
  by (rule ledger.history_step)

lemma statements_keep_budget [keeps]:
  "preserves (\<lambda>s. st_retryBudget s = b) (update_attempts i P f)" "preserves (\<lambda>s. st_retryBudget s = b) (update_leases l Q g)"
  "preserves (\<lambda>s. st_retryBudget s = b) (InsertAttemptEvent i key kind detail)"
  "preserves (\<lambda>s. st_retryBudget s = b) (InsertSequencedAttemptEvent i kind detail)"
  "preserves (\<lambda>s. st_retryBudget s = b) (InsertLease l bid i tier st)" "preserves (\<lambda>s. st_retryBudget s = b) (InsertAttempt i d w)"
  "preserves (\<lambda>s. st_retryBudget s = b) (InsertDelivery bid dkey payload format)"
  "preserves (\<lambda>s. st_retryBudget s = b) (withinRetryBudget i)"
  by (auto simp: preserves_def update_attempts_def update_leases_def InsertAttemptEvent_def InsertSequencedAttemptEvent_def
      InsertLease_def InsertAttempt_def InsertDelivery_def withinRetryBudget_def Let_def)

lemma events_keep_budget [keeps]:
  "preserves (\<lambda>s. st_retryBudget s = b) (RecordEvent i key kind)"
  "preserves (\<lambda>s. st_retryBudget s = b) (RecordEventDetail i key kind detail)"
  "preserves (\<lambda>s. st_retryBudget s = b) (RecordRepeatableEvent i kind detail)"
  unfolding RecordEvent_def RecordEventDetail_def RecordRepeatableEvent_def by (intro keeps)+

lemma ops_keep_budget [keeps]:
  "preserves (\<lambda>s. st_retryBudget s = b) (RecordEvidence i ev)"
  "preserves (\<lambda>s. st_retryBudget s = b) (Advance i from to)" "preserves (\<lambda>s. st_retryBudget s = b) (Requeue i)"
  "preserves (\<lambda>s. st_retryBudget s = b) (RequeueProvenInert i)" "preserves (\<lambda>s. st_retryBudget s = b) (HoldForReview i reason)"
  "preserves (\<lambda>s. st_retryBudget s = b) (LeaseAttempt l i bid tier)"
  unfolding RecordEvidence_def RecordAttemptEvidence_def Advance_def Requeue_def RequeueProvenInert_def HoldForReview_def
    LeaseAttempt_def ClaimReadyAttempt_def walk_statements Let_def
  by (intro keeps)+

lemma stamped_keep_budget [keeps]:
  "preserves (\<lambda>s. st_retryBudget s = b) (SupersedeAttempt res i)"
  "preserves (\<lambda>s. st_retryBudget s = b) (CancelReadyAttempt res i)"
  "preserves (\<lambda>s. st_retryBudget s = b) (ResolveManualReviewToReady actor i)"
  "preserves (\<lambda>s. st_retryBudget s = b) (ResolveManualReviewToSettled res actor i)"
  "preserves (\<lambda>s. st_retryBudget s = b) (SettleAttempt res i current)"
  "preserves (\<lambda>s. st_retryBudget s = b) (AuthorizeAttemptStart i l)"
  unfolding SupersedeAttempt_def [abs_def] stamped_statements by (rule preserves_apply, intro keeps)+

lemma ending_keep_budget [keeps]:
  "preserves (\<lambda>s. st_retryBudget s = b) (CancelReady i res)"
  "preserves (\<lambda>s. st_retryBudget s = b) (ResolveReviewToReady i reason actor)"
  "preserves (\<lambda>s. st_retryBudget s = b) (ResolveReviewToSettled i res reason actor)"
  "preserves (\<lambda>s. st_retryBudget s = b) (Settle i current res)" "preserves (\<lambda>s. st_retryBudget s = b) (AuthorizeStart l i)"
  unfolding CancelReady_def ResolveReviewToReady_def ResolveReviewToSettled_def Settle_def AuthorizeStart_def
  by (intro keeps)+

lemma composed_keep_budget [keeps]:
  "preserves (\<lambda>s. st_retryBudget s = b) (SupersedeOpenAttempt bid w res d)"
  "preserves (\<lambda>s. st_retryBudget s = b) (RecordEvidenceForLease l ev)"
  unfolding SupersedeOpenAttempt_def RecordEvidenceForLease_def by (intro keeps)+

lemma insertAttempts_budget: "st_retryBudget (snd (insertAttempts ids d ws s)) = st_retryBudget s"
proof (induction ids d ws arbitrary: s rule: insertAttempts.induct)
  case (2 ids d w ws)
  have one: "st_retryBudget (snd (insertAttempt i d w s)) = st_retryBudget s" for i
    using statements_keep_budget(6) [of "st_retryBudget s" i d w]
      events_keep_budget(1) [of "st_retryBudget s" i "''attempt_created''" EventAttemptCreated]
    by (auto simp: insertAttempt_def preserves_def split: prod.splits sum.splits)
  show ?case
    using 2 one by (auto simp: andThen_def split: list.splits prod.splits sum.splits) (metis snd_conv)+
qed simp

lemma exec_budget: "st_retryBudget (exec sha256 op s) = st_retryBudget s"
proof -
  have eff: "preserves (\<lambda>s. st_retryBudget s = st_retryBudget t) m \<Longrightarrow> st_retryBudget (effect m t) = st_retryBudget t" for m :: "'a tx" and t
    by (simp add: preserves_def effect_def)
  have core: "core s' = core s \<Longrightarrow> st_retryBudget s' = st_retryBudget s" for s'
    by (simp add: core_def)
  show ?thesis
  proof (cases op)
    case (Delivery o')
    have "st_retryBudget (snd (RecordDelivery sha256 ids b key assigned ws s)) = st_retryBudget s" for ids b key assigned ws
      using core [OF recorded_delivery_core [of sha256 b key assigned s]] insertAttempts_budget
      by (auto simp: RecordDelivery_def split: prod.splits sum.splits) (metis snd_conv)+
    then show ?thesis using Delivery core [OF ack_core(1)] core [OF ack_core(2)] core [OF ack_core(3)]
      by (cases o') (simp_all add: eff keeps)
  next
    case (Event o')
    then show ?thesis by (cases o') (simp_all add: eff keeps)
  next
    case (Attempt o')
    then show ?thesis by (cases o') (simp_all add: eff keeps)
  next
    case (Lease o')
    have "st_retryBudget (snd (LeaseAttempt l i bid tier s)) = st_retryBudget s" for l i bid tier
      using ops_keep_budget(6) [of "st_retryBudget s" l i bid tier] by (simp add: preserves_def)
    with Lease show ?thesis
      by (cases o') (auto simp: effect_def TransitionLease_def SetLeaseRuntimeName_def RecordLeaseStartObservation_def
          PruneLeaseHistory_def PurgeLease_def andThen_def LeaseByID_def update_leases_def Let_def split: option.splits)
  next
    case (Intent o')
    then show ?thesis using core [OF intent_core] by simp
  next
    case (Table o')
    then show ?thesis using core [OF table_core]
      by (cases "o' = DoPurgeEverything") (simp_all add: effect_def PurgeEverything_def)
  qed simp
qed

lemma run_budget: "st_retryBudget (run sha256 ops s) = st_retryBudget s"
  unfolding run_def by (induction ops arbitrary: s) (simp_all add: exec_budget)

text \<open>C11. However servings, requeues, reviews and retention interleave, an attempt is leased at most as often as the
  retry budget plus the retries an operator granted it; the count is over the event trail, so pruning old leases does
  not refill the budget.\<close>

theorem servings_within_budget:
  assumes "1 \<le> budget" and "s = run sha256 ops (empty_store budget now)" and "a \<in> set (st_attempts s)"
  shows "int (attached s (at_id a)) \<le> budget + int (retried s (at_id a))"
  using ledger.history_ok [OF assms(1), of sha256 ops now] assms(2,3)
  by (auto simp: ledger_ok_def books_ok_def budgeted_def allowance_def run_budget) (simp add: empty_store_def)

text \<open>A history for the witnesses: one workload, served, found inert, requeued and served again.\<close>

definition demo_sha :: "string \<Rightarrow> string"
  where "demo_sha x = replicate 32 CHR ''h''"

definition demo_rows :: "workload_row list"
  where "demo_rows = [\<lparr>wr_SourceWorkloadKey = ''w1'', wr_TenantKey = ''t'', wr_ProjectKey = ''p''\<rparr>]"

definition demo_serve :: "lease_id \<Rightarrow> time \<Rightarrow> store_op list"
  where "demo_serve l t = [Clock t, Lease (DoLeaseAttempt l ''a1'' 1 ''small''), Attempt (DoAdvance ''a1'' ToPreparing),
    Event (DoRecordEvidence ''a1'' ''runtime_prepared'')]"

definition demo_ops :: "store_op list"
  where "demo_ops = [Table (DoEnsureBinding ''target'' ''github'' ''key''), Delivery (DoRecordDelivery [''a1''] 1 ''7:1'' [] demo_rows)] @
    demo_serve ''l1'' 10 @
    [Lease (DoTransitionLease ''l1'' LeaseReserved LeaseFailed), Lease (DoTransitionLease ''l1'' LeaseFailed LeaseCleaning),
     Lease (DoTransitionLease ''l1'' LeaseCleaning LeaseReleased), Attempt (DoRequeue ''a1'')]"

definition demo_before :: store
  where "demo_before = run demo_sha (demo_ops @ [Clock 20, Lease (DoLeaseAttempt ''l2'' ''a1'' 1 ''small'')]) (empty_store 3 0)"

definition demo_again :: store
  where "demo_again = run demo_sha (demo_ops @ demo_serve ''l2'' 20) (empty_store 3 0)"

lemmas demo_eval = demo_sha_def demo_rows_def demo_serve_def demo_ops_def demo_before_def demo_again_def

lemma demo_attempt: "map at_id (st_attempts demo_again) = [''a1''] \<and> attached demo_again ''a1'' = 2 \<and> retried demo_again ''a1'' = 0"
  by code_simp

theorem servings_within_budget_witness:
  "\<exists>a \<in> set (st_attempts demo_again). int (attached demo_again (at_id a)) \<le> 3 + int (retried demo_again (at_id a)) \<and>
    attached demo_again (at_id a) = 2"
proof -
  obtain a where a: "st_attempts demo_again = [a]" "at_id a = ''a1''" using demo_attempt by auto
  then have "int (attached demo_again (at_id a)) \<le> 3 + int (retried demo_again (at_id a))"
    using servings_within_budget [of 3 demo_again demo_sha "demo_ops @ demo_serve ''l2'' 20" 0 a] by (simp add: demo_again_def)
  then show ?thesis using a demo_attempt by auto
qed

section \<open>Evidence\<close>

lemma find_attempt_unique:
  assumes "schema_ok s" "find_attempt s i = Some a" "b \<in> set (st_attempts s)" "at_id b = i"
  shows "b = a"
proof -
  have "a \<in> set (st_attempts s)" "at_id a = i" using assms(2) by (auto simp: find_attempt_def find_Some_iff)
  then show ?thesis using assms by (auto simp: schema_ok_def attempts_ok_def distinct_map dest: inj_onD)
qed

lemma find_map_update:
  "(\<And>a. at_id (f a) = at_id a) \<Longrightarrow>
   find (\<lambda>a. at_id a = i) (map (\<lambda>a. if at_id a = i \<and> P a then f a else a) as) =
   map_option (\<lambda>a. if P a then f a else a) (find (\<lambda>a. at_id a = i) as)"
  by (induction as) auto

text \<open>A change of one attempt that leaves its state alone satisfies the partial index.\<close>

lemma update_evidence:
  assumes ok: "schema_ok s" and a: "find_attempt s i = Some a"
  shows "\<exists>n. n \<noteq> 0 \<and> update_attempts i (\<lambda>b. at_evidence b = at_evidence a) (\<lambda>b. b\<lparr>at_evidence := e\<rparr>) s =
    (Inr n, s\<lparr>st_attempts := map (\<lambda>b. if at_id b = i \<and> at_evidence b = at_evidence a then b\<lparr>at_evidence := e\<rparr> else b) (st_attempts s)\<rparr>)"
proof -
  let ?g = "\<lambda>b. if at_id b = i \<and> at_evidence b = at_evidence a then b\<lparr>at_evidence := e\<rparr> else b"
  have mem: "a \<in> set (st_attempts s)" "at_id a = i" using a by (auto simp: find_attempt_def find_Some_iff)
  have "one_open_attempt_per_workload (map ?g as) = one_open_attempt_per_workload as" for as
    by (simp add: one_open_attempt_per_workload_def filter_map comp_def if_distrib [of at_state] if_distrib [of at_workload]
        if_distrib [of at_binding_id] cong: if_cong)
  moreover have "filter (\<lambda>b. at_id b = i \<and> at_evidence b = at_evidence a) (st_attempts s) \<noteq> []"
    using mem by (auto simp: filter_empty_conv)
  ultimately show ?thesis
    using ok by (simp add: update_attempts_def Let_def schema_ok_def attempts_ok_def)
qed

lemma as_evidence_str [simp]: "as_evidence (evidence_str e) = Some e"
  by (cases e) (simp_all add: as_evidence_def evidenceStates_def)

lemma evidenceRank_inject: "evidenceRank e = evidenceRank e' \<longleftrightarrow> e = e'"
  by (cases e; cases e') simp_all

definition with_evidence :: "store \<Rightarrow> attempt_id \<Rightarrow> attempt \<Rightarrow> evidence \<Rightarrow> store"
  where "with_evidence s i a e =
    s\<lparr>st_attempts := map (\<lambda>b. if at_id b = i \<and> at_evidence b = at_evidence a then b\<lparr>at_evidence := e\<rparr> else b) (st_attempts s)\<rparr>"

lemma find_with_evidence:
  "find_attempt s i = Some a \<Longrightarrow> find_attempt (with_evidence s i a e) i = Some (a\<lparr>at_evidence := e\<rparr>)"
  by (simp add: find_attempt_def with_evidence_def find_map_update)

lemma RecordEvidence_advance:
  assumes ok: "schema_ok s" and a: "find_attempt s i = Some a" and e: "as_evidence ev = Some e"
    and up: "evidenceRank (at_evidence a) < evidenceRank e"
  obtains kind where "eventKindOf e = Some kind" "RecordEvidence i ev s =
    (Inr (), if has_event s i (''evidence:'' @ evidence_str e) then with_evidence s i a e
      else append_event i (''evidence:'' @ evidence_str e) kind [(''observer'', ''controller'')] (with_evidence s i a e))"
proof -
  obtain kind where kind: "eventKindOf e = Some kind" using up by (cases e) auto
  obtain n where n: "n \<noteq> 0" "RecordAttemptEvidence e i (at_evidence a) s = (Inr n, with_evidence s i a e)"
    using update_evidence [OF ok a, of e] by (auto simp: RecordAttemptEvidence_def with_evidence_def)
  have "has_event (with_evidence s i a e) i key = has_event s i key" for key
    by (simp add: has_event_def with_evidence_def)
  then have "RecordEvidence i ev s = (Inr (), if has_event s i (''evidence:'' @ evidence_str e) then with_evidence s i a e
      else append_event i (''evidence:'' @ evidence_str e) kind [(''observer'', ''controller'')] (with_evidence s i a e))"
    using a e up kind n find_with_evidence [OF a, of e]
    by (auto simp: RecordEvidence_def Get_def andThen_def Let_def mustAffect_def RecordEventDetail_def InsertAttemptEvent_def)
  then show thesis using that kind by blast
qed

text \<open>C33. Recording evidence never does nothing silently: it succeeds exactly when the attempt then holds the evidence
  asked for, never below what it held, and every refusal names its cause (a value outside the vocabulary, no such
  attempt, or evidence that would move backwards) and leaves the store as it was.\<close>

theorem evidence_never_silent:
  assumes ok: "schema_ok s" and call: "RecordEvidence i ev s = (r, s')"
  shows "case r of
      Inr _ \<Rightarrow> \<exists>a e. find_attempt s i = Some a \<and> as_evidence ev = Some e \<and>
        evidenceRank (at_evidence a) \<le> evidenceRank e \<and> find_attempt s' i = Some (a\<lparr>at_evidence := e\<rparr>)
    | Inl err \<Rightarrow> s' = s \<and>
        (err = ErrInvalidExecutionObservation \<and> as_evidence ev = None \<or>
         err = ErrNotFound \<and> find_attempt s i = None \<or>
         err = ErrObservationConflict \<and> (\<exists>a e. find_attempt s i = Some a \<and> as_evidence ev = Some e \<and>
           evidenceRank e < evidenceRank (at_evidence a)))"
proof (cases "as_evidence ev")
  case None
  then show ?thesis using call by (auto simp: RecordEvidence_def)
next
  case (Some e)
  show ?thesis
  proof (cases "find_attempt s i")
    case None
    then show ?thesis using call Some by (auto simp: RecordEvidence_def Get_def andThen_def)
  next
    case (Some a)
    note e = \<open>as_evidence ev = Some e\<close>
    consider "evidenceRank e < evidenceRank (at_evidence a)" | "e = at_evidence a" | "evidenceRank (at_evidence a) < evidenceRank e"
      using evidenceRank_inject [of e "at_evidence a"] by linarith
    then show ?thesis
    proof cases
      case 1
      then have "e \<noteq> at_evidence a" by auto
      then show ?thesis using 1 call Some e by (auto simp: RecordEvidence_def Get_def andThen_def Let_def)
    next
      case 2
      then show ?thesis using call Some e by (auto simp: RecordEvidence_def Get_def andThen_def Let_def)
    next
      case 3
      obtain kind where "RecordEvidence i ev s =
        (Inr (), if has_event s i (''evidence:'' @ evidence_str e) then with_evidence s i a e
          else append_event i (''evidence:'' @ evidence_str e) kind [(''observer'', ''controller'')] (with_evidence s i a e))"
        using RecordEvidence_advance [OF ok Some e 3] by blast
      then have "r = Inr ()" "find_attempt s' i = find_attempt (with_evidence s i a e) i"
        using call by (auto simp: find_attempt_def split: if_splits)
      then show ?thesis using Some e 3 find_with_evidence [OF Some, of e] by simp
    qed
  qed
qed

lemma demo_schema: "schema_ok demo_before" "schema_ok demo_again"
  unfolding demo_before_def demo_again_def using schema.history_ok [OF TrueI] by blast+

theorem evidence_never_silent_witness:
  "case fst (RecordEvidence ''a1'' ''not_started'' demo_again) of
      Inr _ \<Rightarrow> False
    | Inl err \<Rightarrow> snd (RecordEvidence ''a1'' ''not_started'' demo_again) = demo_again \<and> err = ErrObservationConflict"
proof -
  have call: "RecordEvidence ''a1'' ''not_started'' demo_again =
      (fst (RecordEvidence ''a1'' ''not_started'' demo_again), snd (RecordEvidence ''a1'' ''not_started'' demo_again))"
    by simp
  have "fst (RecordEvidence ''a1'' ''not_started'' demo_again) = Inl ErrObservationConflict" by code_simp
  then show ?thesis using evidence_never_silent [OF demo_schema(2) call] by simp
qed

text \<open>C34. A second serving's evidence is written to the column and not to the trail: once an earlier serving has
  recorded the event of a rung, an advance to that rung after a requeue succeeds, moves the column, and appends no
  event.\<close>

theorem second_serving_leaves_no_event:
  assumes "schema_ok s" and "find_attempt s i = Some a" and "evidenceRank (at_evidence a) < evidenceRank e"
    and "has_event s i (''evidence:'' @ evidence_str e)"
  shows "fst (RecordEvidence i (evidence_str e) s) = Inr () \<and>
    find_attempt (snd (RecordEvidence i (evidence_str e) s)) i = Some (a\<lparr>at_evidence := e\<rparr>) \<and>
    st_events (snd (RecordEvidence i (evidence_str e) s)) = st_events s"
proof -
  obtain kind where "RecordEvidence i (evidence_str e) s = (Inr (), if has_event s i (''evidence:'' @ evidence_str e)
      then with_evidence s i a e
      else append_event i (''evidence:'' @ evidence_str e) kind [(''observer'', ''controller'')] (with_evidence s i a e))"
    using RecordEvidence_advance [OF assms(1,2) as_evidence_str assms(3)] by blast
  then have "RecordEvidence i (evidence_str e) s = (Inr (), with_evidence s i a e)" using assms(4) by simp
  moreover have "st_events (with_evidence s i a e) = st_events s" by (simp add: with_evidence_def)
  ultimately show ?thesis using find_with_evidence [OF assms(2), of e] by simp
qed

theorem second_serving_leaves_no_event_witness:
  "st_events (snd (RecordEvidence ''a1'' (evidence_str EvidenceRuntimePrepared) demo_before)) = st_events demo_before \<and>
   attached demo_before ''a1'' = 2 \<and>
   map ev_created_at (events_of demo_again ''a1'' EventRuntimePrepared) = [10]"
proof -
  have "case find_attempt demo_before ''a1'' of None \<Rightarrow> False | Some a \<Rightarrow> at_evidence a = EvidenceNotStarted" by code_simp
  then obtain a where a: "find_attempt demo_before ''a1'' = Some a" "at_evidence a = EvidenceNotStarted"
    by (auto split: option.splits)
  have "has_event demo_before ''a1'' (''evidence:'' @ evidence_str EvidenceRuntimePrepared)" by code_simp
  then have "st_events (snd (RecordEvidence ''a1'' (evidence_str EvidenceRuntimePrepared) demo_before)) = st_events demo_before"
    using second_serving_leaves_no_event [OF demo_schema(1) a(1), of EvidenceRuntimePrepared] a(2) by (simp del: append.simps)
  moreover have "attached demo_before ''a1'' = 2" by code_simp
  moreover have "map ev_created_at (events_of demo_again ''a1'' EventRuntimePrepared) = [10]" by code_simp
  ultimately show ?thesis by blast
qed

section \<open>Repeatable events\<close>

text \<open>A review or an operator decision is never lost to a key collision: in every reachable store, recording
  another one for an existing attempt succeeds and appends exactly that event under a key not used before.\<close>

theorem repeatable_event_always_recorded:
  assumes "1 \<le> budget" and "s = run sha256 ops (empty_store budget now)" and "find_attempt s i \<noteq> None"
    and "k = EventManualReviewRequested \<or> k = EventOperatorResolved"
  shows "\<exists>key. \<not> has_event s i key \<and> RecordRepeatableEvent i k detail s = (Inr (), append_event i key k detail s)"
proof -
  have "numbered s"
    using ledger.history_ok [OF assms(1), of sha256 ops now] assms(2) by (simp add: ledger_ok_def books_ok_def)
  then show ?thesis
    using repeatable_event [of s k i detail] numbered_fresh [of s k i] assms(3,4) by (auto simp: repeatable_def)
qed

theorem repeatable_event_always_recorded_witness:
  "\<exists>key. \<not> has_event demo_again ''a1'' key \<and>
     RecordRepeatableEvent ''a1'' EventManualReviewRequested [] demo_again =
       (Inr (), append_event ''a1'' key EventManualReviewRequested [] demo_again)"
proof -
  have "find_attempt demo_again ''a1'' \<noteq> None" by code_simp
  then show ?thesis
    using repeatable_event_always_recorded [of 3 demo_again demo_sha "demo_ops @ demo_serve ''l2'' 20" 0 "''a1''" EventManualReviewRequested]
    by (simp add: demo_again_def)
qed

end
