(* ===== verification/AtMostOnce.thy ===== *)
theory AtMostOnce
  imports StoreProps
begin

text \<open>
  The at-most-once rule of the attempt machine (\<^verbatim>\<open>internal/store/serving.go\<close>): a
  start that was authorized is not authorized again unless the attempt was
  reopened, and only two calls reopen.
\<close>

section \<open>Attempts past the start authorization\<close>

definition past_start :: "attempt_state \<Rightarrow> bool"
  where "past_start st \<longleftrightarrow> st \<in> {AttemptStarting, AttemptRunning, AttemptManualReview, AttemptSuperseded, AttemptSettled,
    AttemptCanceled}"

definition committed :: "attempt_id \<Rightarrow> store \<Rightarrow> bool"
  where "committed i s \<longleftrightarrow> i \<in> at_id ` set (st_attempts s) \<and> (\<forall>a \<in> set (st_attempts s). at_id a = i \<longrightarrow> past_start (at_state a))"

text \<open>A daemon's proof that the start never took effect, an operator's decision, and uninstalling.\<close>

fun reopens :: "attempt_id \<Rightarrow> store_op \<Rightarrow> bool"
  where
    "reopens i (Attempt (DoRequeueProvenInert j)) = (j = i)"
  | "reopens i (Attempt (DoResolveReady j _ _)) = (j = i)"
  | "reopens i (Table DoPurgeEverything) = True"
  | "reopens i _ = False"

lemma committed_attempts: "st_attempts s' = st_attempts s \<Longrightarrow> committed i s \<Longrightarrow> committed i s'"
  by (simp add: committed_def)

lemma update_committed [keeps]:
  assumes id: "\<And>a. at_id (f a) = at_id a" and keep: "j = i \<Longrightarrow> (\<And>a. P a \<Longrightarrow> past_start (at_state a) \<Longrightarrow> past_start (at_state (f a)))"
  shows "preserves (committed i) (update_attempts j P f)"
proof (rule preservesI)
  fix s
  assume c: "committed i s"
  let ?g = "\<lambda>a. if at_id a = j \<and> P a then f a else a"
  have "at_id (?g a) = at_id a" for a using id by simp
  moreover have "past_start (at_state (?g a))" if "past_start (at_state a)" "at_id a = i" for a
    using that keep by simp
  ultimately have "committed i (s\<lparr>st_attempts := map ?g (st_attempts s)\<rparr>)"
    using c unfolding committed_def by (auto simp: image_image simp del: if_image_distrib split del: if_split)
  then show "committed i (snd (update_attempts j P f s))" using c by (simp add: update_attempts_def Let_def)
qed

lemma statements_committed [keeps]:
  "preserves (committed i) (InsertAttemptEvent j key kind detail)"
  "preserves (committed i) (InsertSequencedAttemptEvent j kind detail)"
  "preserves (committed i) (InsertLease l b j tier st)" "preserves (committed i) (withinRetryBudget j)"
  "preserves (committed i) (update_leases l Q g)"
  by (auto simp: preserves_def InsertAttemptEvent_def InsertSequencedAttemptEvent_def append_event_def InsertLease_def
      withinRetryBudget_def update_leases_def Let_def intro: committed_attempts [rotated])

lemma events_committed [keeps]:
  "preserves (committed i) (RecordEvent j key kind)" "preserves (committed i) (RecordEventDetail j key kind detail)"
  "preserves (committed i) (RecordRepeatableEvent j kind detail)"
  unfolding RecordEvent_def RecordEventDetail_def RecordRepeatableEvent_def by (intro keeps)+

lemma InsertAttempt_committed [keeps]: "preserves (committed i) (InsertAttempt j d w)"
  by (rule preservesI) (auto simp: InsertAttempt_def Let_def committed_def new_attempt_def find_attempt_None)

lemma insertAttempts_committed: "committed i s \<Longrightarrow> committed i (snd (insertAttempts ids d ws s))"
proof (induction ids d ws arbitrary: s rule: insertAttempts.induct)
  case (2 ids d w ws)
  have one: "committed i (snd (insertAttempt j d w s))" if "committed i s" for j
    using preservesD [OF InsertAttempt_committed that, of j d w] preservesD [OF events_committed(1), of i]
    by (auto simp: insertAttempt_def split: prod.splits sum.splits)
  show ?case
  proof (cases ids)
    case (Cons j ids')
    obtain r s1 where r: "insertAttempt j d w s = (r, s1)" by fastforce
    then have "committed i s1" using one [OF "2.prems", of j] by simp
    then show ?thesis using 2 Cons r by (cases r) (auto simp: andThen_def)
  qed (use 2 in simp)
qed simp

lemma RecordDelivery_committed:
  assumes "committed i s"
  shows "committed i (snd (RecordDelivery sha256 ids b key assigned ws s))"
proof -
  obtain r s' where r: "recorded_delivery sha256 b key assigned s = (r, s')" by fastforce
  then have "core s' = core s" using recorded_delivery_core by (metis snd_conv)
  then have "committed i s'" using assms by (auto simp: core_def intro: committed_attempts)
  then show ?thesis
    using r insertAttempts_committed [of i s' ids "projr r" ws]
    by (cases r) (auto simp: RecordDelivery_def split: prod.splits sum.splits)
qed

lemma attempt_ops_committed [keeps]:
  "preserves (committed i) (RecordEvidence j ev)" "preserves (committed i) (RecordEvidenceForLease l ev)"
  "preserves (committed i) (Advance j (fst (walk w)) (snd (walk w)))" "preserves (committed i) (Requeue j)"
  "preserves (committed i) (HoldForReview j reason)" "preserves (committed i) (LeaseAttempt l j b tier)"
proof -
  show evidence: "preserves (committed i) (RecordEvidence j ev)" for j ev
    unfolding RecordEvidence_def RecordAttemptEvidence_def Let_def by (intro keeps) simp_all
  show "preserves (committed i) (RecordEvidenceForLease l ev)"
    unfolding RecordEvidenceForLease_def by (intro preserves_andThen Get_keeps evidence)
  show "preserves (committed i) (Advance j (fst (walk w)) (snd (walk w)))"
    by (cases w; simp add: Advance_def TransitionAttempt_def; intro keeps; simp add: past_start_def)
  show "preserves (committed i) (Requeue j)"
    unfolding Requeue_def RequeueAttempt_def by (intro keeps; auto simp: past_start_def requeued_def)
  show "preserves (committed i) (HoldForReview j reason)"
    unfolding HoldForReview_def MarkAttemptManualReview_def by (intro keeps; simp add: past_start_def)
  show "preserves (committed i) (LeaseAttempt l j b tier)"
    unfolding LeaseAttempt_def ClaimReadyAttempt_def by (intro keeps; simp add: past_start_def)
qed

lemma RequeueProvenInert_committed: "j \<noteq> i \<Longrightarrow> preserves (committed i) (RequeueProvenInert j)"
  unfolding RequeueProvenInert_def RequeueProvenInertAttempt_def by (intro keeps; simp add: requeued_def)

lemma ResolveReviewToReady_committed:
  assumes "j \<noteq> i"
  shows "preserves (committed i) (ResolveReviewToReady j reason actor)"
proof -
  have "preserves (committed i) (ResolveManualReviewToReady actor j)"
    unfolding stamped_statements by (rule preserves_apply, intro keeps; simp add: assms)
  then show ?thesis unfolding ResolveReviewToReady_def by (intro keeps)
qed

lemma ending_statements_committed [keeps]:
  "preserves (committed i) (AuthorizeAttemptStart j l)" "preserves (committed i) (CancelReadyAttempt res j)"
  "preserves (committed i) (ResolveManualReviewToSettled res actor j)" "preserves (committed i) (SettleAttempt res j st)"
  "preserves (committed i) (SupersedeAttempt res j)"
  unfolding SupersedeAttempt_def [abs_def] stamped_statements by (rule preserves_apply, intro keeps; simp add: past_start_def)+

lemma ending_ops_committed [keeps]:
  "preserves (committed i) (AuthorizeStart l j)" "preserves (committed i) (CancelReady j res)"
  "preserves (committed i) (ResolveReviewToSettled j res reason actor)" "preserves (committed i) (Settle j st res)"
  unfolding AuthorizeStart_def CancelReady_def ResolveReviewToSettled_def Settle_def by (intro keeps)+

lemma SupersedeOpenAttempt_committed [keeps]: "preserves (committed i) (SupersedeOpenAttempt b w res d)"
  unfolding SupersedeOpenAttempt_def by (intro keeps)

lemma lease_ops_attempts:
  "st_attempts (effect (TransitionLease l from to) s) = st_attempts s"
  "st_attempts (effect (SetLeaseRuntimeName l n) s) = st_attempts s"
  "st_attempts (effect (RecordLeaseStartObservation l obs) s) = st_attempts s"
  "st_attempts (effect (PruneLeaseHistory t limit) s) = st_attempts s"
  "st_attempts (effect (PurgeLease l) s) = st_attempts s"
  by (auto simp: effect_def TransitionLease_def SetLeaseRuntimeName_def RecordLeaseStartObservation_def
      PruneLeaseHistory_def PurgeLease_def andThen_def LeaseByID_def update_leases_def Let_def split: option.splits)

lemma core_attempts: "core s' = core s \<Longrightarrow> st_attempts s' = st_attempts s"
  by (simp add: core_def)

lemmas frame_committed = lease_ops_attempts [THEN committed_attempts] ack_core [THEN core_attempts, THEN committed_attempts]

lemma committed_exec: "committed i s \<Longrightarrow> \<not> reopens i op \<Longrightarrow> committed i (exec sha256 op s)"
proof (cases op)
  case (Clock t)
  then show "committed i s \<Longrightarrow> ?thesis" by (simp add: committed_def)
next
  case (Delivery o')
  then show "committed i s \<Longrightarrow> ?thesis"
    by (cases o') (simp_all add: RecordDelivery_committed effect_keeps keeps frame_committed)
next
  case (Event o')
  then show "committed i s \<Longrightarrow> ?thesis" by (cases o') (simp_all add: effect_keeps keeps)
next
  case (Attempt o')
  then show "committed i s \<Longrightarrow> \<not> reopens i op \<Longrightarrow> ?thesis"
    by (cases o') (simp_all add: effect_keeps keeps RequeueProvenInert_committed ResolveReviewToReady_committed)
next
  case (Lease o')
  then show "committed i s \<Longrightarrow> ?thesis"
    by (cases o') (simp_all add: effect_keeps keeps frame_committed)
next
  case (Intent o')
  then show "committed i s \<Longrightarrow> ?thesis" using core_attempts [OF intent_core, THEN committed_attempts] by simp
next
  case (Table o')
  then show "committed i s \<Longrightarrow> \<not> reopens i op \<Longrightarrow> ?thesis"
    using core_attempts [OF table_core, of o' s, THEN committed_attempts] by (cases "o' = DoPurgeEverything") simp_all
qed

lemma committed_run: "committed i s \<Longrightarrow> \<forall>op \<in> set ops. \<not> reopens i op \<Longrightarrow> committed i (run sha256 ops s)"
  unfolding run_def by (induction ops arbitrary: s) (simp_all add: committed_exec)

lemma AuthorizeStart_Inr:
  assumes call: "AuthorizeStart l i s = (Inr u, s1)"
  obtains a P where "a \<in> set (st_attempts s)" "at_id a = i" "P a" "\<not> past_start (at_state a)"
    "s1 = s\<lparr>st_attempts := map (\<lambda>a. if at_id a = i \<and> P a then a\<lparr>at_state := AttemptStarting\<rparr> else a) (st_attempts s)\<rparr>"
    "map at_id (st_attempts s1) = map at_id (st_attempts s)"
proof -
  define P :: "attempt \<Rightarrow> bool" where "P = (\<lambda>a. at_state a \<in> {AttemptLeased, AttemptPreparing, AttemptPrepared} \<and>
           list_ex (\<lambda>l'. ls_id l' = l \<and> ls_attempt_id l' = i \<and> ls_state l' \<noteq> LeaseReleased) (st_leases s))"
  obtain n where up: "update_attempts i P (\<lambda>a. a\<lparr>at_state := AttemptStarting\<rparr>) s = (Inr n, s1)" and n: "n \<noteq> 0"
    using call unfolding AuthorizeStart_def AuthorizeAttemptStart_def mustAffect_Inr P_def by blast
  note rows = update_attempts_Inr [OF up, simplified]
  obtain a where a: "a \<in> set (st_attempts s)" "at_id a = i" "P a" using rows(2) n by auto
  moreover have "\<not> past_start (at_state a)" using a(3) by (auto simp: P_def past_start_def)
  ultimately show thesis using that rows(1,3) by blast
qed

lemma AuthorizeStart_commits:
  assumes ok: "schema_ok s" and call: "AuthorizeStart l i s = (Inr u, s1)"
  shows "committed i s1"
proof (rule AuthorizeStart_Inr [OF call])
  fix a P
  assume a: "a \<in> set (st_attempts s)" "at_id a = i" "P a"
    and s1: "s1 = s\<lparr>st_attempts := map (\<lambda>a. if at_id a = i \<and> P a then a\<lparr>at_state := AttemptStarting\<rparr> else a) (st_attempts s)\<rparr>"
    and ids: "map at_id (st_attempts s1) = map at_id (st_attempts s)"
  have same: "b = a" if "b \<in> set (st_attempts s)" "at_id b = i" for b
    using that a ok by (auto simp: schema_ok_def attempts_ok_def distinct_map dest: inj_onD)
  have "at_state b = AttemptStarting" if b: "b \<in> set (st_attempts s1)" "at_id b = i" for b
  proof -
    obtain c where c: "c \<in> set (st_attempts s)" "b = (if at_id c = i \<and> P c then c\<lparr>at_state := AttemptStarting\<rparr> else c)"
      using b(1) by (auto simp: s1)
    then have "at_id c = i" using b(2) by (simp split: if_splits)
    then show ?thesis using same [OF c(1)] c(2) a(3) by simp
  qed
  moreover have "i \<in> set (map at_id (st_attempts s1))" using a by (simp add: ids del: set_map) auto
  ultimately show ?thesis by (auto simp: committed_def past_start_def)
qed

lemma committed_refuses:
  assumes "committed i s"
  shows "\<exists>e. fst (AuthorizeStart l i s) = Inl e"
proof (rule ccontr)
  assume "\<nexists>e. fst (AuthorizeStart l i s) = Inl e"
  then obtain u s1 where call: "AuthorizeStart l i s = (Inr u, s1)"
    by (metis obj_sumE surjective_pairing)
  show False by (rule AuthorizeStart_Inr [OF call]) (use assms in \<open>auto simp: committed_def\<close>)
qed

text \<open>C2. At most one start: after a start of an attempt has been authorized, and whatever the store is asked to do
  next, a second authorization of it is refused for every lease, unless it was proven inert, sent back by an operator, or
  the database was purged.\<close>

theorem start_authorized_at_most_once:
  assumes "schema_ok s" and "AuthorizeStart l i s = (Inr u, s1)" and "\<forall>op \<in> set ops. \<not> reopens i op"
  shows "\<exists>e. fst (AuthorizeStart l' i (run sha256 ops s1)) = Inl e"
  using committed_refuses [OF committed_run [OF AuthorizeStart_commits [OF assms(1,2)] assms(3)]] by blast

definition demo_started :: store
  where "demo_started = snd (AuthorizeStart ''l2'' ''a1'' demo_again)"

theorem start_authorized_at_most_once_witness:
  "fst (AuthorizeStart ''l2'' ''a1'' demo_again) = Inr () \<and>
   (\<exists>e. fst (AuthorizeStart ''l2'' ''a1'' (run demo_sha [Attempt (DoRequeue ''a1''), Attempt (DoAdvance ''a1'' ToRunning)] demo_started)) = Inl e)"
proof -
  have first: "fst (AuthorizeStart ''l2'' ''a1'' demo_again) = Inr ()" by code_simp
  then have "AuthorizeStart ''l2'' ''a1'' demo_again = (Inr (), demo_started)"
    by (simp add: demo_started_def prod_eq_iff)
  then show ?thesis
    using first start_authorized_at_most_once [OF demo_schema(2), of "''l2''" "''a1''" "()" demo_started
        "[Attempt (DoRequeue ''a1''), Attempt (DoAdvance ''a1'' ToRunning)]" "''l2''" demo_sha] by simp
qed

end
