(* ===== verification/LeaseManager.thy ===== *)
theory LeaseManager
  imports StoreBudget
begin

text \<open>
  \<^verbatim>\<open>internal/lease\<close>: the manager that walks a lease to its end.  Every method is one
  or more transactions on the store; the container runtime's remover is the
  parameter \<^verbatim>\<open>remove\<close>, a function on the state of the outside world that may report
  an error message.  A logged error is dropped, as the source drops it.
\<close>

section \<open>Acting on the store and the outside world\<close>

type_synonym ('w, 'a) act = "store \<times> 'w \<Rightarrow> (store_error + 'a) \<times> store \<times> 'w"

type_synonym 'w remover = "resource_kind \<Rightarrow> string \<Rightarrow> lease_id \<Rightarrow> 'w \<Rightarrow> string option \<times> 'w"

definition inTx :: "'a tx \<Rightarrow> ('w, 'a) act"
  where "inTx m = (\<lambda>(s, w). case Tx m s of (r, s') \<Rightarrow> (r, s', w))"

definition andDo :: "('w, 'a) act \<Rightarrow> ('a \<Rightarrow> ('w, 'b) act) \<Rightarrow> ('w, 'b) act"
  where "andDo m f sw = (case m sw of (Inl e, sw') \<Rightarrow> (Inl e, sw') | (Inr x, sw') \<Rightarrow> f x sw')"

definition pass :: "'a \<Rightarrow> ('w, 'a) act"
  where "pass x sw = (Inr x, sw)"

section \<open>Dispositions\<close>

datatype disposition =
  DispositionNone | DispositionRequeue | DispositionSettleCompleted | DispositionSettleStarted | DispositionReview

definition servedByThisLease :: "attempt_state \<Rightarrow> bool"
  where "servedByThisLease st \<longleftrightarrow>
    st \<in> {AttemptLeased, AttemptPreparing, AttemptPrepared, AttemptStarting, AttemptRunning}"

definition dispositionOf :: "attempt \<Rightarrow> observation \<Rightarrow> disposition"
  where "dispositionOf a obs =
    (if \<not> servedByThisLease (at_state a) then DispositionNone
     else if obs = ObservedCreated \<or> obs = ObservedNeverStarted then DispositionRequeue
     else if at_evidence a = EvidenceExitObserved then DispositionSettleCompleted
     else if at_evidence a = EvidenceRunningObserved then DispositionSettleStarted
     else if Retriable (at_evidence a) then DispositionRequeue
     else if obs = ObservedRunning then DispositionSettleStarted
     else DispositionReview)"

definition start_observation :: "lease \<Rightarrow> observation"
  where "start_observation l = (case ls_start_observation l of None \<Rightarrow> NoObservation | Some obs \<Rightarrow> obs)"

definition dispositionFor :: "lease \<Rightarrow> attempt \<Rightarrow> observation \<Rightarrow> disposition \<times> observation"
  where "dispositionFor l a obs =
    (let obs = (if \<not> Establishes obs \<and> Establishes (start_observation l) then start_observation l else obs)
     in (dispositionOf a obs, obs))"

definition requeueOrReview :: "attempt_id \<Rightarrow> unit tx \<Rightarrow> unit tx"
  where "requeueOrReview i requeue s =
    (case requeue s of
       (Inl e, s') \<Rightarrow> if e = ErrRetryBudgetExhausted then HoldForReview i ReviewReasonRetryBudgetExhausted s' else (Inl e, s')
     | (Inr u, s') \<Rightarrow> (Inr u, s'))"

definition requeueProven :: "attempt \<Rightarrow> unit tx"
  where "requeueProven a = requeueOrReview (at_id a) (RequeueServing a)"

definition applyDisposition :: "attempt \<Rightarrow> disposition \<Rightarrow> unit tx"
  where "applyDisposition a d =
    (case d of
       DispositionNone \<Rightarrow> ret ()
     | DispositionRequeue \<Rightarrow> requeueProven a
     | DispositionSettleCompleted \<Rightarrow> Settle (at_id a) (at_state a) (Some ResolutionCompletedObserved)
     | DispositionSettleStarted \<Rightarrow> Settle (at_id a) (at_state a) (Some ResolutionStartedObserved)
     | DispositionReview \<Rightarrow> HoldForReview (at_id a) ReviewReasonStartOutcomeUnknown)"

definition disposeAttempt :: "lease \<Rightarrow> observation \<Rightarrow> unit tx"
  where "disposeAttempt l obs s =
    (case Get (ls_attempt_id l) s of
       (Inl e, s') \<Rightarrow> if e = ErrNotFound then (Inr (), s') else (Inl e, s')
     | (Inr a, s') \<Rightarrow>
         andThen (RecordEvent (at_id a) (''cleanup_completed:'' @ ls_id l) EventCleanupCompleted) (\<lambda>_.
           applyDisposition a (fst (dispositionFor l a obs))) s')"

section \<open>Transactions on a lease\<close>

definition Transition :: "lease_id \<Rightarrow> lease_state \<Rightarrow> lease_state \<Rightarrow> unit tx"
  where "Transition i from to = Tx (TransitionLease i from to)"

definition Manager_RecordEvidence :: "lease_id \<Rightarrow> string \<Rightarrow> unit tx"
  where "Manager_RecordEvidence i e = Tx (RecordEvidenceForLease i e)"

definition EvidenceOf :: "lease \<Rightarrow> evidence tx"
  where "EvidenceOf l = Tx (andThen (Get (ls_attempt_id l)) (\<lambda>a. ret (at_evidence a)))"

definition ToCleaning :: "lease_id \<Rightarrow> lease tx"
  where "ToCleaning i = Tx (andThen (LeaseByID i) (\<lambda>l.
    andThen (if ls_state l = LeaseCleaning then ret ()
             else if ls_state l = LeaseFailed \<or> ls_state l = LeaseQuarantined then TransitionLease i (ls_state l) LeaseCleaning
             else andThen (TransitionLease i (ls_state l) LeaseFailed) (\<lambda>_. TransitionLease i LeaseFailed LeaseCleaning))
      (\<lambda>_. ret l)))"

definition Finalize :: "lease_id \<Rightarrow> observation \<Rightarrow> unit tx"
  where "Finalize i obs = Tx (\<lambda>s.
    if Resources s i \<noteq> [] then (Inl ErrResourcesRemain, s)
    else andThen (LeaseByID i) (\<lambda>l.
      andThen (TransitionLease i LeaseCleaning LeaseReleased) (\<lambda>_.
      andThen (ReleaseCacheLane i) (\<lambda>_.
        disposeAttempt l obs))) s)"

definition withAttemptOfLease :: "lease_id \<Rightarrow> (attempt \<Rightarrow> unit tx) \<Rightarrow> store \<Rightarrow> store"
  where "withAttemptOfLease i f s = snd (Tx (\<lambda>s.
    case AttemptByLease i s of
      (Inl e, s') \<Rightarrow> if e = ErrNotFound then (Inr (), s') else (Inl e, s')
    | (Inr a, s') \<Rightarrow> f a s') s)"

definition HoldAttempt :: "lease_id \<Rightarrow> review_reason \<Rightarrow> store \<Rightarrow> store"
  where "HoldAttempt i reason = withAttemptOfLease i (\<lambda>a. HoldForReview (at_id a) reason)"

definition DisposeStranded :: "lease \<Rightarrow> observation \<Rightarrow> store \<Rightarrow> store"
  where "DisposeStranded l obs = withAttemptOfLease (ls_id l) (\<lambda>a. applyDisposition a (fst (dispositionFor l a obs)))"

definition Quarantine :: "lease_id \<Rightarrow> store \<Rightarrow> store"
  where "Quarantine i s = snd (Tx (TransitionLease i LeaseCleaning LeaseQuarantined) s)"

definition RecordStartObservation :: "lease_id \<Rightarrow> observation \<Rightarrow> unit tx"
  where "RecordStartObservation i obs = (if \<not> Establishes obs then ret () else Tx (RecordLeaseStartObservation i obs))"

definition walk_next :: "lease_state \<Rightarrow> lease_state option"
  where "walk_next st =
    (if st = LeaseReserved then Some LeaseProvisioning
     else if st = LeaseProvisioning then Some LeaseRuntimeRegistered
     else if st = LeaseRuntimeRegistered then Some LeaseWorkloadRunning
     else None)"

function walk_lease :: "lease_id \<Rightarrow> lease_state \<Rightarrow> unit tx"
  where "walk_lease i st =
    (case walk_next st of None \<Rightarrow> ret ()
     | Some nxt \<Rightarrow> andThen (TransitionLease i st nxt) (\<lambda>_. walk_lease i nxt))"
  by pat_completeness auto
termination
  by (relation "measure (\<lambda>(i, st). if st = LeaseReserved then 3 else if st = LeaseProvisioning then 2
        else if st = LeaseRuntimeRegistered then 1 else (0 :: nat))")
    (auto simp: walk_next_def split: if_splits)

definition WalkToRunning :: "lease \<Rightarrow> unit tx"
  where "WalkToRunning l = Tx (andThen (LeaseByID (ls_id l)) (\<lambda>current. walk_lease (ls_id current) (ls_state current)))"

section \<open>Removing what a lease owns\<close>

definition second :: int
  where "second = 1000000000"

text \<open>\<^verbatim>\<open>rand.Int64N\<close> is the argument \<^verbatim>\<open>rnd\<close>.\<close>

definition removalBackoff :: "(int \<Rightarrow> int) \<Rightarrow> int \<Rightarrow> int"
  where "removalBackoff rnd retries =
    (let backoff = min (2 ^ nat (min retries 6) * (10 * second)) (5 * 60 * second)
     in backoff + rnd (backoff div 4))"

definition removeObject :: "'w remover \<Rightarrow> resource_kind \<Rightarrow> string \<Rightarrow> lease_id \<Rightarrow> 'w \<Rightarrow> string option \<times> 'w"
  where "removeObject remove kind handle leaseID = remove kind handle leaseID"

definition book_error :: "(int \<Rightarrow> int) \<Rightarrow> intent \<Rightarrow> string \<Rightarrow> store \<Rightarrow> store"
  where "book_error rnd x msg s = snd (Tx (RecordResourceError (in_id x) msg
    ((st_now s * second + removalBackoff rnd (in_retries x)) div second)) s)"

definition removeIntent :: "'w remover \<Rightarrow> (int \<Rightarrow> int) \<Rightarrow> intent \<Rightarrow> ('w, unit) act"
  where "removeIntent remove rnd x = andDo (inTx (MarkResourceDeleting (in_id x))) (\<lambda>_ (s, w).
    case removeObject remove (in_kind x) (Handle x) (in_lease_id x) w of
      (None, w') \<Rightarrow> inTx (ForgetResource (in_id x)) (s, w')
    | (Some msg, w') \<Rightarrow> (Inl ErrEffect, book_error rnd x msg s, w'))"

fun removal_order :: "resource_kind \<Rightarrow> nat"
  where
    "removal_order ResourceContainer = 0"
  | "removal_order ResourceNetwork = 1"
  | "removal_order ResourceVolume = 2"

fun removeIntents :: "'w remover \<Rightarrow> (int \<Rightarrow> int) \<Rightarrow> intent list \<Rightarrow> ('w, unit) act"
  where
    "removeIntents remove rnd [] = pass ()"
  | "removeIntents remove rnd (x # xs) = andDo (removeIntent remove rnd x) (\<lambda>_. removeIntents remove rnd xs)"

definition RemoveResources :: "'w remover \<Rightarrow> (int \<Rightarrow> int) \<Rightarrow> lease_id \<Rightarrow> ('w, unit) act"
  where "RemoveResources remove rnd i =
    andDo (inTx (MarkResourceCleanup i)) (\<lambda>_ (s, w).
      removeIntents remove rnd (sort_key (\<lambda>x. removal_order (in_kind x)) (Resources s i)) (s, w))"

definition Manager_Release :: "'w remover \<Rightarrow> (int \<Rightarrow> int) \<Rightarrow> lease_id \<Rightarrow> lease_state \<Rightarrow> ('w, unit) act"
  where "Manager_Release remove rnd i from =
    andDo (inTx (andThen (TransitionLease i from LeaseDraining) (\<lambda>_. TransitionLease i LeaseDraining LeaseCleaning))) (\<lambda>_ sw.
      case RemoveResources remove rnd i sw of
        (Inl e, (s, w)) \<Rightarrow> (Inl e, Quarantine i s, w)
      | (Inr _, (s, w)) \<Rightarrow> inTx (Finalize i NoObservation) (s, w))"

definition FinishCleaning :: "'w remover \<Rightarrow> (int \<Rightarrow> int) \<Rightarrow> lease \<Rightarrow> observation \<Rightarrow> ('w, unit) act"
  where "FinishCleaning remove rnd l obs =
    andDo (if ls_state l = LeaseDraining then inTx (Transition (ls_id l) LeaseDraining LeaseCleaning) else pass ()) (\<lambda>_.
    andDo (inTx (RecordStartObservation (ls_id l) obs)) (\<lambda>_.
    andDo (RemoveResources remove rnd (ls_id l)) (\<lambda>_.
      inTx (Finalize (ls_id l) obs))))"

definition Manager_ForgetResource :: "lease_id \<Rightarrow> string \<Rightarrow> unit tx"
  where "Manager_ForgetResource i dockerID =
    (if i = [] then ret ()
     else Tx (\<lambda>s. case find (\<lambda>x. in_docker_id x = dockerID \<or> in_name x = dockerID) (Resources s i) of
       None \<Rightarrow> (Inr (), s) | Some x \<Rightarrow> ForgetResource (in_id x) s))"

definition IntentsDue :: "store \<Rightarrow> lease_id \<Rightarrow> bool"
  where "IntentsDue s i \<longleftrightarrow> list_all (\<lambda>x. in_not_before x \<le> st_now s) (Resources s i)"

section \<open>The recorder of a capsule's intents\<close>

definition Recorder_Plan :: "lease_id \<Rightarrow> resource_kind \<Rightarrow> resource_role \<Rightarrow> string \<Rightarrow> intent_id tx"
  where "Recorder_Plan i kind role name = Tx (PlanResource i kind role name)"

definition Recorder_Creating :: "intent_id \<Rightarrow> unit tx"
  where "Recorder_Creating i = Tx (MarkResourceCreating i)"

definition Recorder_Confirm :: "intent_id \<Rightarrow> string \<Rightarrow> unit tx"
  where "Recorder_Confirm i dockerID = Tx (MarkResourcePresent i dockerID)"

declare walk_lease.simps [simp del]

end
