(* ===== verification/LeaseProps.thy ===== *)
theory LeaseProps
  imports LeaseManager StoreProps
begin

text \<open>
  What the lease manager guarantees: the finalizing transaction ends a serving
  completely or not at all, an attempt returns to the queue only when its work
  provably never began, every live lease can be walked into cleaning, and the
  removal saga forgets an object only after the runtime reported it gone.
\<close>

section \<open>Updates that cannot collide\<close>

lemma distinct_open_mono:
  assumes "\<And>x. k (g x) = k x" "\<And>x. Q (g x) \<Longrightarrow> Q x"
  shows "distinct (map k (filter Q xs)) \<Longrightarrow> distinct (map k (filter Q (map g xs)))"
proof (induction xs)
  case (Cons x xs)
  have "set (map k (filter Q (map g xs))) \<subseteq> set (map k (filter Q xs))" using assms by auto
  then show ?case using Cons assms by (auto split: if_splits)
qed simp

lemma update_attempts_ok:
  assumes ok: "schema_ok s" and f: "same_identity f" "\<And>a. P a \<Longrightarrow> is_open (at_state (f a)) \<Longrightarrow> is_open (at_state a)"
  shows "update_attempts i P f s =
    (Inr (length (filter (\<lambda>a. at_id a = i \<and> P a) (st_attempts s))),
     s\<lparr>st_attempts := map (\<lambda>a. if at_id a = i \<and> P a then f a else a) (st_attempts s)\<rparr>)"
proof -
  have "one_open_attempt_per_workload (map (\<lambda>a. if at_id a = i \<and> P a then f a else a) (st_attempts s))"
    unfolding one_open_attempt_per_workload_def
    by (rule distinct_open_mono) (use ok f in \<open>auto simp: same_identity_def schema_ok_def attempts_ok_def
        one_open_attempt_per_workload_def split: if_splits\<close>)
  then show ?thesis by (simp add: update_attempts_def Let_def)
qed

lemma find_attempt_updated:
  assumes "\<And>a. at_id (f a) = at_id a"
  shows "find_attempt (s\<lparr>st_attempts := map (\<lambda>a. if at_id a = i \<and> P a then f a else a) (st_attempts s)\<rparr>) j =
    (if j = i then map_option (\<lambda>a. if P a then f a else a) (find_attempt s i) else find_attempt s j)"
proof -
  have "find (\<lambda>a. at_id a = j) (map (\<lambda>a. if at_id a = i \<and> P a then f a else a) as) =
    (if j = i then map_option (\<lambda>a. if P a then f a else a) (find (\<lambda>a. at_id a = i) as) else find (\<lambda>a. at_id a = j) as)" for as
    using assms by (induction as) auto
  then show ?thesis by (simp add: find_attempt_def)
qed

text \<open>What one disposing call does: it succeeds, changes one attempt and the trail, and nothing else.\<close>

definition only_attempt :: "store \<Rightarrow> attempt_id \<Rightarrow> attempt \<Rightarrow> store \<Rightarrow> bool"
  where "only_attempt s i a' s' \<longleftrightarrow> (\<exists>as ev. s' = s\<lparr>st_attempts := as, st_events := ev\<rparr>) \<and>
    (\<forall>j. find_attempt s' j = (if j = i then Some a' else find_attempt s j))"

lemma find_attempt_events [simp]: "find_attempt (s\<lparr>st_events := ev\<rparr>) j = find_attempt s j"
  by (simp add: find_attempt_def)

lemma RecordEvent_succeeds: "find_attempt s i \<noteq> None \<Longrightarrow> \<exists>ev. RecordEvent i key kind s = (Inr (), s\<lparr>st_events := ev\<rparr>)"
  by (auto simp: RecordEvent_def andThen_def InsertAttemptEvent_def append_event_def intro: exI [of _ "st_events s"])

lemma RecordRepeatableEvent_succeeds:
  "numbered s \<Longrightarrow> k \<in> repeatable \<Longrightarrow> find_attempt s i \<noteq> None \<Longrightarrow>
   \<exists>ev. RecordRepeatableEvent i k detail s = (Inr (), s\<lparr>st_events := ev\<rparr>)"
  by (auto simp: repeatable_event append_event_def)

lemma move_attempt:
  assumes ok: "schema_ok s" and a: "find_attempt s i = Some a"
    and f: "same_identity f" "\<And>a. P a \<Longrightarrow> is_open (at_state (f a)) \<Longrightarrow> is_open (at_state a)" and hit: "P a"
  shows "\<exists>as n. n \<noteq> 0 \<and> update_attempts i P f s = (Inr n, s\<lparr>st_attempts := as\<rparr>) \<and>
    (\<forall>j. find_attempt (s\<lparr>st_attempts := as\<rparr>) j = (if j = i then Some (f a) else find_attempt s j))"
proof -
  let ?as = "map (\<lambda>a. if at_id a = i \<and> P a then f a else a) (st_attempts s)"
  have "a \<in> set (st_attempts s)" "at_id a = i" using a by (auto simp: find_attempt_def find_Some_iff)
  then have "length (filter (\<lambda>a. at_id a = i \<and> P a) (st_attempts s)) \<noteq> 0" using hit by (auto simp: filter_empty_conv)
  moreover have "find_attempt (s\<lparr>st_attempts := ?as\<rparr>) j = (if j = i then Some (f a) else find_attempt s j)" for j
    using f(1) a hit by (subst find_attempt_updated) (auto simp: same_identity_def)
  ultimately show ?thesis using update_attempts_ok [OF ok f] by blast
qed

lemma numbered_attempts: "numbered s \<Longrightarrow> numbered (s\<lparr>st_attempts := as\<rparr>)"
  by simp

text \<open>A guarded move followed by a trail entry, the shape of every ending.\<close>

lemma move_then_event:
  assumes ok: "schema_ok s" and a: "find_attempt s i = Some a"
    and f: "same_identity f" "\<And>a. P a \<Longrightarrow> is_open (at_state (f a)) \<Longrightarrow> is_open (at_state a)" and hit: "P a"
    and event: "\<And>as. find_attempt (s\<lparr>st_attempts := as\<rparr>) i \<noteq> None \<Longrightarrow>
      \<exists>ev. event (s\<lparr>st_attempts := as\<rparr>) = (Inr (), s\<lparr>st_attempts := as, st_events := ev\<rparr>)"
  shows "\<exists>s'. andThen (mustAffect e (update_attempts i P f)) (\<lambda>_. event) s = (Inr (), s') \<and> only_attempt s i (f a) s'"
proof -
  obtain as n where n: "n \<noteq> 0" "update_attempts i P f s = (Inr n, s\<lparr>st_attempts := as\<rparr>)"
    "\<forall>j. find_attempt (s\<lparr>st_attempts := as\<rparr>) j = (if j = i then Some (f a) else find_attempt s j)"
    using move_attempt [where P = P and f = f, OF ok a f hit] by blast
  then obtain ev where "event (s\<lparr>st_attempts := as\<rparr>) = (Inr (), s\<lparr>st_attempts := as, st_events := ev\<rparr>)"
    using event [of as] by auto
  then have "andThen (mustAffect e (update_attempts i P f)) (\<lambda>_. event) s = (Inr (), s\<lparr>st_attempts := as, st_events := ev\<rparr>)"
    using n by (simp add: andThen_def mustAffect_def)
  moreover have "only_attempt s i (f a) (s\<lparr>st_attempts := as, st_events := ev\<rparr>)"
    using n(3) unfolding only_attempt_def by (auto simp: find_attempt_def)
  ultimately show ?thesis by blast
qed

section \<open>Every disposition applies\<close>

lemma same_identity_state [simp]:
  "same_identity (\<lambda>a. a\<lparr>at_state := st, at_resolution := r, at_settled_at := t\<rparr>)"
  "same_identity (\<lambda>a. a\<lparr>at_state := st, at_review_reason := rr\<rparr>)" "same_identity requeued"
  by (simp_all add: same_identity_def requeued_def)

lemma Settle_succeeds:
  assumes ok: "schema_ok s" and a: "find_attempt s i = Some a"
  shows "\<exists>s' a'. Settle i (at_state a) res s = (Inr (), s') \<and> only_attempt s i a' s' \<and> at_state a' = AttemptSettled"
proof -
  let ?f = "\<lambda>a. a\<lparr>at_state := AttemptSettled, at_resolution := res, at_settled_at := Some (st_now s)\<rparr>"
  have event: "\<exists>ev. RecordEvent i ''attempt_settled'' EventAttemptSettled (s\<lparr>st_attempts := as\<rparr>) =
      (Inr (), s\<lparr>st_attempts := as, st_events := ev\<rparr>)" if "find_attempt (s\<lparr>st_attempts := as\<rparr>) i \<noteq> None" for as
    using RecordEvent_succeeds [OF that] by simp
  have "\<exists>s'. andThen (mustAffect ErrConflict (update_attempts i (\<lambda>b. at_state b = at_state a) ?f))
      (\<lambda>_. RecordEvent i ''attempt_settled'' EventAttemptSettled) s = (Inr (), s') \<and> only_attempt s i (?f a) s'"
    by (rule move_then_event [OF ok a]) (use event in \<open>auto simp: is_open_def\<close>)
  moreover have "Settle i (at_state a) res s = andThen (mustAffect ErrConflict (update_attempts i (\<lambda>b. at_state b = at_state a) ?f))
      (\<lambda>_. RecordEvent i ''attempt_settled'' EventAttemptSettled) s"
    by (simp add: Settle_def SettleAttempt_def andThen_def mustAffect_def)
  ultimately show ?thesis by fastforce
qed

lemma HoldForReview_succeeds:
  assumes ok: "schema_ok s" "numbered s" and a: "find_attempt s i = Some a" and live: "at_state a = AttemptReady \<or> servedByThisLease (at_state a)"
  shows "\<exists>s' a'. HoldForReview i reason s = (Inr (), s') \<and> only_attempt s i a' s' \<and> at_state a' = AttemptManualReview"
proof -
  let ?f = "\<lambda>a. a\<lparr>at_state := AttemptManualReview, at_review_reason := Some reason\<rparr>"
  have event: "\<exists>ev. RecordRepeatableEvent i EventManualReviewRequested d (s\<lparr>st_attempts := as\<rparr>) =
      (Inr (), s\<lparr>st_attempts := as, st_events := ev\<rparr>)" if "find_attempt (s\<lparr>st_attempts := as\<rparr>) i \<noteq> None" for as d
    using RecordRepeatableEvent_succeeds [OF numbered_attempts [OF ok(2)] _ that, of EventManualReviewRequested d]
    by (simp add: repeatable_def)
  have "\<exists>s'. HoldForReview i reason s = (Inr (), s') \<and> only_attempt s i (?f a) s'"
    unfolding HoldForReview_def MarkAttemptManualReview_def
    by (rule move_then_event [OF ok(1) a]) (use event live in \<open>auto simp: is_open_def servedByThisLease_def\<close>)
  then show ?thesis by fastforce
qed

lemma requeued_state [simp]: "at_state (requeued a) = AttemptReady"
  by (simp add: requeued_def)

lemma RequeueServing_outcome:
  assumes ok: "schema_ok s" and a: "find_attempt s i = Some a" and served: "servedByThisLease (at_state a)"
  shows "if servingsSoFar s i < st_retryBudget s
    then \<exists>s'. RequeueServing a s = (Inr (), s') \<and> only_attempt s i (requeued a) s'
    else RequeueServing a s = (Inl ErrRetryBudgetExhausted, s)"
proof -
  have i: "at_id a = i" using a by (auto simp: find_attempt_def find_Some_iff)
  define P where "P = (if at_state a = AttemptStarting \<or> at_state a = AttemptRunning
    then (\<lambda>b :: attempt. at_state b \<in> {AttemptStarting, AttemptRunning})
    else (\<lambda>b. at_state b \<in> {AttemptLeased, AttemptPreparing, AttemptPrepared}))"
  have eq: "RequeueServing a = andThen (withinRetryBudget i) (\<lambda>_. mustAffect ErrConflict (update_attempts i P requeued))"
    by (simp add: RequeueServing_def RequeueProvenInert_def RequeueProvenInertAttempt_def Requeue_def RequeueAttempt_def P_def i)
  show ?thesis
  proof (cases "servingsSoFar s i < st_retryBudget s")
    case True
    have "P a" "\<And>b. P b \<Longrightarrow> is_open (at_state (requeued b)) \<Longrightarrow> is_open (at_state b)"
      using served by (auto simp: P_def servedByThisLease_def is_open_def split: if_splits)
    from move_attempt [where P = P and f = requeued, OF ok a _ this(2) this(1)]
    obtain as n where n: "n \<noteq> 0" "update_attempts i P requeued s = (Inr n, s\<lparr>st_attempts := as\<rparr>)"
      "\<forall>j. find_attempt (s\<lparr>st_attempts := as\<rparr>) j = (if j = i then Some (requeued a) else find_attempt s j)" by auto
    have "only_attempt s i (requeued a) (s\<lparr>st_attempts := as\<rparr>)"
      unfolding only_attempt_def using n(3) by (intro conjI exI [of _ as] exI [of _ "st_events s"]) simp_all
    then show ?thesis using True n by (simp add: eq andThen_def withinRetryBudget_def mustAffect_def)
  next
    case False
    then show ?thesis by (simp add: eq andThen_def withinRetryBudget_def)
  qed
qed

text \<open>Where a disposition leaves the attempt: a retry refused by the budget becomes a review.\<close>

definition outcome :: "store \<Rightarrow> attempt \<Rightarrow> disposition \<Rightarrow> attempt_state"
  where "outcome s a d = (case d of DispositionNone \<Rightarrow> at_state a
    | DispositionRequeue \<Rightarrow> if servingsSoFar s (at_id a) < st_retryBudget s then AttemptReady else AttemptManualReview
    | DispositionSettleCompleted \<Rightarrow> AttemptSettled | DispositionSettleStarted \<Rightarrow> AttemptSettled
    | DispositionReview \<Rightarrow> AttemptManualReview)"

lemma only_attempt_refl: "find_attempt s i = Some a \<Longrightarrow> only_attempt s i a s"
  unfolding only_attempt_def by (auto intro!: exI [of _ "st_attempts s"] exI [of _ "st_events s"])

lemma dispositionOf_served: "dispositionOf a obs \<noteq> DispositionNone \<longleftrightarrow> servedByThisLease (at_state a)"
  by (simp add: dispositionOf_def)

lemma applyDisposition_succeeds:
  assumes ok: "schema_ok s" "numbered s" and a: "find_attempt s i = Some a"
    and d: "d \<noteq> DispositionNone \<Longrightarrow> servedByThisLease (at_state a)"
  shows "\<exists>s' a'. applyDisposition a d s = (Inr (), s') \<and> only_attempt s i a' s' \<and> at_state a' = outcome s a d"
proof -
  have i: "at_id a = i" using a by (auto simp: find_attempt_def find_Some_iff)
  show ?thesis
  proof (cases d)
    case DispositionNone
    then show ?thesis using only_attempt_refl [OF a] by (auto simp: applyDisposition_def outcome_def)
  next
    case DispositionRequeue
    have served: "servedByThisLease (at_state a)" using d DispositionRequeue by simp
    show ?thesis
    proof (cases "servingsSoFar s i < st_retryBudget s")
      case True
      then show ?thesis using DispositionRequeue RequeueServing_outcome [OF ok(1) a served] i
        by (auto simp: applyDisposition_def requeueProven_def requeueOrReview_def outcome_def intro!: exI [of _ "requeued a"])
    next
      case False
      then show ?thesis
        using DispositionRequeue RequeueServing_outcome [OF ok(1) a served] i
          HoldForReview_succeeds [OF ok a, of ReviewReasonRetryBudgetExhausted] served
        by (auto simp: applyDisposition_def requeueProven_def requeueOrReview_def outcome_def)
    qed
  next
    case DispositionReview
    then show ?thesis using HoldForReview_succeeds [OF ok a, of ReviewReasonStartOutcomeUnknown] d i
      by (auto simp: applyDisposition_def outcome_def)
  qed (use Settle_succeeds [OF ok(1) a] i in \<open>auto simp: applyDisposition_def outcome_def\<close>)
qed

section \<open>The finalizing transaction\<close>

lemma update_leases_ok:
  assumes ok: "schema_ok s" and f: "\<And>l. ls_attempt_id (f l) = ls_attempt_id l"
    "\<And>l. P l \<Longrightarrow> ls_state (f l) \<noteq> LeaseReleased \<Longrightarrow> ls_state l \<noteq> LeaseReleased"
  shows "update_leases i P f s =
    (Inr (length (filter (\<lambda>l. ls_id l = i \<and> P l) (st_leases s))),
     s\<lparr>st_leases := map (\<lambda>l. if ls_id l = i \<and> P l then f l else l) (st_leases s)\<rparr>)"
proof -
  have "one_live_lease_per_attempt (map (\<lambda>l. if ls_id l = i \<and> P l then f l else l) (st_leases s))"
    unfolding one_live_lease_per_attempt_def
    by (rule distinct_open_mono) (use ok f in \<open>auto simp: schema_ok_def leases_ok_def one_live_lease_per_attempt_def split: if_splits\<close>)
  then show ?thesis by (simp add: update_leases_def Let_def)
qed

lemma find_lease_updated:
  assumes "\<And>l. ls_id (f l) = ls_id l"
  shows "find_lease (s\<lparr>st_leases := map (\<lambda>l. if ls_id l = i \<and> P l then f l else l) (st_leases s)\<rparr>) j =
    (if j = i then map_option (\<lambda>l. if P l then f l else l) (find_lease s i) else find_lease s j)"
proof -
  have "find (\<lambda>l. ls_id l = j) (map (\<lambda>l. if ls_id l = i \<and> P l then f l else l) ls) =
    (if j = i then map_option (\<lambda>l. if P l then f l else l) (find (\<lambda>l. ls_id l = i) ls) else find (\<lambda>l. ls_id l = j) ls)" for ls
    using assms by (induction ls) auto
  then show ?thesis by (simp add: find_lease_def)
qed

text \<open>A legal transition from the state the row is in succeeds and moves that row only.\<close>

lemma TransitionLease_succeeds:
  assumes ok: "schema_ok s" and l: "find_lease s i = Some l" "ls_state l = from" and legal: "ValidTransition from to"
  shows "\<exists>ls. TransitionLease i from to s = (Inr (), s\<lparr>st_leases := ls\<rparr>) \<and>
    (\<forall>j. servingsSoFar (s\<lparr>st_leases := ls\<rparr>) j = servingsSoFar s j) \<and>
    (\<forall>j. find_lease (s\<lparr>st_leases := ls\<rparr>) j =
      (if j = i then Some (l\<lparr>ls_state := to, ls_updated_at := st_now s\<rparr>) else find_lease s j))"
proof -
  let ?f = "\<lambda>l. l\<lparr>ls_state := to, ls_updated_at := st_now s\<rparr>" and ?P = "\<lambda>l. ls_state l = from"
  let ?ls = "map (\<lambda>l. if ls_id l = i \<and> ?P l then ?f l else l) (st_leases s)"
  have "from \<noteq> LeaseReleased" using legal by (cases "from") (auto simp: ValidTransition_def)
  then have up: "update_leases i ?P ?f s = (Inr (length (filter (\<lambda>l. ls_id l = i \<and> ?P l) (st_leases s))), s\<lparr>st_leases := ?ls\<rparr>)"
    by (intro update_leases_ok [OF ok]) auto
  have "l \<in> set (st_leases s)" "ls_id l = i" using l(1) by (auto simp: find_lease_def find_Some_iff)
  then have "length (filter (\<lambda>l. ls_id l = i \<and> ?P l) (st_leases s)) \<noteq> 0" using l(2) by (auto simp: filter_empty_conv)
  then have "TransitionLease i from to s = (Inr (), s\<lparr>st_leases := ?ls\<rparr>)"
    unfolding TransitionLease_def andThen_def using up legal by simp
  moreover have "servingsSoFar (s\<lparr>st_leases := ?ls\<rparr>) j = servingsSoFar s j" for j by (rule servings_map) simp
  moreover have "find_lease (s\<lparr>st_leases := ?ls\<rparr>) j = (if j = i then Some (?f l) else find_lease s j)" for j
    using l by (subst find_lease_updated) simp_all
  ultimately show ?thesis by blast
qed

lemma lease_attempt_exists:
  assumes "schema_ok s" "find_lease s i = Some l"
  obtains a where "find_attempt s (ls_attempt_id l) = Some a"
proof -
  have "l \<in> set (st_leases s)" using assms(2) by (auto simp: find_lease_def find_Some_iff)
  then have "ls_attempt_id l \<in> at_id ` set (st_attempts s)" using assms(1) by (auto simp: schema_ok_def references_ok_def)
  then have "find_attempt s (ls_attempt_id l) \<noteq> None" unfolding find_attempt_mem .
  then show thesis using that by auto
qed

lemma disposeAttempt_succeeds:
  assumes ok: "ledger_ok s" and a: "find_attempt s (ls_attempt_id l) = Some a"
  shows "\<exists>s' a'. disposeAttempt l obs s = (Inr (), s') \<and> only_attempt s (ls_attempt_id l) a' s' \<and>
    at_state a' = outcome s a (fst (dispositionFor l a obs))"
proof -
  let ?i = "ls_attempt_id l" and ?d = "fst (dispositionFor l a obs)"
  have i: "at_id a = ?i" using a by (auto simp: find_attempt_def find_Some_iff)
  have "find_attempt s ?i \<noteq> None" using a by simp
  then obtain ev where ev: "RecordEvent ?i (''cleanup_completed:'' @ ls_id l) EventCleanupCompleted s = (Inr (), s\<lparr>st_events := ev\<rparr>)"
    using RecordEvent_succeeds by blast
  let ?s = "s\<lparr>st_events := ev\<rparr>"
  have "preserves schema_ok (RecordEvent ?i (''cleanup_completed:'' @ ls_id l) EventCleanupCompleted)"
    "preserves books_ok (RecordEvent ?i (''cleanup_completed:'' @ ls_id l) EventCleanupCompleted)"
    by (auto intro!: keeps simp: plain_key_def repeatable_def)
  then have ok2: "schema_ok ?s" "numbered ?s" using ok ev by (auto simp: ledger_ok_def preserves_def books_ok_def)
  have served: "servedByThisLease (at_state a)" if "?d \<noteq> DispositionNone"
    using that dispositionOf_served by (auto simp: dispositionFor_def Let_def)
  obtain s' a' where s': "applyDisposition a ?d ?s = (Inr (), s')" "only_attempt ?s ?i a' s'" "at_state a' = outcome ?s a ?d"
    using applyDisposition_succeeds [where d = ?d, OF ok2 _ served, of ?i] a by auto
  have "outcome ?s a ?d = outcome s a ?d" by (simp add: outcome_def servingsSoFar_def)
  moreover have "only_attempt s ?i a' s'" using s'(2) unfolding only_attempt_def by (auto simp: find_attempt_def)
  moreover have "disposeAttempt l obs s = (Inr (), s')"
    using a ev s'(1) i by (simp add: disposeAttempt_def Get_def andThen_def)
  ultimately show ?thesis using s'(3) by auto
qed

lemma ledger_transition:
  assumes "ledger_ok s" "TransitionLease i from to s = (r, s')"
  shows "ledger_ok s'"
  using assms preservesD [OF TransitionLease_keeps, of s i "from" to] preservesD [OF lease_field_ops_books(3), of s i "from" to]
  by (simp add: ledger_ok_def)

lemma ledger_release_lane: "ledger_ok s \<Longrightarrow> ledger_ok (snd (ReleaseCacheLane i s))"
  using preservesD [OF lane_statements_keep(3), of s i] books_core [of "snd (ReleaseCacheLane i s)" s]
  by (simp add: ledger_ok_def ReleaseCacheLane_def)

lemma find_attempt_lanes [simp]:
  "find_attempt (s\<lparr>st_lanes := x\<rparr>) j = find_attempt s j" "find_attempt (s\<lparr>st_leases := y\<rparr>) j = find_attempt s j"
  "find_lease (s\<lparr>st_lanes := x\<rparr>) j = find_lease s j" "servingsSoFar (s\<lparr>st_lanes := x\<rparr>) j = servingsSoFar s j"
  "find_lease (s\<lparr>st_attempts := as\<rparr>) j = find_lease s j" "find_lease (s\<lparr>st_events := ev\<rparr>) j = find_lease s j"
  by (simp_all add: find_attempt_def find_lease_def servingsSoFar_def)

lemma ReleaseCacheLane_frees:
  "\<exists>lanes. ReleaseCacheLane i s = (Inr (), s\<lparr>st_lanes := lanes\<rparr>) \<and> (\<forall>x \<in> set lanes. cl_leased_by x \<noteq> Some i)"
  unfolding ReleaseCacheLane_def
  by (rule exI [of _ "map (\<lambda>l. if cl_leased_by l = Some i then l\<lparr>cl_leased_by := None\<rparr> else l) (st_lanes s)"]) auto

text \<open>The whole transaction, on a lease whose cleanup is complete.\<close>

lemma Finalize_succeeds:
  assumes ok: "ledger_ok s" and l: "find_lease s i = Some l" "ls_state l = LeaseCleaning" and clean: "Resources s i = []"
    and a: "find_attempt s (ls_attempt_id l) = Some a"
  shows "\<exists>s' a'. Finalize i obs s = (Inr (), s') \<and>
    find_lease s' i = Some (l\<lparr>ls_state := LeaseReleased, ls_updated_at := st_now s\<rparr>) \<and>
    (\<forall>x \<in> set (st_lanes s'). cl_leased_by x \<noteq> Some i) \<and> st_intents s' = st_intents s \<and>
    (\<forall>j. find_attempt s' j = (if j = ls_attempt_id l then Some a' else find_attempt s j)) \<and>
    at_state a' = outcome s a (fst (dispositionFor l a obs))"
proof -
  have "schema_ok s" using ok by (simp add: ledger_ok_def)
  from TransitionLease_succeeds [OF this l, of LeaseReleased] obtain ls where
    ls: "TransitionLease i LeaseCleaning LeaseReleased s = (Inr (), s\<lparr>st_leases := ls\<rparr>)"
      "\<And>j. servingsSoFar (s\<lparr>st_leases := ls\<rparr>) j = servingsSoFar s j"
      "find_lease (s\<lparr>st_leases := ls\<rparr>) i = Some (l\<lparr>ls_state := LeaseReleased, ls_updated_at := st_now s\<rparr>)"
    by (auto simp: ValidTransition_def)
  let ?s1 = "s\<lparr>st_leases := ls\<rparr>"
  obtain lanes where lanes: "ReleaseCacheLane i ?s1 = (Inr (), ?s1\<lparr>st_lanes := lanes\<rparr>)"
    "\<forall>x \<in> set lanes. cl_leased_by x \<noteq> Some i" using ReleaseCacheLane_frees by blast
  let ?s2 = "?s1\<lparr>st_lanes := lanes\<rparr>"
  have "ledger_ok ?s2"
    using ledger_release_lane [OF ledger_transition [OF ok ls(1)], of i] lanes(1) by simp
  from disposeAttempt_succeeds [OF this, of l a obs] a obtain s' a' where
    s': "disposeAttempt l obs ?s2 = (Inr (), s')" "only_attempt ?s2 (ls_attempt_id l) a' s'"
      "at_state a' = outcome ?s2 a (fst (dispositionFor l a obs))" by auto
  have "outcome ?s2 a d = outcome s a d" for d using ls(2) by (simp add: outcome_def split: disposition.splits)
  moreover have "Finalize i obs s = (Inr (), s')"
    using l(1) clean ls(1) lanes(1) s'(1) by (simp add: Finalize_def Tx_def LeaseByID_def andThen_def)
  moreover have "find_lease s' i = find_lease ?s1 i" "st_lanes s' = lanes" "st_intents s' = st_intents s"
    "\<forall>j. find_attempt s' j = (if j = ls_attempt_id l then Some a' else find_attempt s j)"
    using s'(2) by (auto simp: only_attempt_def)
  ultimately show ?thesis using ls(3) lanes(2) s'(3) by auto
qed

lemma Finalize_refuses:
  assumes "ledger_ok s" and "\<not> (\<exists>l. find_lease s i = Some l \<and> ls_state l = LeaseCleaning) \<or> Resources s i \<noteq> []"
  shows "\<exists>e. Finalize i obs s = (Inl e, s)"
proof (cases "Resources s i = []")
  case True
  show ?thesis
  proof (cases "find_lease s i")
    case None
    then show ?thesis using True by (simp add: Finalize_def Tx_def LeaseByID_def andThen_def)
  next
    case (Some l)
    then have "ls_state l \<noteq> LeaseCleaning" using assms(2) True by auto
    moreover have "x = l" if "x \<in> set (st_leases s)" "ls_id x = i" for x
    proof -
      have "l \<in> set (st_leases s)" "ls_id l = i" using Some by (auto simp: find_lease_def find_Some_iff)
      then show ?thesis
        using that assms(1) by (auto simp: ledger_ok_def schema_ok_def leases_ok_def distinct_map dest: inj_onD)
    qed
    ultimately have none: "filter (\<lambda>l. ls_id l = i \<and> ls_state l = LeaseCleaning) (st_leases s) = []"
      by (auto simp: filter_empty_conv)
    have "\<exists>e t. TransitionLease i LeaseCleaning LeaseReleased s = (Inl e, t)"
      using Some none
      by (auto simp: TransitionLease_def ValidTransition_def andThen_def update_leases_def Let_def LeaseByID_def
          find_lease_def split: option.splits)
    then show ?thesis using True Some by (auto simp: Finalize_def Tx_def LeaseByID_def andThen_def)
  qed
qed (simp add: Finalize_def Tx_def)

text \<open>C10. The finalizing transaction is all or nothing, and it never gets stuck: on a lease in cleaning whose resource
  records are gone it commits the release, frees the cache lane and disposes of the attempt in one step, whatever state
  the attempt is in and whatever was observed; in every other case it reports an error and changes nothing.\<close>

theorem finalize_all_or_nothing:
  assumes "ledger_ok s"
  shows "if (\<exists>l. find_lease s i = Some l \<and> ls_state l = LeaseCleaning) \<and> Resources s i = []
    then \<exists>s' l a a'. Finalize i obs s = (Inr (), s') \<and> find_lease s i = Some l \<and>
      map_option ls_state (find_lease s' i) = Some LeaseReleased \<and> (\<forall>x \<in> set (st_lanes s'). cl_leased_by x \<noteq> Some i) \<and>
      find_attempt s (ls_attempt_id l) = Some a \<and> find_attempt s' (ls_attempt_id l) = Some a' \<and>
      at_state a' = outcome s a (fst (dispositionFor l a obs)) \<and> \<not> servedByThisLease (at_state a')
    else \<exists>e. Finalize i obs s = (Inl e, s)"
proof (cases "(\<exists>l. find_lease s i = Some l \<and> ls_state l = LeaseCleaning) \<and> Resources s i = []")
  case True
  then obtain l where l: "find_lease s i = Some l" "ls_state l = LeaseCleaning" "Resources s i = []" by auto
  have "schema_ok s" using assms by (simp add: ledger_ok_def)
  then obtain a where a: "find_attempt s (ls_attempt_id l) = Some a" using lease_attempt_exists l(1) by blast
  have "\<not> servedByThisLease (outcome s a (fst (dispositionFor l a obs)))"
    by (auto simp: outcome_def dispositionFor_def dispositionOf_def servedByThisLease_def Let_def split: disposition.splits)
  then show ?thesis using True l a Finalize_succeeds [OF assms l a, of obs] by fastforce
next
  case False
  then show ?thesis using Finalize_refuses [OF assms, of i obs] by auto
qed

definition demo_cleaning :: store
  where "demo_cleaning = run demo_sha [Lease (DoTransitionLease ''l2'' LeaseReserved LeaseFailed),
    Lease (DoTransitionLease ''l2'' LeaseFailed LeaseCleaning)] demo_again"

lemma demo_ledger: "ledger_ok demo_again" "ledger_ok demo_cleaning"
proof -
  show again: "ledger_ok demo_again" unfolding demo_again_def by (rule ledger.history_ok) simp
  show "ledger_ok demo_cleaning" unfolding demo_cleaning_def by (rule ledger_run [OF again])
qed

theorem finalize_all_or_nothing_witness:
  "\<exists>s' a'. Finalize ''l2'' NoObservation demo_cleaning = (Inr (), s') \<and> find_attempt s' ''a1'' = Some a' \<and>
    at_state a' = AttemptReady"
proof -
  have "map_option (\<lambda>l. (ls_state l, ls_attempt_id l)) (find_lease demo_cleaning ''l2'') = Some (LeaseCleaning, ''a1'')"
    by code_simp
  then obtain l where l: "find_lease demo_cleaning ''l2'' = Some l" "ls_state l = LeaseCleaning" "ls_attempt_id l = ''a1''"
    by auto
  have "Resources demo_cleaning ''l2'' = []" by code_simp
  moreover have "case (find_attempt demo_cleaning ''a1'', find_lease demo_cleaning ''l2'') of
      (Some a, Some l) \<Rightarrow> outcome demo_cleaning a (fst (dispositionFor l a NoObservation)) = AttemptReady | _ \<Rightarrow> False"
    by code_simp
  ultimately show ?thesis
    using finalize_all_or_nothing [OF demo_ledger(2), of "''l2''" NoObservation] l by (auto split: option.splits)
qed

text \<open>C9. A finished serving sends work back to the queue only on proof that it never began: an attempt that becomes
  ready in the finalizing transaction is the one this lease serves, it is still within its retry budget, and either its
  start was never authorized or this pass, or an earlier pass of the same serving, observed the capsule unstarted.\<close>

theorem requeue_needs_proof:
  assumes ok: "ledger_ok s" and fin: "Finalize i obs s = (Inr (), s')"
    and a: "find_attempt s j = Some a" "at_state a \<noteq> AttemptReady" and a': "find_attempt s' j = Some a'" "at_state a' = AttemptReady"
  shows "\<exists>l. find_lease s i = Some l \<and> ls_attempt_id l = j \<and> servedByThisLease (at_state a) \<and>
    servingsSoFar s j < st_retryBudget s \<and>
    (Retriable (at_evidence a) \<or> obs \<in> {ObservedCreated, ObservedNeverStarted} \<or>
     \<not> Establishes obs \<and> ls_start_observation l \<in> {Some ObservedCreated, Some ObservedNeverStarted})"
proof -
  obtain l where l: "find_lease s i = Some l" "ls_state l = LeaseCleaning" "Resources s i = []"
    using Finalize_refuses [OF ok, of i obs] fin by fastforce
  have "schema_ok s" using ok by (simp add: ledger_ok_def)
  then obtain b where b: "find_attempt s (ls_attempt_id l) = Some b" using lease_attempt_exists l(1) by blast
  from Finalize_succeeds [OF ok l b, of obs] fin obtain b' where
    b': "\<forall>j. find_attempt s' j = (if j = ls_attempt_id l then Some b' else find_attempt s j)"
      "at_state b' = outcome s b (fst (dispositionFor l b obs))" by auto
  have j: "j = ls_attempt_id l" using b'(1) a a' by (auto split: if_splits)
  then have ab: "b = a" "b' = a'" using b b'(1) a(1) a'(1) by auto
  have id: "at_id a = j" using a(1) by (auto simp: find_attempt_def find_Some_iff)
  have d: "fst (dispositionFor l a obs) = DispositionRequeue" "servingsSoFar s j < st_retryBudget s"
    using b'(2) ab a(2) a'(2) id by (auto simp: outcome_def dispositionFor_def dispositionOf_def Let_def split: disposition.splits if_splits)
  have "servedByThisLease (at_state a)"
    using d(1) by (auto simp: dispositionFor_def dispositionOf_def Let_def split: if_splits)
  moreover have "Retriable (at_evidence a) \<or> obs \<in> {ObservedCreated, ObservedNeverStarted} \<or>
     \<not> Establishes obs \<and> ls_start_observation l \<in> {Some ObservedCreated, Some ObservedNeverStarted}"
    using d(1) by (auto simp: dispositionFor_def dispositionOf_def start_observation_def Let_def Establishes_def
        split: if_splits option.splits)
  ultimately show ?thesis using l(1) j d(2) by auto
qed

theorem requeue_needs_proof_witness:
  "\<exists>l. find_lease demo_cleaning ''l2'' = Some l \<and> servingsSoFar demo_cleaning ''a1'' < st_retryBudget demo_cleaning"
proof -
  have "fst (Finalize ''l2'' NoObservation demo_cleaning) = Inr ()" by code_simp
  then obtain s' where s': "Finalize ''l2'' NoObservation demo_cleaning = (Inr (), s')" by (cases "Finalize ''l2'' NoObservation demo_cleaning") auto
  have "map_option at_state (find_attempt (snd (Finalize ''l2'' NoObservation demo_cleaning)) ''a1'') = Some AttemptReady"
    by code_simp
  then obtain a' where a': "find_attempt s' ''a1'' = Some a'" "at_state a' = AttemptReady" using s' by auto
  have "map_option at_state (find_attempt demo_cleaning ''a1'') = Some AttemptPreparing" by code_simp
  then obtain a where a: "find_attempt demo_cleaning ''a1'' = Some a" "at_state a \<noteq> AttemptReady" by auto
  show ?thesis using requeue_needs_proof [OF demo_ledger(2) s' a a'] by blast
qed

section \<open>Into cleaning from anywhere\<close>

lemma find_lease_self: "find_lease s i = Some l \<Longrightarrow> ls_id l = i"
  by (auto simp: find_lease_def find_Some_iff)

lemma Tx_success: "body s = (Inr x, s') \<Longrightarrow> Tx body s = (Inr x, s')"
  by (simp add: Tx_def)

text \<open>Cleanup can start from every live state: whatever state a crash left a lease in, short of released, it reaches
  cleaning in one transaction that reports the lease as it was and touches no other row; a released lease stays released
  and the call reports an error.\<close>

theorem to_cleaning_from_anywhere:
  assumes ok: "schema_ok s" and l: "find_lease s i = Some l"
  shows "if ls_state l = LeaseReleased then \<exists>e. ToCleaning i s = (Inl e, s)
    else \<exists>ls. ToCleaning i s = (Inr l, s\<lparr>st_leases := ls\<rparr>) \<and>
      (\<forall>j. map_option ls_state (find_lease (s\<lparr>st_leases := ls\<rparr>) j) =
        (if j = i then Some LeaseCleaning else map_option ls_state (find_lease s j)))"
proof (cases "ls_state l \<in> {LeaseReleased, LeaseCleaning, LeaseFailed, LeaseQuarantined}")
  case True
  consider "ls_state l = LeaseReleased" | "ls_state l = LeaseCleaning" | "ls_state l = LeaseFailed \<or> ls_state l = LeaseQuarantined"
    using True by auto
  then show ?thesis
  proof cases
    case 1
    then show ?thesis using l by (simp add: ToCleaning_def Tx_def andThen_def LeaseByID_def TransitionLease_def ValidTransition_def)
  next
    case 2
    then show ?thesis using l
      by (auto simp: ToCleaning_def Tx_def andThen_def LeaseByID_def intro!: exI [of _ "st_leases s"])
  next
    case 3
    then have "ValidTransition (ls_state l) LeaseCleaning" by (auto simp: ValidTransition_def)
    from TransitionLease_succeeds [OF ok l refl this] show ?thesis
      using 3 l by (force simp: ToCleaning_def Tx_def andThen_def LeaseByID_def)
  qed
next
  case False
  then have "ValidTransition (ls_state l) LeaseFailed" by (cases "ls_state l") (auto simp: ValidTransition_def)
  from TransitionLease_succeeds [OF ok l refl this] obtain ls where
    ls: "TransitionLease i (ls_state l) LeaseFailed s = (Inr (), s\<lparr>st_leases := ls\<rparr>)"
      "\<And>j. find_lease (s\<lparr>st_leases := ls\<rparr>) j = (if j = i then Some (l\<lparr>ls_state := LeaseFailed, ls_updated_at := st_now s\<rparr>) else find_lease s j)"
    by blast
  let ?s = "s\<lparr>st_leases := ls\<rparr>"
  have ok': "schema_ok ?s" using preservesD [OF TransitionLease_keeps ok, of i "ls_state l" LeaseFailed] ls(1) by simp
  have "find_lease ?s i = Some (l\<lparr>ls_state := LeaseFailed, ls_updated_at := st_now s\<rparr>)" using ls(2) by simp
  from TransitionLease_succeeds [OF ok' this, of LeaseFailed LeaseCleaning] obtain ls' where
    ls': "TransitionLease i LeaseFailed LeaseCleaning ?s = (Inr (), ?s\<lparr>st_leases := ls'\<rparr>)"
      "\<And>j. map_option ls_state (find_lease (?s\<lparr>st_leases := ls'\<rparr>) j) = (if j = i then Some LeaseCleaning else map_option ls_state (find_lease ?s j))"
    by (auto simp: ValidTransition_def)
  have "ToCleaning i s = (Inr l, s\<lparr>st_leases := ls'\<rparr>)"
    using False l ls(1) ls'(1) by (simp add: ToCleaning_def Tx_def andThen_def LeaseByID_def)
  moreover have "map_option ls_state (find_lease (s\<lparr>st_leases := ls'\<rparr>) j) =
      (if j = i then Some LeaseCleaning else map_option ls_state (find_lease s j))" for j
    using ls'(2) [of j] ls(2) [of j] by simp
  moreover have "ls_state l \<noteq> LeaseReleased" using False by simp
  ultimately show ?thesis by (simp only: if_False) blast
qed

theorem to_cleaning_from_anywhere_witness:
  "\<exists>ls. ToCleaning ''l2'' demo_again = (Inr (the (find_lease demo_again ''l2'')), demo_again\<lparr>st_leases := ls\<rparr>)"
proof -
  have "map_option ls_state (find_lease demo_again ''l2'') = Some LeaseReserved" by code_simp
  then obtain l where l: "find_lease demo_again ''l2'' = Some l" "ls_state l = LeaseReserved" by auto
  then show ?thesis using to_cleaning_from_anywhere [OF demo_schema(2) l(1)] by auto
qed

end
