(* ===== verification/Removal.thy ===== *)
theory Removal
  imports LeaseProps
begin

text \<open>
  The removal saga of \<^verbatim>\<open>internal/lease\<close>: which intents a pass forgets, what a
  failure leaves behind, and how the release of a lease ends.
\<close>

section \<open>What marking and forgetting keep\<close>

text \<open>The part of an intent no mark changes.\<close>

definition face :: "intent \<Rightarrow> intent_id \<times> lease_id \<times> resource_kind \<times> string \<times> string"
  where "face x = (in_id x, in_lease_id x, in_kind x, in_name x, in_docker_id x)"

definition removable :: "intent \<Rightarrow> bool"
  where "removable x \<longleftrightarrow> in_state x \<in> {ResourceCleanupPending, ResourceDeleting}"

lemma face_Handle: "face x = face y \<Longrightarrow> Handle x = Handle y \<and> in_kind x = in_kind y \<and> in_id x = in_id y \<and> in_lease_id x = in_lease_id y"
  by (simp add: face_def Handle_def)

lemma update_intents_shape:
  assumes "\<And>x. face (f x) = face x"
  shows "map face (map (\<lambda>x. if P x then f x else x) xs) = map face xs"
  using assms by simp

lemma update_intents_Inr:
  "update_intents P f s = (Inr (length (filter P (st_intents s))), s\<lparr>st_intents := map (\<lambda>x. if P x then f x else x) (st_intents s)\<rparr>)"
  by (simp add: update_intents_def)

text \<open>One step: mark, call, then forget or book.\<close>

lemma removeIntent_cases:
  assumes present: "\<exists>y \<in> set (st_intents s). in_id y = in_id x \<and> removable y"
    and call: "removeIntent remove rnd x (s, w) = (r, s', w')"
  obtains (gone) ys where "r = Inr ()" "remove (in_kind x) (Handle x) (in_lease_id x) w = (None, w')"
      "s' = s\<lparr>st_intents := filter (\<lambda>y. in_id y \<noteq> in_id x) ys\<rparr>" "map face ys = map face (st_intents s)"
      "\<And>y. in_id y \<noteq> in_id x \<Longrightarrow> y \<in> set ys \<longleftrightarrow> y \<in> set (st_intents s)"
    | (booked) ys msg where "r = Inl ErrEffect" "remove (in_kind x) (Handle x) (in_lease_id x) w = (Some msg, w')"
      "s' = s\<lparr>st_intents := ys\<rparr>" "map face ys = map face (st_intents s)"
proof -
  define ms where "ms = map (\<lambda>y. if in_id y = in_id x \<and> removable y
      then y\<lparr>in_state := ResourceDeleting, in_updated_at := st_now s\<rparr> else y) (st_intents s)"
  have ms: "map face ms = map face (st_intents s)" unfolding ms_def by (rule update_intents_shape) (simp add: face_def)
  have ms_set: "y \<in> set ms \<longleftrightarrow> y \<in> set (st_intents s)" if "in_id y \<noteq> in_id x" for y
    using that by (auto simp: ms_def image_iff)
  have "filter (\<lambda>y. in_id y = in_id x \<and> removable y) (st_intents s) \<noteq> []"
    using present by (auto simp: filter_empty_conv)
  then have mark: "inTx (MarkResourceDeleting (in_id x)) (s, w) = (Inr (), s\<lparr>st_intents := ms\<rparr>, w)"
    by (simp add: inTx_def Tx_def MarkResourceDeleting_def mustAffect_def andThen_def update_intents_def ms_def removable_def)
  obtain y where "y \<in> set (st_intents s)" "in_id y = in_id x" using present by blast
  then have "(in_id x, in_lease_id y, in_kind y, in_name y, in_docker_id y) \<in> set (map face ms)"
    unfolding ms by (auto simp: face_def image_iff intro!: bexI [of _ y])
  then have here: "filter (\<lambda>y. in_id y = in_id x) ms \<noteq> []" by (auto simp: face_def filter_empty_conv)
  obtain res w'' where rm: "remove (in_kind x) (Handle x) (in_lease_id x) w = (res, w'')" by fastforce
  show thesis
  proof (cases res)
    case None
    then have "r = Inr ()" "w' = w''" "s' = s\<lparr>st_intents := filter (\<lambda>y. in_id y \<noteq> in_id x) ms\<rparr>"
      using call mark rm here by (auto simp: removeIntent_def andDo_def removeObject_def inTx_def Tx_def ForgetResource_def
          mustAffect_def andThen_def)
    then show thesis using gone [of ms] rm None ms ms_set by simp
  next
    case (Some msg)
    define ys where "ys = map (\<lambda>y. if in_id y = in_id x then y\<lparr>in_retries := in_retries y + 1, in_last_error := msg,
        in_not_before := (st_now s * second + removalBackoff rnd (in_retries x)) div second, in_updated_at := st_now s\<rparr> else y) ms"
    have "map face ys = map face ms" unfolding ys_def by (rule update_intents_shape) (simp add: face_def)
    moreover have "r = Inl ErrEffect" "w' = w''" "s' = s\<lparr>st_intents := ys\<rparr>"
      using call mark rm Some here
      by (auto simp: removeIntent_def andDo_def removeObject_def book_error_def Tx_def RecordResourceError_def mustAffect_def
          andThen_def update_intents_def ys_def)
    ultimately show thesis using booked [of msg ys] rm Some ms by simp
  qed
qed

section \<open>A pass over the intents\<close>

text \<open>The remover's contract, as \<^verbatim>\<open>lease.Remover\<close> documents it: success means the object is absent, and removing
  another object does not bring it back.\<close>

definition remover_ok :: "'w remover \<Rightarrow> (resource_kind \<Rightarrow> string \<Rightarrow> 'w \<Rightarrow> bool) \<Rightarrow> bool"
  where "remover_ok remove absent \<longleftrightarrow>
    (\<forall>k h l w. fst (remove k h l w) = None \<longrightarrow> absent k h (snd (remove k h l w))) \<and>
    (\<forall>k h k' h' l w. absent k h w \<longrightarrow> absent k h (snd (remove k' h' l w)))"

lemma removeIntent_absent:
  assumes "remover_ok remove absent" "absent k h w" "removeIntent remove rnd x (s, w) = (r, s', w')"
  shows "absent k h w'"
  using assms
  by (auto simp: removeIntent_def andDo_def removeObject_def inTx_def remover_ok_def split: prod.splits sum.splits option.splits)
    (metis snd_conv)+

lemma removeIntents_absent:
  "remover_ok remove absent \<Longrightarrow> absent k h w \<Longrightarrow> removeIntents remove rnd xs (s, w) = (r, s', w') \<Longrightarrow> absent k h w'"
proof (induction xs arbitrary: s w)
  case (Cons x xs)
  obtain r1 s1 w1 where step: "removeIntent remove rnd x (s, w) = (r1, s1, w1)" by (metis prod_cases3)
  then have "absent k h w1" using Cons.prems removeIntent_absent by metis
  then show ?case using Cons step by (cases r1) (auto simp: andDo_def)
qed (simp add: pass_def)

definition kept :: "intent list \<Rightarrow> intent \<Rightarrow> bool"
  where "kept ys x \<longleftrightarrow> face x \<in> face ` set ys"

lemma kept_mem: "y \<in> set ys \<Longrightarrow> face y = face x \<Longrightarrow> kept ys x"
  unfolding kept_def by (metis image_eqI)

lemma kept_map: "map face ys = map face zs \<Longrightarrow> kept ys x = kept zs x"
  by (metis kept_def list.set_map)

lemma kept_filter: "kept (filter (\<lambda>y. in_id y \<noteq> i) ys) x \<longleftrightarrow> kept ys x \<and> in_id x \<noteq> i"
  by (auto simp: kept_def face_def image_iff)

lemma removeIntents_spec:
  assumes "remover_ok remove absent" and "distinct (map in_id xs)"
    and "\<forall>x \<in> set xs. \<exists>y \<in> set (st_intents s). face y = face x \<and> removable y"
    and "removeIntents remove rnd xs (s, w) = (r, s', w')"
  shows "\<exists>ys. s' = s\<lparr>st_intents := ys\<rparr> \<and> (\<forall>x. kept ys x \<longrightarrow> kept (st_intents s) x) \<and>
    (\<forall>x. kept (st_intents s) x \<longrightarrow> in_id x \<notin> in_id ` set xs \<longrightarrow> kept ys x) \<and>
    (\<forall>x \<in> set xs. kept ys x \<or> absent (in_kind x) (Handle x) w') \<and>
    (case r of Inr _ \<Rightarrow> \<forall>x \<in> set xs. \<not> kept ys x | Inl _ \<Rightarrow> \<exists>x \<in> set xs. kept ys x)"
  using assms
proof (induction xs arbitrary: s w)
  case Nil
  then show ?case by (auto simp: pass_def intro!: exI [of _ "st_intents s"])
next
  case (Cons x xs)
  have here: "\<exists>y \<in> set (st_intents s). face y = face x \<and> removable y" using Cons.prems by simp
  then have present: "\<exists>y \<in> set (st_intents s). in_id y = in_id x \<and> removable y" by (auto simp: face_def)
  have kx: "kept (st_intents s) x" using here kept_mem by blast
  obtain r1 s1 w1 where step: "removeIntent remove rnd x (s, w) = (r1, s1, w1)" by (metis prod_cases3)
  show ?case
  proof (cases rule: removeIntent_cases [OF present step])
    case (1 ys)
    note gone = 1
    let ?ys = "filter (\<lambda>y. in_id y \<noteq> in_id x) ys"
    have k1: "kept (st_intents s1) z \<longleftrightarrow> kept (st_intents s) z \<and> in_id z \<noteq> in_id x" for z
      using gone(3,4) by (simp add: kept_filter kept_map [OF gone(4)])
    have rest: "removeIntents remove rnd xs (s1, w1) = (r, s', w')"
      using Cons.prems(4) step gone(1) by (simp add: andDo_def)
    have "absent (in_kind x) (Handle x) w1" using gone(2) Cons.prems(1) unfolding remover_ok_def by (metis fst_conv snd_conv)
    then have ax: "absent (in_kind x) (Handle x) w'" using removeIntents_absent [OF Cons.prems(1) _ rest] by blast
    have ids: "in_id z \<noteq> in_id x" if "z \<in> set xs" for z using Cons.prems(2) that by (auto simp: image_iff)
    have "\<exists>y \<in> set (st_intents s1). face y = face z \<and> removable y" if z: "z \<in> set xs" for z
    proof -
      obtain y where y: "y \<in> set (st_intents s)" "face y = face z" "removable y" using Cons.prems(3) z by auto
      have "in_id y \<noteq> in_id x" using y(2) ids [OF z] by (simp add: face_def)
      then show ?thesis using y gone(3,5) by auto
    qed
    then obtain zs where zs: "s' = s1\<lparr>st_intents := zs\<rparr>" "\<forall>z. kept zs z \<longrightarrow> kept (st_intents s1) z"
      "\<forall>z. kept (st_intents s1) z \<longrightarrow> in_id z \<notin> in_id ` set xs \<longrightarrow> kept zs z"
      "\<forall>z \<in> set xs. kept zs z \<or> absent (in_kind z) (Handle z) w'"
      "case r of Inr _ \<Rightarrow> \<forall>z \<in> set xs. \<not> kept zs z | Inl _ \<Rightarrow> \<exists>z \<in> set xs. kept zs z"
      using Cons.IH [OF Cons.prems(1) _ _ rest] Cons.prems(2) by auto
    have nx: "\<not> kept zs x" using zs(2) k1 by blast
    show ?thesis
    proof (intro exI [of _ zs] conjI)
      show "s' = s\<lparr>st_intents := zs\<rparr>" using zs(1) gone(3) by simp
      show "\<forall>z. kept zs z \<longrightarrow> kept (st_intents s) z" using zs(2) k1 by blast
      show "\<forall>z. kept (st_intents s) z \<longrightarrow> in_id z \<notin> in_id ` set (x # xs) \<longrightarrow> kept zs z" using zs(3) k1 by simp
      show "\<forall>z \<in> set (x # xs). kept zs z \<or> absent (in_kind z) (Handle z) w'" using zs(4) ax by simp
      show "case r of Inr _ \<Rightarrow> \<forall>z \<in> set (x # xs). \<not> kept zs z | Inl _ \<Rightarrow> \<exists>z \<in> set (x # xs). kept zs z"
        using zs(5) nx by (cases r) simp_all
    qed
  next
    case (2 ys msg)
    note booked = 2
    have "r = Inl ErrEffect" "s' = s\<lparr>st_intents := ys\<rparr>" "\<And>z. kept ys z \<longleftrightarrow> kept (st_intents s) z"
      using booked Cons.prems(4) step kept_map [OF booked(4)] by (auto simp: andDo_def)
    moreover have "kept (st_intents s) z" if z: "z \<in> set xs" for z
    proof -
      obtain y where "y \<in> set (st_intents s)" "face y = face z" using Cons.prems(3) z by auto
      then show ?thesis by (rule kept_mem)
    qed
    ultimately show ?thesis using kx by (intro exI [of _ ys]) auto
  qed
qed

lemma MarkResourceCleanup_marks:
  obtains ms where "inTx (MarkResourceCleanup i) (s, w) = (Inr (), s\<lparr>st_intents := ms\<rparr>, w)" "map face ms = map face (st_intents s)"
    "\<And>x. x \<in> set ms \<Longrightarrow> in_lease_id x = i \<Longrightarrow> removable x"
proof -
  define ms where "ms = map (\<lambda>x. if in_lease_id x = i \<and> in_state x \<in> {ResourcePlanned, ResourceCreating, ResourcePresent}
      then x\<lparr>in_state := ResourceCleanupPending, in_updated_at := st_now s\<rparr> else x) (st_intents s)"
  have "inTx (MarkResourceCleanup i) (s, w) = (Inr (), s\<lparr>st_intents := ms\<rparr>, w)"
    by (simp add: inTx_def Tx_def MarkResourceCleanup_def andThen_def update_intents_def ms_def)
  moreover have "map face ms = map face (st_intents s)" unfolding ms_def by (rule update_intents_shape) (simp add: face_def)
  moreover have "removable x" if x: "x \<in> set ms" "in_lease_id x = i" for x
  proof -
    obtain y where "x = (if in_lease_id y = i \<and> in_state y \<in> {ResourcePlanned, ResourceCreating, ResourcePresent}
        then y\<lparr>in_state := ResourceCleanupPending, in_updated_at := st_now s\<rparr> else y)"
      using x(1) unfolding ms_def set_map by blast
    then show ?thesis using x(2) by (cases "in_state y") (auto simp: removable_def split: if_splits)
  qed
  ultimately show thesis by (rule that)
qed

lemma Resources_empty: "Resources s i = [] \<longleftrightarrow> (\<forall>x. kept (st_intents s) x \<longrightarrow> in_lease_id x \<noteq> i)"
  by (auto simp: Resources_def filter_empty_conv kept_def face_def image_iff)

lemma RemoveResources_spec:
  assumes ok: "schema_ok s" and rm: "remover_ok remove absent" and call: "RemoveResources remove rnd i (s, w) = (r, s', w')"
  shows "\<exists>ys. s' = s\<lparr>st_intents := ys\<rparr> \<and> (\<forall>x. kept ys x \<longrightarrow> kept (st_intents s) x) \<and>
    (\<forall>x. kept (st_intents s) x \<longrightarrow> kept ys x \<or> in_lease_id x = i \<and> absent (in_kind x) (Handle x) w') \<and>
    (case r of Inr _ \<Rightarrow> Resources s' i = [] | Inl _ \<Rightarrow> Resources s' i \<noteq> [])"
proof -
  obtain ms where ms: "inTx (MarkResourceCleanup i) (s, w) = (Inr (), s\<lparr>st_intents := ms\<rparr>, w)"
    "map face ms = map face (st_intents s)" "\<And>x. x \<in> set ms \<Longrightarrow> in_lease_id x = i \<Longrightarrow> removable x"
    using MarkResourceCleanup_marks [of i s w] by blast
  let ?s = "s\<lparr>st_intents := ms\<rparr>"
  let ?xs = "sort_key (\<lambda>x. removal_order (in_kind x)) (Resources ?s i)"
  have set: "set ?xs = {x \<in> set ms. in_lease_id x = i}" by (auto simp: Resources_def)
  have "map in_id ms = map in_id (st_intents s)" using arg_cong [OF ms(2), of "map fst"] by (simp add: comp_def face_def)
  then have "inj_on in_id (set ms)" "distinct ms" using ok by (metis schema_ok_def distinct_map)+
  then have "distinct (map in_id ?xs)" unfolding distinct_map set
    by (auto simp: Resources_def intro: inj_on_subset)
  moreover have "removeIntents remove rnd ?xs (?s, w) = (r, s', w')" using call ms(1) by (simp add: RemoveResources_def andDo_def)
  moreover have "\<forall>x \<in> set ?xs. \<exists>y \<in> set (st_intents ?s). face y = face x \<and> removable y" using ms(3) set by auto
  ultimately obtain ys where ys: "s' = ?s\<lparr>st_intents := ys\<rparr>" "\<forall>x. kept ys x \<longrightarrow> kept ms x"
    "\<forall>x. kept ms x \<longrightarrow> in_id x \<notin> in_id ` set ?xs \<longrightarrow> kept ys x"
    "\<forall>x \<in> set ?xs. kept ys x \<or> absent (in_kind x) (Handle x) w'"
    "case r of Inr _ \<Rightarrow> \<forall>x \<in> set ?xs. \<not> kept ys x | Inl _ \<Rightarrow> \<exists>x \<in> set ?xs. kept ys x"
    using removeIntents_spec [OF rm, of ?xs ?s rnd w r s' w'] by auto
  have k: "kept ms x = kept (st_intents s) x" for x by (rule kept_map [OF ms(2)])
  have mine: "\<exists>z \<in> set ?xs. face z = face x" if "kept ms x" "in_lease_id x = i" for x
    using that set by (auto simp: kept_def face_def)
  have face_kept: "face z = face x \<Longrightarrow> kept ys z = kept ys x" for z x by (simp add: kept_def)
  have foreign: "in_id x \<notin> in_id ` set ?xs" if x: "kept ms x" "in_lease_id x \<noteq> i" for x
  proof
    assume "in_id x \<in> in_id ` set ?xs"
    then obtain z where z: "z \<in> set ms" "in_lease_id z = i" "in_id z = in_id x" using set by auto
    obtain y where y: "y \<in> set ms" "face y = face x" using x(1) by (auto simp: kept_def)
    then have "y = z" using z inj_onD [OF \<open>inj_on in_id (set ms)\<close>, of y z] by (simp add: face_def)
    then show False using y z x(2) by (simp add: face_def)
  qed
  have saved: "kept ys x \<or> in_lease_id x = i \<and> absent (in_kind x) (Handle x) w'" if x: "kept (st_intents s) x" for x
  proof (cases "in_lease_id x = i")
    case True
    then obtain z where z: "z \<in> set ?xs" "face z = face x" using mine k x by blast
    then show ?thesis using ys(4) face_Handle [OF z(2)] face_kept [OF z(2)] True by auto
  next
    case False
    then show ?thesis using ys(3) foreign k x by blast
  qed
  have "case r of Inr _ \<Rightarrow> Resources s' i = [] | Inl _ \<Rightarrow> Resources s' i \<noteq> []"
  proof (cases r)
    case (Inl e)
    then obtain x where "x \<in> set ?xs" "kept ys x" using ys(5) by auto
    then show ?thesis using Inl set ys(1) by (simp add: Resources_empty) blast
  next
    case (Inr u)
    have "in_lease_id x \<noteq> i" if "kept ys x" for x
    proof
      assume "in_lease_id x = i"
      then obtain z where z: "z \<in> set ?xs" "face z = face x" using mine ys(2) \<open>kept ys x\<close> by blast
      have "kept ys z" using face_kept [OF z(2)] \<open>kept ys x\<close> by simp
      then show False using ys(5) Inr z(1) by auto
    qed
    then show ?thesis using Inr ys(1) by (simp add: Resources_empty)
  qed
  moreover have "s' = s\<lparr>st_intents := ys\<rparr>" using ys(1) by simp
  moreover have "\<forall>x. kept ys x \<longrightarrow> kept (st_intents s) x" using ys(2) k by simp
  ultimately show ?thesis using saved by blast
qed

text \<open>C22. A resource record is dropped only after the runtime proved the object absent: after a removal pass every
  intent that was on record is either still on record, or belonged to this lease and its object is absent; the pass
  touches nothing but intents, and it reports success exactly when the lease owns none any more.\<close>

theorem removal_forgets_only_the_gone:
  assumes "schema_ok s" and "remover_ok remove absent" and "RemoveResources remove rnd i (s, w) = (r, s', w')"
  shows "(\<exists>ys. s' = s\<lparr>st_intents := ys\<rparr>) \<and>
    (\<forall>x \<in> set (st_intents s). in_id x \<in> in_id ` set (st_intents s') \<or>
       in_lease_id x = i \<and> absent (in_kind x) (Handle x) w') \<and>
    (case r of Inr _ \<Rightarrow> Resources s' i = [] | Inl _ \<Rightarrow> Resources s' i \<noteq> [])"
proof -
  obtain ys where ys: "s' = s\<lparr>st_intents := ys\<rparr>"
    "\<forall>x. kept (st_intents s) x \<longrightarrow> kept ys x \<or> in_lease_id x = i \<and> absent (in_kind x) (Handle x) w'"
    "case r of Inr _ \<Rightarrow> Resources s' i = [] | Inl _ \<Rightarrow> Resources s' i \<noteq> []"
    using RemoveResources_spec [OF assms] by blast
  have "in_id x \<in> in_id ` set (st_intents s') \<or> in_lease_id x = i \<and> absent (in_kind x) (Handle x) w'"
    if "x \<in> set (st_intents s)" for x
  proof -
    have "kept (st_intents s) x" using that kept_mem by blast
    moreover have "in_id x \<in> in_id ` set ys" if "kept ys x" using that by (auto simp: kept_def face_def)
    ultimately show ?thesis using ys(1,2) by auto
  qed
  then show ?thesis using ys(1,3) by blast
qed

text \<open>A world of existing objects, and a runtime that cannot remove networks.\<close>

definition demo_remove :: "(resource_kind \<times> string) list remover"
  where "demo_remove k h l w = (if k = ResourceNetwork then (Some ''in use'', w) else (None, filter (\<lambda>x. x \<noteq> (k, h)) w))"

definition demo_absent :: "resource_kind \<Rightarrow> string \<Rightarrow> (resource_kind \<times> string) list \<Rightarrow> bool"
  where "demo_absent k h w \<longleftrightarrow> (k, h) \<notin> set w"

lemma demo_remover: "remover_ok demo_remove demo_absent"
  by (auto simp: remover_ok_def demo_remove_def demo_absent_def)

definition demo_owning :: store
  where "demo_owning = run demo_sha [Intent (DoPlan ''l2'' ResourceNetwork ResourceRoleCapsuleNetwork ''net''),
    Intent (DoPlan ''l2'' ResourceContainer ResourceRoleCapsule ''box'')] demo_cleaning"

lemma demo_owning_schema: "schema_ok demo_owning" "ledger_ok demo_owning"
  using ledger_run [OF demo_ledger(2)] unfolding demo_owning_def ledger_ok_def by blast+

theorem removal_forgets_only_the_gone_witness:
  "let (r, s', w') = RemoveResources demo_remove (\<lambda>_. 0) ''l2'' (demo_owning, [(ResourceContainer, ''box''), (ResourceNetwork, ''net'')])
   in Resources s' ''l2'' \<noteq> [] \<and> w' = [(ResourceNetwork, ''net'')]"
proof -
  obtain r s' w' where call: "RemoveResources demo_remove (\<lambda>_. 0) ''l2''
      (demo_owning, [(ResourceContainer, ''box''), (ResourceNetwork, ''net'')]) = (r, s', w')" by (metis prod_cases3)
  have "(case RemoveResources demo_remove (\<lambda>_. 0) ''l2'' (demo_owning, [(ResourceContainer, ''box''), (ResourceNetwork, ''net'')]) of
      (r, s', w') \<Rightarrow> r = Inl ErrEffect \<and> w' = [(ResourceNetwork, ''net'')])" by code_simp
  then have "r = Inl ErrEffect" "w' = [(ResourceNetwork, ''net'')]" using call by simp_all
  then show ?thesis using call removal_forgets_only_the_gone [OF demo_owning_schema(1) demo_remover call] by simp
qed

section \<open>Release\<close>

lemma ledger_intents: "ledger_ok s \<Longrightarrow> schema_ok (s\<lparr>st_intents := ys\<rparr>) \<Longrightarrow> ledger_ok (s\<lparr>st_intents := ys\<rparr>)"
  using books_core [of "s\<lparr>st_intents := ys\<rparr>" s] by (simp add: ledger_ok_def)

lemma inTx_keeps: "preserves I m \<Longrightarrow> I s \<Longrightarrow> inTx m (s, w) = (r, s', w') \<Longrightarrow> I s'"
  using preservesD [OF preserves_Tx] by (fastforce simp: inTx_def split: prod.splits)

lemma removeIntent_schema:
  assumes ok: "schema_ok s" and call: "removeIntent remove rnd x (s, w) = (r, s', w')"
  shows "schema_ok s'"
proof -
  obtain r1 s1 w1 where mark: "inTx (MarkResourceDeleting (in_id x)) (s, w) = (r1, s1, w1)" by (metis prod_cases3)
  have s1: "schema_ok s1" by (rule inTx_keeps [OF intent_ops_keep(4) ok mark])
  obtain res w2 where rm: "remove (in_kind x) (Handle x) (in_lease_id x) w1 = (res, w2)" by fastforce
  have "schema_ok (book_error rnd x msg s1)" for msg
    unfolding book_error_def by (rule preservesD [OF preserves_Tx [OF intent_ops_keep(6)] s1])
  moreover have "schema_ok s2" if "inTx (ForgetResource (in_id x)) (s1, w2) = (r2, s2, w3)" for r2 s2 w3
    by (rule inTx_keeps [OF intent_ops_keep(5) s1 that])
  ultimately show ?thesis
    using call mark rm s1 by (cases r1; cases res) (auto simp: removeIntent_def andDo_def removeObject_def)
qed

lemma removeIntents_schema:
  "schema_ok s \<Longrightarrow> removeIntents remove rnd xs (s, w) = (r, s', w') \<Longrightarrow> schema_ok s'"
proof (induction xs arbitrary: s w)
  case (Cons x xs)
  obtain r1 s1 w1 where step: "removeIntent remove rnd x (s, w) = (r1, s1, w1)" by (metis prod_cases3)
  then have "schema_ok s1" using removeIntent_schema Cons.prems(1) by metis
  then show ?case using Cons step by (cases r1) (auto simp: andDo_def)
qed (simp add: pass_def)

lemma RemoveResources_ledger:
  assumes ok: "ledger_ok s" and rm: "remover_ok remove absent" and call: "RemoveResources remove rnd i (s, w) = (r, s', w')"
  shows "ledger_ok s'"
proof -
  have sch: "schema_ok s" using ok by (simp add: ledger_ok_def)
  obtain r1 s1 w1 where mark: "inTx (MarkResourceCleanup i) (s, w) = (r1, s1, w1)" by (metis prod_cases3)
  have "schema_ok s1" by (rule inTx_keeps [OF intent_ops_keep(3) sch mark])
  then have "schema_ok s'"
    using call mark removeIntents_schema by (cases r1) (auto simp: RemoveResources_def andDo_def)
  then show ?thesis using RemoveResources_spec [OF sch rm call] ledger_intents [OF ok] by auto
qed

lemma drain_and_clean:
  assumes ok: "ledger_ok s" and l: "find_lease s i = Some l" "ls_state l = from"
    and live: "from = LeaseRuntimeRegistered \<or> from = LeaseWorkloadRunning"
  obtains s1 l' where "inTx (andThen (TransitionLease i from LeaseDraining) (\<lambda>_. TransitionLease i LeaseDraining LeaseCleaning)) (s, w) = (Inr (), s1, w)"
    "ledger_ok s1" "find_lease s1 i = Some l'" "ls_state l' = LeaseCleaning"
proof -
  have "ValidTransition from LeaseDraining" using live by (auto simp: ValidTransition_def)
  moreover have sch: "schema_ok s" using ok by (simp add: ledger_ok_def)
  ultimately obtain ls where ls: "TransitionLease i from LeaseDraining s = (Inr (), s\<lparr>st_leases := ls\<rparr>)"
    "find_lease (s\<lparr>st_leases := ls\<rparr>) i = Some (l\<lparr>ls_state := LeaseDraining, ls_updated_at := st_now s\<rparr>)"
    using TransitionLease_succeeds [OF sch l] by (metis (full_types))
  let ?s = "s\<lparr>st_leases := ls\<rparr>"
  have ok': "ledger_ok ?s" by (rule ledger_transition [OF ok ls(1)])
  then have "schema_ok ?s" by (simp add: ledger_ok_def)
  from TransitionLease_succeeds [OF this ls(2), of LeaseDraining LeaseCleaning] obtain ls' where
    ls': "TransitionLease i LeaseDraining LeaseCleaning ?s = (Inr (), ?s\<lparr>st_leases := ls'\<rparr>)"
      "find_lease (?s\<lparr>st_leases := ls'\<rparr>) i =
        Some (l\<lparr>ls_state := LeaseDraining, ls_updated_at := st_now s\<rparr>\<lparr>ls_state := LeaseCleaning, ls_updated_at := st_now ?s\<rparr>)"
    by (auto simp: ValidTransition_def)
  have "ledger_ok (?s\<lparr>st_leases := ls'\<rparr>)" by (rule ledger_transition [OF ok' ls'(1)])
  then show thesis using that ls(1) ls' by (simp add: inTx_def Tx_def andThen_def)
qed


definition demo_running :: store
  where "demo_running = run demo_sha [Intent (DoPlan ''l2'' ResourceContainer ResourceRoleCapsule ''box''),
    Lease (DoTransitionLease ''l2'' LeaseReserved LeaseProvisioning),
    Lease (DoTransitionLease ''l2'' LeaseProvisioning LeaseRuntimeRegistered)] demo_again"


section \<open>Backoff\<close>

text \<open>The delay booked after a failed removal is at least ten seconds and at most six and a quarter minutes, for every
  number of retries and every draw of the jitter.\<close>

theorem removal_backoff_bounded:
  assumes "0 \<le> retries" and "\<And>n. 0 < n \<Longrightarrow> 0 \<le> rnd n \<and> rnd n < n"
  shows "10 * second \<le> removalBackoff rnd retries \<and> removalBackoff rnd retries < 375 * second"
proof -
  define b where "b = min (2 ^ nat (min retries 6) * (10 * second)) (5 * 60 * second)"
  have "(1 :: int) \<le> 2 ^ nat (min retries 6)" by simp
  then have "10 * second \<le> 2 ^ nat (min retries 6) * (10 * second)" by (simp add: second_def)
  then have b: "10 * second \<le> b" "b \<le> 300 * second" by (simp_all add: b_def second_def)
  then have "0 < b div 4" "b div 4 \<le> 75 * second" by (simp_all add: second_def)
  then have "0 \<le> rnd (b div 4)" "rnd (b div 4) < 75 * second" using assms(2) [of "b div 4"] by auto
  moreover have "removalBackoff rnd retries = b + rnd (b div 4)" by (simp only: removalBackoff_def b_def Let_def)
  ultimately show ?thesis using b by linarith
qed

theorem removal_backoff_bounded_witness:
  "10 * second \<le> removalBackoff (\<lambda>n. n - 1) 5 \<and> removalBackoff (\<lambda>n. n - 1) 5 < 375 * second"
  using removal_backoff_bounded [of 5 "\<lambda>n. n - 1"] by simp

end
