(* ===== verification/GoText.thy ===== *)
theory GoText
  imports Prelude
begin

text \<open>
  What the program uses of Go's \<^verbatim>\<open>strings\<close> and \<^verbatim>\<open>strconv\<close> packages, on byte strings in the ASCII
  range: splitting on a byte, \<^verbatim>\<open>Fields\<close>, the prefix and suffix helpers, \<^verbatim>\<open>Contains\<close>, \<^verbatim>\<open>Join\<close>, and
  \<^verbatim>\<open>ParseInt\<close> in base ten at 64 bits; with the lemmas that read rendered text back.
\<close>

section \<open>Splitting\<close>

fun Split :: "char \<Rightarrow> string \<Rightarrow> string list"
  where
    "Split sep [] = [[]]"
  | "Split sep (c # cs) =
      (if c = sep then [] # Split sep cs
       else case Split sep cs of [] \<Rightarrow> [[c]] | w # ws \<Rightarrow> (c # w) # ws)"

definition is_space :: "char \<Rightarrow> bool"
  where "is_space c \<longleftrightarrow> (of_char c :: nat) \<in> {9, 10, 11, 12, 13, 32}"

fun fields_from :: "string \<Rightarrow> string \<Rightarrow> string list"
  where
    "fields_from cur [] = (if cur = [] then [] else [cur])"
  | "fields_from cur (c # cs) =
      (if is_space c then (if cur = [] then fields_from [] cs else cur # fields_from [] cs)
       else fields_from (cur @ [c]) cs)"

definition Fields :: "string \<Rightarrow> string list"
  where "Fields s = fields_from [] s"

lemma Split_nonempty [simp]: "Split sep s \<noteq> []"
  by (induction s) (auto split: list.splits)

lemma Split_word [simp]: "sep \<notin> set w \<Longrightarrow> Split sep w = [w]"
  by (induction w) auto

lemma Split_append [simp]: "sep \<notin> set w \<Longrightarrow> Split sep (w @ sep # s) = w # Split sep s"
  by (induction w) auto

definition is_word :: "string \<Rightarrow> bool"
  where "is_word w \<longleftrightarrow> w \<noteq> [] \<and> list_all (\<lambda>c. \<not> is_space c) w"

lemma fields_from_chars: "list_all (\<lambda>c. \<not> is_space c) w \<Longrightarrow> fields_from cur (w @ s) = fields_from (cur @ w) s"
  by (induction w arbitrary: cur) auto

lemma Fields_word_space:
  "is_word w \<Longrightarrow> is_space c \<Longrightarrow> Fields (w @ c # s) = w # Fields s"
  by (simp add: Fields_def fields_from_chars is_word_def)

lemma Fields_word: "is_word w \<Longrightarrow> Fields w = [w]"
  using fields_from_chars [of w "[]" "[]"] by (simp add: Fields_def is_word_def)

section \<open>Prefixes, suffixes and substrings\<close>

fun HasPrefix :: "string \<Rightarrow> string \<Rightarrow> bool"
  where
    "HasPrefix s [] = True"
  | "HasPrefix [] (p # ps) = False"
  | "HasPrefix (c # s) (p # ps) = (c = p \<and> HasPrefix s ps)"

definition HasSuffix :: "string \<Rightarrow> string \<Rightarrow> bool"
  where "HasSuffix s p = HasPrefix (rev s) (rev p)"

definition TrimPrefix :: "string \<Rightarrow> string \<Rightarrow> string"
  where "TrimPrefix s p = (if HasPrefix s p then drop (length p) s else s)"

definition TrimSuffix :: "string \<Rightarrow> string \<Rightarrow> string"
  where "TrimSuffix s p = (if HasSuffix s p then take (length s - length p) s else s)"

fun Contains :: "string \<Rightarrow> string \<Rightarrow> bool"
  where
    "Contains [] p = (p = [])"
  | "Contains (c # s) p = (HasPrefix (c # s) p \<or> Contains s p)"

fun Join :: "string list \<Rightarrow> string \<Rightarrow> string"
  where
    "Join [] sep = []"
  | "Join [w] sep = w"
  | "Join (w # v # ws) sep = w @ sep @ Join (v # ws) sep"

definition TrimSpace :: "string \<Rightarrow> string"
  where "TrimSpace s = rev (dropWhile is_space (rev (dropWhile is_space s)))"

definition lower_char :: "char \<Rightarrow> char"
  where "lower_char c = (if 65 \<le> (of_char c :: nat) \<and> (of_char c :: nat) \<le> 90 then char_of ((of_char c :: nat) + 32) else c)"

definition ToLower :: "string \<Rightarrow> string"
  where "ToLower s = map lower_char s"

lemma HasPrefix_iff: "HasPrefix s p \<longleftrightarrow> (\<exists>r. s = p @ r)"
  by (induction s p rule: HasPrefix.induct) auto

lemma HasPrefix_append [simp]: "HasPrefix (p @ r) p"
  by (simp add: HasPrefix_iff)

lemma TrimPrefix_append [simp]: "TrimPrefix (p @ r) p = r"
  by (simp add: TrimPrefix_def)

lemma HasSuffix_append [simp]: "HasSuffix (r @ p) p"
  by (simp add: HasSuffix_def)

lemma TrimSuffix_append [simp]: "TrimSuffix (r @ p) p = r"
  by (simp add: TrimSuffix_def)

section \<open>Numbers\<close>

definition is_number :: "string \<Rightarrow> bool"
  where "is_number s \<longleftrightarrow> s \<noteq> [] \<and> list_all is_digit s"

text \<open>\<^verbatim>\<open>strconv.ParseInt(s, 10, 64)\<close>: an optional sign, digits, and the range of \<^verbatim>\<open>int64\<close>.\<close>

definition in_range64 :: "int \<Rightarrow> int option"
  where "in_range64 x = (if - (2 ^ 63) \<le> x \<and> x < 2 ^ 63 then Some x else None)"

fun ParseInt :: "string \<Rightarrow> int option"
  where
    "ParseInt [] = None"
  | "ParseInt (c # cs) =
      (if c = CHR ''-'' then (if is_number cs then in_range64 (- int (read_nat cs)) else None)
       else if c = CHR ''+'' then (if is_number cs then in_range64 (int (read_nat cs)) else None)
       else if is_number (c # cs) then in_range64 (int (read_nat (c # cs))) else None)"

lemma is_number_decimal_nat [simp]: "is_number (decimal_nat n)"
  by (simp add: is_number_def decimal_nat_digits)

lemma digit_not_sign: "is_digit c \<Longrightarrow> c \<noteq> CHR ''-'' \<and> c \<noteq> CHR ''+''"
  by (auto simp: is_digit_def)

lemma digit_not_space: "is_digit c \<Longrightarrow> \<not> is_space c"
  by (auto simp: is_digit_def is_space_def)

lemma ParseInt_decimal_nat: "ParseInt (decimal_nat n) = in_range64 (int n)"
proof (cases "decimal_nat n")
  case (Cons c cs)
  have "is_digit c" using decimal_nat_digits [of n] Cons by simp
  then have c: "c \<noteq> CHR ''-''" "c \<noteq> CHR ''+''" using digit_not_sign by auto
  have "is_number (c # cs)" "read_nat (c # cs) = n" using Cons by (metis is_number_decimal_nat, metis read_decimal_nat)
  then show ?thesis using c by (simp add: Cons)
qed simp

lemma ParseInt_decimal [simp]: "- (2 ^ 63) \<le> i \<Longrightarrow> i < 2 ^ 63 \<Longrightarrow> ParseInt (decimal i) = Some i"
  by (cases "i < 0") (simp_all add: decimal_def ParseInt_decimal_nat in_range64_def)

lemma ParseInt_range: "ParseInt s = Some x \<Longrightarrow> - (2 ^ 63) \<le> x \<and> x < 2 ^ 63"
  by (cases s) (auto simp: in_range64_def split: if_splits)

lemma minus_not_space: "\<not> is_space CHR ''-''"
  by (simp add: is_space_def)

lemma is_word_decimal [simp]: "is_word (decimal i)"
  using decimal_nat_digits digit_not_space minus_not_space by (auto simp: is_word_def decimal_def list_all_iff)

lemma newline_space: "c = CHR 0x0A \<Longrightarrow> is_space c"
  by (simp add: is_space_def)

lemma word_no_newline: "is_word w \<Longrightarrow> CHR 0x0A \<notin> set w"
  using newline_space by (auto simp: is_word_def list_all_iff)

lemma Fields_Join: "list_all is_word ws \<Longrightarrow> Fields (Join ws '' '') = ws"
proof (induction ws "'' ''" rule: Join.induct)
  case (3 w v ws)
  then show ?case using Fields_word_space [of w "CHR '' ''" "Join (v # ws) '' ''"] by (simp add: is_space_def)
qed (simp_all add: Fields_def [of "[]"] Fields_word)

lemma Join_no_newline: "list_all is_word ws \<Longrightarrow> CHR 0x0A \<notin> set (Join ws '' '')"
  by (induction ws "'' ''" rule: Join.induct) (auto dest: word_no_newline)

end
