(* ===== verification/Engine.thy ===== *)
theory Engine
  imports GoText StoreSchema
begin

text \<open>
  The container engine as Runpool sees it (\<^verbatim>\<open>internal/engine/engine.go\<close>) and its Docker adapter
  (\<^verbatim>\<open>internal/engine/docker\<close>): ownership stamps, the proof of ownership before anything is reused or
  removed, volume accounting, the filesystem probe and the pull retry.

  The Moby client is a record of functions, one per daemon call the adapter makes; each call takes
  the daemon's state and returns an answer and the next state.  Error texts are left out: a daemon
  error is its class as \<^verbatim>\<open>containerd/errdefs\<close> reports it.
\<close>

section \<open>Ownership\<close>

definition labelManaged :: string where "labelManaged = ''io.runpool.managed''"
definition labelInstance :: string where "labelInstance = ''io.runpool.instance''"
definition labelKind :: string where "labelKind = ''io.runpool.kind''"
definition labelLease :: string where "labelLease = ''io.runpool.lease''"
definition labelRole :: string where "labelRole = ''io.runpool.role''"
definition labelAttempt :: string where "labelAttempt = ''io.runpool.attempt''"
definition labelTarget :: string where "labelTarget = ''io.runpool.target''"
definition labelTier :: string where "labelTier = ''io.runpool.tier''"

lemmas label_keys = labelManaged_def labelInstance_def labelKind_def labelLease_def labelRole_def labelAttempt_def
  labelTarget_def labelTier_def

definition KindContainer :: string where "KindContainer = ''container''"
definition KindNetwork :: string where "KindNetwork = ''network''"
definition KindVolume :: string where "KindVolume = ''volume''"

definition RoleCapsule :: string where "RoleCapsule = ''capsule''"
definition RoleGateway :: string where "RoleGateway = ''gateway''"
definition RoleCapsuleNetwork :: string where "RoleCapsuleNetwork = ''capsule-net''"
definition RoleDindData :: string where "RoleDindData = ''dind-data''"
definition RoleUplink :: string where "RoleUplink = ''uplink''"
definition RoleCacheLane :: string where "RoleCacheLane = ''cache-lane''"
definition RoleProbe :: string where "RoleProbe = ''probe''"
definition RolePreflightProbe :: string where "RolePreflightProbe = ''preflight-probe''"

type_synonym labels = "(string, string) gomap"

text \<open>Indexing a Go map of strings: an absent key reads as the empty string.\<close>

definition label :: "labels \<Rightarrow> string \<Rightarrow> string"
  where "label m k = (case map_of m k of None \<Rightarrow> [] | Some v \<Rightarrow> v)"

record ownership =
  ow_Instance :: instance_id
  ow_Lease :: lease_id
  ow_Kind :: string
  ow_Role :: string
  ow_Attempt :: attempt_id
  ow_Target :: string
  ow_Tier :: tier_id

definition no_ownership :: ownership
  where "no_ownership = \<lparr>ow_Instance = [], ow_Lease = [], ow_Kind = [], ow_Role = [], ow_Attempt = [],
    ow_Target = [], ow_Tier = []\<rparr>"

definition Labels :: "ownership \<Rightarrow> labels"
  where "Labels o' = [(labelManaged, ''true''), (labelInstance, ow_Instance o')] @
    filter (\<lambda>(_, value). value \<noteq> [])
      [(labelKind, ow_Kind o'), (labelLease, ow_Lease o'), (labelRole, ow_Role o'), (labelAttempt, ow_Attempt o'),
       (labelTarget, ow_Target o'), (labelTier, ow_Tier o')]"

definition OwnershipFrom :: "labels \<Rightarrow> ownership \<times> bool"
  where "OwnershipFrom m =
    (if label m labelManaged \<noteq> ''true'' then (no_ownership, False)
     else (\<lparr>ow_Instance = label m labelInstance, ow_Lease = label m labelLease, ow_Kind = label m labelKind,
            ow_Role = label m labelRole, ow_Attempt = label m labelAttempt, ow_Target = label m labelTarget,
            ow_Tier = label m labelTier\<rparr>, True))"

definition ManagedBy :: "instance_id \<Rightarrow> labels"
  where "ManagedBy instanceID = [(labelManaged, ''true''), (labelInstance, instanceID)]"

record owned_container =
  oc_ID :: string
  oc_Name :: string
  oc_Kind :: string
  oc_Role :: string
  oc_LeaseID :: lease_id
  oc_Running :: bool

record owned_resource =
  or_ID :: string
  or_LeaseID :: lease_id
  or_Role :: string

definition HelperInFlight :: "owned_container \<Rightarrow> bool"
  where "HelperInFlight c \<longleftrightarrow> oc_LeaseID c = [] \<and> oc_Running c"

definition InstanceInfrastructure :: "owned_resource \<Rightarrow> bool"
  where "InstanceInfrastructure r \<longleftrightarrow> or_LeaseID r = []"

definition ShortID :: "string \<Rightarrow> string"
  where "ShortID i = (if length i > 12 then take 12 i else i)"

section \<open>The daemon\<close>

datatype daemon_error =
  DNotFound | DAlreadyExists | DConflict | DUnavailable | DConnectionFailed | DUnauthorized | DPermissionDenied
  | DInvalidArgument | DNotImplemented | DCanceled | DDeadlineExceeded | DOther

datatype engine_error =
  EngineNotFound | EngineAlreadyExists | EngineUnavailable | ErrForeignResource | ErrUnknownKind | ErrProbe
  | Daemon daemon_error

record disk_volume =
  dv_Name :: string
  dv_Labels :: labels
  dv_Size :: "int option"

record daemon_container =
  dc_ID :: string
  dc_Names :: "string list"
  dc_Labels :: labels
  dc_Running :: bool

text \<open>\<^verbatim>\<open>mb_list\<close> answers a list filtered by labels: every pair of the filter occurs among the labels of
  what it returns.\<close>

record 'w moby =
  mb_inspect :: "string \<Rightarrow> string \<Rightarrow> 'w \<Rightarrow> (daemon_error + string \<times> labels) \<times> 'w"
  mb_remove :: "string \<Rightarrow> string \<Rightarrow> 'w \<Rightarrow> daemon_error option \<times> 'w"
  mb_volumeCreate :: "string \<Rightarrow> labels \<Rightarrow> 'w \<Rightarrow> (daemon_error + string) \<times> 'w"
  mb_networkCreate :: "string \<Rightarrow> bool \<Rightarrow> labels \<Rightarrow> labels \<Rightarrow> 'w \<Rightarrow> (daemon_error + string) \<times> 'w"
  mb_diskUsage :: "'w \<Rightarrow> (daemon_error + disk_volume list) \<times> 'w"
  mb_containerList :: "labels \<Rightarrow> 'w \<Rightarrow> (daemon_error + daemon_container list) \<times> 'w"
  mb_resourceList :: "string \<Rightarrow> labels \<Rightarrow> 'w \<Rightarrow> (daemon_error + (string \<times> labels) list) \<times> 'w"

definition ignoreNotFound :: "daemon_error option \<Rightarrow> engine_error option"
  where "ignoreNotFound e = (case e of None \<Rightarrow> None | Some d \<Rightarrow> if d = DNotFound then None else Some (Daemon d))"

definition classify :: "daemon_error \<Rightarrow> engine_error"
  where "classify d =
    (if d = DNotFound then EngineNotFound
     else if d \<in> {DAlreadyExists, DConflict} then EngineAlreadyExists
     else if d \<in> {DUnavailable, DConnectionFailed} then EngineUnavailable
     else Daemon d)"

section \<open>Removal under proven ownership\<close>

text \<open>\<^verbatim>\<open>resolveOwnedID\<close>: the answer \<^verbatim>\<open>("", nil)\<close> is absence.\<close>

definition resolveOwnedID ::
  "'w moby \<Rightarrow> string \<Rightarrow> string \<Rightarrow> instance_id \<Rightarrow> lease_id \<Rightarrow> 'w \<Rightarrow> (engine_error + string) \<times> 'w"
  where "resolveOwnedID cli kind reference instanceID leaseID w =
    (if kind \<notin> {KindContainer, KindNetwork, KindVolume} then (Inl ErrUnknownKind, w)
     else case mb_inspect cli kind reference w of
       (Inl d, w') \<Rightarrow> if d = DNotFound then (Inr [], w') else (Inl (Daemon d), w')
     | (Inr (i, m), w') \<Rightarrow>
         (let (own, managed) = OwnershipFrom m in
          if \<not> managed \<or> ow_Instance own \<noteq> instanceID \<or> ow_Lease own \<noteq> leaseID then (Inl ErrForeignResource, w')
          else (Inr i, w')))"

definition OwnedIDByName ::
  "'w moby \<Rightarrow> string \<Rightarrow> string \<Rightarrow> instance_id \<Rightarrow> lease_id \<Rightarrow> 'w \<Rightarrow> (engine_error + string) \<times> 'w"
  where "OwnedIDByName cli kind name instanceID leaseID = resolveOwnedID cli kind name instanceID leaseID"

definition RemoveContainer :: "'w moby \<Rightarrow> string \<Rightarrow> 'w \<Rightarrow> engine_error option \<times> 'w"
  where "RemoveContainer cli i w = (let (e, w') = mb_remove cli KindContainer i w in (ignoreNotFound e, w'))"

definition RemoveNetwork :: "'w moby \<Rightarrow> string \<Rightarrow> 'w \<Rightarrow> engine_error option \<times> 'w"
  where "RemoveNetwork cli i w = (let (e, w') = mb_remove cli KindNetwork i w in (ignoreNotFound e, w'))"

definition RemoveVolume :: "'w moby \<Rightarrow> string \<Rightarrow> 'w \<Rightarrow> engine_error option \<times> 'w"
  where "RemoveVolume cli name w = (let (e, w') = mb_remove cli KindVolume name w in (ignoreNotFound e, w'))"

definition RemoveOwnedContainer ::
  "'w moby \<Rightarrow> string \<Rightarrow> instance_id \<Rightarrow> lease_id \<Rightarrow> 'w \<Rightarrow> engine_error option \<times> 'w"
  where "RemoveOwnedContainer cli reference instanceID leaseID w =
    (case resolveOwnedID cli KindContainer reference instanceID leaseID w of
       (Inl e, w') \<Rightarrow> (Some e, w')
     | (Inr i, w') \<Rightarrow> if i = [] then (None, w') else RemoveContainer cli i w')"

definition RemoveOwnedNetwork ::
  "'w moby \<Rightarrow> string \<Rightarrow> instance_id \<Rightarrow> lease_id \<Rightarrow> 'w \<Rightarrow> engine_error option \<times> 'w"
  where "RemoveOwnedNetwork cli reference instanceID leaseID w =
    (case resolveOwnedID cli KindNetwork reference instanceID leaseID w of
       (Inl e, w') \<Rightarrow> (Some e, w')
     | (Inr i, w') \<Rightarrow> if i = [] then (None, w') else RemoveNetwork cli i w')"

definition RemoveOwnedVolume ::
  "'w moby \<Rightarrow> string \<Rightarrow> instance_id \<Rightarrow> lease_id \<Rightarrow> 'w \<Rightarrow> engine_error option \<times> 'w"
  where "RemoveOwnedVolume cli reference instanceID leaseID w =
    (case resolveOwnedID cli KindVolume reference instanceID leaseID w of
       (Inl e, w') \<Rightarrow> (Some e, w')
     | (Inr i, w') \<Rightarrow> if i = [] then (None, w') else RemoveVolume cli i w')"

section \<open>Creating and reusing\<close>

definition CreateVolume :: "'w moby \<Rightarrow> string \<Rightarrow> labels \<Rightarrow> 'w \<Rightarrow> (engine_error + string) \<times> 'w"
  where "CreateVolume cli name m w =
    (case mb_inspect cli KindVolume name w of
       (Inr _, w1) \<Rightarrow> (Inl EngineAlreadyExists, w1)
     | (Inl d, w1) \<Rightarrow>
         if d \<noteq> DNotFound then (Inl (classify d), w1)
         else case mb_volumeCreate cli name m w1 of
           (Inl d, w2) \<Rightarrow> (Inl (classify d), w2)
         | (Inr created, w2) \<Rightarrow> (Inr created, w2))"

text \<open>The loop over \<^verbatim>\<open>labels\<close>: the first label the object does not carry refuses it.\<close>

definition carries :: "labels \<Rightarrow> labels \<Rightarrow> bool"
  where "carries got want \<longleftrightarrow> list_all (\<lambda>(k, v). label got k = v) want"

definition EnsureOwnedVolume :: "'w moby \<Rightarrow> string \<Rightarrow> labels \<Rightarrow> 'w \<Rightarrow> engine_error option \<times> 'w"
  where "EnsureOwnedVolume cli name m w =
    (case mb_inspect cli KindVolume name w of
       (Inl d, w1) \<Rightarrow>
         if d = DNotFound
         then (case mb_volumeCreate cli name m w1 of (Inl d, w2) \<Rightarrow> (Some (Daemon d), w2) | (Inr _, w2) \<Rightarrow> (None, w2))
         else (Some (Daemon d), w1)
     | (Inr (_, got), w1) \<Rightarrow> if carries got m then (None, w1) else (Some ErrForeignResource, w1))"

text \<open>Networks: the bridge driver is asked for no host address, on both families, when the network is isolated.\<close>

record network_spec =
  ns_Name :: string
  ns_Internal :: bool
  ns_Isolated :: bool
  ns_Labels :: labels

definition isolatedGatewayOptions :: labels
  where "isolatedGatewayOptions =
    [(''com.docker.network.bridge.gateway_mode_ipv4'', ''isolated''),
     (''com.docker.network.bridge.gateway_mode_ipv6'', ''isolated'')]"

definition CreateNetwork :: "'w moby \<Rightarrow> network_spec \<Rightarrow> 'w \<Rightarrow> (engine_error + string) \<times> 'w"
  where "CreateNetwork cli spec w =
    (case mb_networkCreate cli (ns_Name spec) (ns_Internal spec)
        (if ns_Isolated spec then isolatedGatewayOptions else []) (ns_Labels spec) w of
       (Inl d, w') \<Rightarrow> (Inl (classify d), w')
     | (Inr i, w') \<Rightarrow> (Inr i, w'))"

definition EnsureOwnedNetwork :: "'w moby \<Rightarrow> network_spec \<Rightarrow> 'w \<Rightarrow> (engine_error + string) \<times> 'w"
  where "EnsureOwnedNetwork cli spec w =
    (case mb_inspect cli KindNetwork (ns_Name spec) w of
       (Inl d, w1) \<Rightarrow> if d = DNotFound then CreateNetwork cli spec w1 else (Inl (Daemon d), w1)
     | (Inr (i, got), w1) \<Rightarrow> if carries got (ns_Labels spec) then (Inr i, w1) else (Inl ErrForeignResource, w1))"

section \<open>Listing and measuring\<close>

record volume_usage =
  vu_Name :: string
  vu_Role :: string
  vu_Labels :: labels
  vu_Size :: int

definition usage_of :: "instance_id \<Rightarrow> disk_volume \<Rightarrow> volume_usage list"
  where "usage_of instanceID v =
    (let (own, managed) = OwnershipFrom (dv_Labels v) in
     if \<not> managed \<or> ow_Instance own \<noteq> instanceID then []
     else [\<lparr>vu_Name = dv_Name v, vu_Role = ow_Role own, vu_Labels = dv_Labels v,
            vu_Size = (case dv_Size v of None \<Rightarrow> - 1 | Some n \<Rightarrow> n)\<rparr>])"

definition OwnedVolumeUsage :: "'w moby \<Rightarrow> instance_id \<Rightarrow> 'w \<Rightarrow> (engine_error + volume_usage list) \<times> 'w"
  where "OwnedVolumeUsage cli instanceID w =
    (case mb_diskUsage cli w of
       (Inl d, w') \<Rightarrow> (Inl (Daemon d), w')
     | (Inr vs, w') \<Rightarrow> (Inr (concat (map (usage_of instanceID) vs)), w'))"

definition owned_container_of :: "daemon_container \<Rightarrow> owned_container"
  where "owned_container_of s =
    (let own = fst (OwnershipFrom (dc_Labels s)) in
     \<lparr>oc_ID = dc_ID s, oc_Name = (case dc_Names s of [] \<Rightarrow> [] | n # _ \<Rightarrow> TrimPrefix n ''/''),
      oc_Kind = ow_Kind own, oc_Role = ow_Role own, oc_LeaseID = ow_Lease own, oc_Running = dc_Running s\<rparr>)"

definition ListOwnedContainers :: "'w moby \<Rightarrow> instance_id \<Rightarrow> 'w \<Rightarrow> (engine_error + owned_container list) \<times> 'w"
  where "ListOwnedContainers cli instanceID w =
    (case mb_containerList cli (ManagedBy instanceID) w of
       (Inl d, w') \<Rightarrow> (Inl (Daemon d), w')
     | (Inr cs, w') \<Rightarrow> (Inr (map owned_container_of cs), w'))"

definition owned_resource_of :: "string \<times> labels \<Rightarrow> owned_resource"
  where "owned_resource_of r =
    (let own = fst (OwnershipFrom (snd r)) in \<lparr>or_ID = fst r, or_LeaseID = ow_Lease own, or_Role = ow_Role own\<rparr>)"

definition ListOwnedNetworks :: "'w moby \<Rightarrow> instance_id \<Rightarrow> 'w \<Rightarrow> (engine_error + owned_resource list) \<times> 'w"
  where "ListOwnedNetworks cli instanceID w =
    (case mb_resourceList cli KindNetwork (ManagedBy instanceID) w of
       (Inl d, w') \<Rightarrow> (Inl (Daemon d), w')
     | (Inr ns, w') \<Rightarrow> (Inr (map owned_resource_of ns), w'))"

definition ListOwnedVolumes :: "'w moby \<Rightarrow> instance_id \<Rightarrow> 'w \<Rightarrow> (engine_error + owned_resource list) \<times> 'w"
  where "ListOwnedVolumes cli instanceID w =
    (case mb_resourceList cli KindVolume (ManagedBy instanceID) w of
       (Inl d, w') \<Rightarrow> (Inl (Daemon d), w')
     | (Inr vs, w') \<Rightarrow> (Inr (map owned_resource_of vs), w'))"

section \<open>The filesystem probe\<close>

record filesystem_free =
  ff_FreeBytes :: int
  ff_FreeInodes :: int

text \<open>The locals of the loop in \<^verbatim>\<open>parseDFProbe\<close>.\<close>

record df_scan =
  df_free :: filesystem_free
  df_table :: nat
  df_blocksSeen :: bool

definition df_line :: "string \<Rightarrow> df_scan \<Rightarrow> df_scan option"
  where "df_line line d =
    (let fields = Fields line in
     if length fields < 6 then Some d
     else if fields ! 1 \<in> {''1024-blocks'', ''1K-blocks''} then Some (d\<lparr>df_table := 1\<rparr>)
     else if fields ! 1 = ''Inodes'' then Some (d\<lparr>df_table := 2\<rparr>)
     else if df_table d = 1 then
       (case ParseInt (fields ! 3) of
          None \<Rightarrow> None
        | Some avail \<Rightarrow> Some (d\<lparr>df_free := (df_free d)\<lparr>ff_FreeBytes := i64 (avail * 1024)\<rparr>,
                               df_blocksSeen := True, df_table := 0\<rparr>))
     else if df_table d = 2 then
       (case (ParseInt (fields ! 1), ParseInt (fields ! 3)) of
          (Some total', Some avail) \<Rightarrow>
            Some (d\<lparr>df_free := (if total' > 0 then (df_free d)\<lparr>ff_FreeInodes := avail\<rparr> else df_free d), df_table := 0\<rparr>)
        | _ \<Rightarrow> None)
     else Some d)"

fun df_lines :: "string list \<Rightarrow> df_scan \<Rightarrow> df_scan option"
  where
    "df_lines [] d = Some d"
  | "df_lines (l # ls) d = (case df_line l d of None \<Rightarrow> None | Some d' \<Rightarrow> df_lines ls d')"

definition parseDFProbe :: "string \<Rightarrow> engine_error + filesystem_free"
  where "parseDFProbe out =
    (case df_lines (Split (CHR 0x0A) out)
        \<lparr>df_free = \<lparr>ff_FreeBytes = 0, ff_FreeInodes = - 1\<rparr>, df_table = 0, df_blocksSeen = False\<rparr> of
       None \<Rightarrow> Inl ErrProbe
     | Some d \<Rightarrow> if df_blocksSeen d then Inr (df_free d) else Inl ErrProbe)"

text \<open>\<^verbatim>\<open>RunTask\<close> is the parameter: the exit code and output of a short-lived container, or an error.\<close>

definition ProbeFilesystemFree ::
  "('w \<Rightarrow> (engine_error + int \<times> string) \<times> 'w) \<Rightarrow> 'w \<Rightarrow> (engine_error + filesystem_free) \<times> 'w"
  where "ProbeFilesystemFree runTask w =
    (case runTask w of
       (Inl e, w') \<Rightarrow> (Inl e, w')
     | (Inr (code, out), w') \<Rightarrow> if code \<noteq> 0 then (Inl ErrProbe, w') else (parseDFProbe out, w'))"

text \<open>The swap total of \<^verbatim>\<open>/proc/meminfo\<close>, over its text: the first matching line decides.\<close>

fun swap_lines :: "string list \<Rightarrow> engine_error + int"
  where
    "swap_lines [] = Inl ErrProbe"
  | "swap_lines (l # ls) =
      (let fields = Fields l in
       if length fields \<noteq> 3 \<or> fields ! 0 \<noteq> ''SwapTotal:'' \<or> fields ! 2 \<noteq> ''kB'' then swap_lines ls
       else case ParseInt (fields ! 1) of None \<Rightarrow> Inl ErrProbe | Some kib \<Rightarrow> Inr (i64 (kib * 1024)))"

definition parseSwapTotal :: "string \<Rightarrow> engine_error + int"
  where "parseSwapTotal r = swap_lines (Split (CHR 0x0A) r)"

definition rootlessFromSecurityOptions :: "string list \<Rightarrow> bool"
  where "rootlessFromSecurityOptions options = list_ex (\<lambda>option. Contains option ''rootless'') options"

section \<open>Pulling an image\<close>

definition pullAttempts :: nat
  where "pullAttempts = 3"

definition worthPullingAgain :: "daemon_error \<Rightarrow> bool"
  where "worthPullingAgain e \<longleftrightarrow>
    e \<notin> {DCanceled, DDeadlineExceeded} \<and>
    e \<notin> {DNotFound, DUnauthorized, DPermissionDenied, DInvalidArgument, DNotImplemented}"

text \<open>The loop of \<^verbatim>\<open>pullWithRetry\<close> at a given attempt, with the number of attempts after it: \<^verbatim>\<open>once\<close> pulls,
  \<^verbatim>\<open>cancelled\<close> is \<^verbatim>\<open>ctx.Err\<close>, and \<^verbatim>\<open>pause\<close> waits out the timer or reports the cancellation that ended the
  wait.\<close>

fun pull_loop ::
  "nat \<Rightarrow> ('w \<Rightarrow> daemon_error option \<times> 'w) \<Rightarrow> ('w \<Rightarrow> daemon_error option) \<Rightarrow> ('w \<Rightarrow> daemon_error option \<times> 'w)
    \<Rightarrow> 'w \<Rightarrow> daemon_error option \<times> 'w"
  where "pull_loop left once cancelled pause w =
    (case once w of
       (None, w1) \<Rightarrow> (None, w1)
     | (Some e, w1) \<Rightarrow>
         (case left of
            0 \<Rightarrow> (Some e, w1)
          | Suc n \<Rightarrow>
             if \<not> worthPullingAgain e then (Some e, w1)
             else case cancelled w1 of
               Some c \<Rightarrow> (Some c, w1)
             | None \<Rightarrow> (case pause w1 of
                 (Some c, w2) \<Rightarrow> (Some c, w2)
               | (None, w2) \<Rightarrow> pull_loop n once cancelled pause w2)))"

declare pull_loop.simps [simp del]

definition pullWithRetry ::
  "('w \<Rightarrow> daemon_error option \<times> 'w) \<Rightarrow> ('w \<Rightarrow> daemon_error option) \<Rightarrow> ('w \<Rightarrow> daemon_error option \<times> 'w)
    \<Rightarrow> 'w \<Rightarrow> daemon_error option \<times> 'w"
  where "pullWithRetry = pull_loop (pullAttempts - 1)"

end
