(* ===== verification/EngineProps.thy ===== *)
theory EngineProps
  imports Engine Removal
begin

text \<open>
  What the Docker adapter promises: ownership stamps read back, cleanup of a lease never touches an
  object that does not carry that lease's stamp, the filesystem probe reads a full disk as a full
  disk, and a pull is tried a bounded number of times.
\<close>

section \<open>Stamps\<close>

lemma label_Cons [simp]: "label ((k', v) # m) k = (if k = k' then v else label m k)"
  by (simp add: label_def)

lemma label_Nil [simp]: "label [] k = []"
  by (simp add: label_def)

lemma label_absent: "k \<notin> set (keys m) \<Longrightarrow> label m k = []"
  by (induction m) auto

lemma label_filter: "distinct (keys m) \<Longrightarrow> label (filter (\<lambda>(_, v). v \<noteq> []) m) k = label m k"
proof (induction m)
  case (Cons kv m)
  then show ?case by (cases kv) (auto simp: label_absent)
qed simp

lemma label_keys_distinct: "distinct [labelManaged, labelInstance, labelKind, labelLease, labelRole, labelAttempt, labelTarget, labelTier]"
  by (simp add: label_keys)

lemma labels_read_back: "label (Labels o') k =
   label [(labelManaged, ''true''), (labelInstance, ow_Instance o'), (labelKind, ow_Kind o'), (labelLease, ow_Lease o'),
     (labelRole, ow_Role o'), (labelAttempt, ow_Attempt o'), (labelTarget, ow_Target o'), (labelTier, ow_Tier o')] k"
proof -
  let ?m = "[(labelKind, ow_Kind o'), (labelLease, ow_Lease o'), (labelRole, ow_Role o'), (labelAttempt, ow_Attempt o'),
    (labelTarget, ow_Target o'), (labelTier, ow_Tier o')]"
  have "label (filter (\<lambda>(_, v). v \<noteq> []) ?m) k = label ?m k" by (rule label_filter) (use label_keys_distinct in simp)
  then show ?thesis unfolding Labels_def by simp
qed

lemma OwnershipFrom_Labels: "OwnershipFrom (Labels o') = (o', True)"
  using label_keys_distinct by (simp add: OwnershipFrom_def labels_read_back eq_commute)

lemma distinct_Labels: "distinct (keys (Labels o'))"
proof -
  have "distinct (keys (filter P m))" if "distinct (keys m)" for P and m :: labels
    using that by (induction m) auto
  then show ?thesis using label_keys_distinct unfolding Labels_def by (auto simp: image_iff)
qed

text \<open>Ownership survives being written down: the labels of a stamp are read back as exactly that stamp whatever
  fields it leaves empty, no key is written twice, and labels that lack the managed mark are nobody's.\<close>

theorem ownership_round_trip:
  "OwnershipFrom (Labels o') = (o', True) \<and> distinct (keys (Labels o')) \<and>
   (label m labelManaged \<noteq> ''true'' \<longrightarrow> OwnershipFrom m = (no_ownership, False))"
  using OwnershipFrom_Labels distinct_Labels by (simp add: OwnershipFrom_def)

theorem ownership_round_trip_witness:
  "OwnershipFrom [(labelInstance, ''i''), (labelLease, ''l'')] = (no_ownership, False)"
  using ownership_round_trip [of no_ownership "[(labelInstance, ''i''), (labelLease, ''l'')]"]
  by (simp add: label_def label_keys)

section \<open>Removal spares what is not owned\<close>

text \<open>What the daemon documents of its objects (containers, networks and named volumes, by kind and id): an
  inspection changes nothing and reports the labels of the object it names, and a removal addressed to one id leaves
  every other object as it was.\<close>

definition daemon_ok :: "'w moby \<Rightarrow> ('w \<Rightarrow> string \<times> string \<Rightarrow> labels option) \<Rightarrow> bool"
  where "daemon_ok cli objects \<longleftrightarrow>
    (\<forall>kind ref w. objects (snd (mb_inspect cli kind ref w)) = objects w) \<and>
    (\<forall>kind ref w i m. fst (mb_inspect cli kind ref w) = Inr (i, m) \<longrightarrow> objects w (kind, i) = Some m) \<and>
    (\<forall>kind i w x. x \<noteq> (kind, i) \<longrightarrow> objects (snd (mb_remove cli kind i w)) x = objects w x)"

definition owned_by :: "instance_id \<Rightarrow> lease_id \<Rightarrow> labels \<Rightarrow> bool"
  where "owned_by instanceID leaseID m \<longleftrightarrow>
    (let (own, managed) = OwnershipFrom m in managed \<and> ow_Instance own = instanceID \<and> ow_Lease own = leaseID)"

text \<open>The adapter as the lease manager's \<^verbatim>\<open>Remover\<close>; \<^verbatim>\<open>text\<close> renders an error.\<close>

definition docker_remover :: "(engine_error \<Rightarrow> string) \<Rightarrow> 'w moby \<Rightarrow> instance_id \<Rightarrow> 'w remover"
  where "docker_remover text cli instanceID kind handle leaseID w =
    (let (e, w') = (case kind of
        ResourceContainer \<Rightarrow> RemoveOwnedContainer cli handle instanceID leaseID w
      | ResourceNetwork \<Rightarrow> RemoveOwnedNetwork cli handle instanceID leaseID w
      | ResourceVolume \<Rightarrow> RemoveOwnedVolume cli handle instanceID leaseID w)
     in (map_option text e, w'))"

definition object_kind :: "resource_kind \<Rightarrow> string"
  where "object_kind k = (case k of ResourceContainer \<Rightarrow> KindContainer | ResourceNetwork \<Rightarrow> KindNetwork | ResourceVolume \<Rightarrow> KindVolume)"

lemma object_kind_known: "object_kind k \<in> {KindContainer, KindNetwork, KindVolume}"
  by (cases k) (simp_all add: object_kind_def)

lemma snd_docker_remover:
  "snd (docker_remover text cli instanceID kind handle leaseID w) =
    (case resolveOwnedID cli (object_kind kind) handle instanceID leaseID w of
       (Inl e, w') \<Rightarrow> w'
     | (Inr i, w') \<Rightarrow> if i = [] then w' else snd (mb_remove cli (object_kind kind) i w'))"
  by (cases kind; simp add: docker_remover_def object_kind_def RemoveOwnedContainer_def RemoveOwnedNetwork_def
      RemoveOwnedVolume_def RemoveContainer_def RemoveNetwork_def RemoveVolume_def split: prod.splits sum.splits)

lemma resolveOwnedID_proof:
  assumes "daemon_ok cli objects" "kind \<in> {KindContainer, KindNetwork, KindVolume}"
    "resolveOwnedID cli kind handle instanceID leaseID w = (r, w')"
  shows "objects w' = objects w"
    and "r = Inr i \<Longrightarrow> i \<noteq> [] \<Longrightarrow> \<exists>m. objects w' (kind, i) = Some m \<and> owned_by instanceID leaseID m"
proof -
  obtain ans w1 where ans: "mb_inspect cli kind handle w = (ans, w1)" by fastforce
  have same: "objects w1 = objects w" using assms(1) ans unfolding daemon_ok_def by (metis snd_conv)
  have w1: "w' = w1" using assms(2,3) ans
    by (auto simp: resolveOwnedID_def Let_def split: sum.splits prod.splits if_splits)
  show "objects w' = objects w" using same w1 by simp
  assume r: "r = Inr i" "i \<noteq> []"
  then obtain m where m: "ans = Inr (i, m)" "owned_by instanceID leaseID m" using assms(2,3) ans
    by (auto simp: resolveOwnedID_def owned_by_def Let_def split: sum.splits prod.splits if_splits)
  then have "objects w (kind, i) = Some m" using assms(1) ans unfolding daemon_ok_def by (metis fst_conv)
  then show "\<exists>m. objects w' (kind, i) = Some m \<and> owned_by instanceID leaseID m" using m same w1 by auto
qed

lemma docker_remover_spares:
  assumes ok: "daemon_ok cli objects" and x: "objects w x = Some m" "\<not> owned_by instanceID leaseID m"
  shows "objects (snd (docker_remover text cli instanceID kind handle leaseID w)) x = Some m"
proof -
  obtain r w1 where res: "resolveOwnedID cli (object_kind kind) handle instanceID leaseID w = (r, w1)" by fastforce
  note proof1 = resolveOwnedID_proof [OF ok object_kind_known res]
  show ?thesis
  proof (cases r)
    case (Inr i)
    show ?thesis
    proof (cases "i = []")
      case False
      then have "x \<noteq> (object_kind kind, i)" using proof1 Inr x by fastforce
      then have "objects (snd (mb_remove cli (object_kind kind) i w1)) x = objects w1 x"
        using ok unfolding daemon_ok_def by blast
      then show ?thesis using False Inr res x proof1(1) by (simp add: snd_docker_remover)
    qed (use Inr res x proof1(1) in \<open>simp add: snd_docker_remover\<close>)
  qed (use res x proof1(1) in \<open>simp add: snd_docker_remover\<close>)
qed

text \<open>What every removal call for a lease keeps of the daemon, a removal pass keeps.\<close>

lemma removeIntents_world:
  assumes "\<And>k h w. I w \<Longrightarrow> I (snd (remove k h i w))" "\<forall>x \<in> set xs. in_lease_id x = i" "I w"
    "removeIntents remove rnd xs (s, w) = (r, s', w')"
  shows "I w'"
  using assms(2-4)
proof (induction xs arbitrary: s w)
  case (Cons x xs)
  obtain r1 s1 w1 where step: "removeIntent remove rnd x (s, w) = (r1, s1, w1)" by (metis prod_cases3)
  have "w1 = w \<or> w1 = snd (remove (in_kind x) (Handle x) i w)" using step Cons.prems(1)
    by (auto simp: removeIntent_def andDo_def removeObject_def inTx_def split: prod.splits sum.splits option.splits)
  then have "I w1" using assms(1) Cons.prems(2) by auto
  then show ?case using Cons step by (cases r1) (auto simp: andDo_def)
qed (simp add: pass_def)

lemma RemoveResources_world:
  assumes "\<And>k h w. I w \<Longrightarrow> I (snd (remove k h i w))" "I w" "RemoveResources remove rnd i (s, w) = (r, s', w')"
  shows "I w'"
proof -
  obtain r1 s1 where "Tx (MarkResourceCleanup i) s = (r1, s1)" by fastforce
  then have mark: "inTx (MarkResourceCleanup i) (s, w) = (r1, s1, w)" by (simp add: inTx_def)
  have own: "\<forall>x \<in> set (sort_key (\<lambda>x. removal_order (in_kind x)) (Resources s1 i)). in_lease_id x = i"
    by (auto simp: Resources_def)
  show ?thesis
  proof (cases r1)
    case Inl
    then show ?thesis using assms mark by (simp add: RemoveResources_def andDo_def)
  next
    case Inr
    then have "removeIntents remove rnd (sort_key (\<lambda>x. removal_order (in_kind x)) (Resources s1 i)) (s1, w) = (r, s', w')"
      using assms mark by (simp add: RemoveResources_def andDo_def)
    then show ?thesis
      using removeIntents_world [where I = I and remove = remove and i = i] assms(1,2) own by blast
  qed
qed

text \<open>C24. Cleaning up after a lease never deletes anything that is not that lease's: whatever names and ids its records
  hold, every object of the daemon whose labels do not carry this instance and this lease is there unchanged after the
  removal pass, a foreign object that took a planned name included.\<close>

theorem cleanup_spares_foreign:
  assumes "daemon_ok cli objects" and "objects w x = Some m" and "\<not> owned_by instanceID i m"
    and "RemoveResources (docker_remover text cli instanceID) rnd i (s, w) = (r, s', w')"
  shows "objects w' x = Some m"
  using RemoveResources_world [where I = "\<lambda>w. objects w x = Some m" and remove = "docker_remover text cli instanceID" and i = i]
    docker_remover_spares [OF assms(1) _ assms(3)] assms(2,4) by blast

text \<open>A daemon whose state is the list of its objects, with ids equal to names.\<close>

definition demo_daemon :: "((string \<times> string) \<times> labels) list moby"
  where "demo_daemon =
    \<lparr>mb_inspect = (\<lambda>kind ref w. (case map_of w (kind, ref) of None \<Rightarrow> Inl DNotFound | Some m \<Rightarrow> Inr (ref, m), w)),
     mb_remove = (\<lambda>kind i w. (None, filter (\<lambda>(x, _). x \<noteq> (kind, i)) w)),
     mb_volumeCreate = (\<lambda>name m w. (Inr name, ((KindVolume, name), m) # w)),
     mb_networkCreate = (\<lambda>name _ _ m w. (Inr name, ((KindNetwork, name), m) # w)),
     mb_diskUsage = (\<lambda>w. (Inr [], w)),
     mb_containerList = (\<lambda>_ w. (Inr [], w)),
     mb_resourceList = (\<lambda>_ _ w. (Inr [], w))\<rparr>"

lemma map_of_filter_key: "x \<noteq> y \<Longrightarrow> map_of (filter (\<lambda>(z, _). z \<noteq> y) w) x = map_of w x"
  by (induction w) auto

lemma demo_daemon_ok: "daemon_ok demo_daemon map_of"
  unfolding daemon_ok_def by (auto simp: demo_daemon_def map_of_filter_key split: option.splits)

definition demo_objects :: "((string \<times> string) \<times> labels) list"
  where "demo_objects =
    [((KindContainer, ''box''), Labels (no_ownership\<lparr>ow_Instance := ''i1'', ow_Lease := ''l2''\<rparr>)),
     ((KindNetwork, ''net''), Labels (no_ownership\<lparr>ow_Instance := ''i2'', ow_Lease := ''l2''\<rparr>))]"

theorem cleanup_spares_foreign_witness:
  "let (r, s', w') = RemoveResources (docker_remover (\<lambda>_. ''failed'') demo_daemon ''i1'') (\<lambda>_. 0) ''l2'' (demo_owning, demo_objects)
   in map_of w' (KindNetwork, ''net'') = Some (Labels (no_ownership\<lparr>ow_Instance := ''i2'', ow_Lease := ''l2''\<rparr>)) \<and>
      map_of w' (KindContainer, ''box'') = None"
proof -
  obtain r s' w' where call: "RemoveResources (docker_remover (\<lambda>_. ''failed'') demo_daemon ''i1'') (\<lambda>_. 0) ''l2''
      (demo_owning, demo_objects) = (r, s', w')" by (metis prod_cases3)
  have "map_of demo_objects (KindNetwork, ''net'') = Some (Labels (no_ownership\<lparr>ow_Instance := ''i2'', ow_Lease := ''l2''\<rparr>))"
    "\<not> owned_by ''i1'' ''l2'' (Labels (no_ownership\<lparr>ow_Instance := ''i2'', ow_Lease := ''l2''\<rparr>))" by code_simp+
  then have "map_of w' (KindNetwork, ''net'') = Some (Labels (no_ownership\<lparr>ow_Instance := ''i2'', ow_Lease := ''l2''\<rparr>))"
    using cleanup_spares_foreign [OF demo_daemon_ok _ _ call] by blast
  moreover have "case RemoveResources (docker_remover (\<lambda>_. ''failed'') demo_daemon ''i1'') (\<lambda>_. 0) ''l2'' (demo_owning, demo_objects)
    of (_, _, w) \<Rightarrow> map_of w (KindContainer, ''box'') = None" by code_simp
  ultimately show ?thesis unfolding call by simp
qed

section \<open>The probe reads the disk back\<close>

text \<open>A table of \<^verbatim>\<open>df -P\<close>: its heading and one row.\<close>

definition df_table_text :: "string \<Rightarrow> string \<Rightarrow> int \<Rightarrow> int \<Rightarrow> int \<Rightarrow> string \<Rightarrow> string \<Rightarrow> string"
  where "df_table_text column dev total' used avail capacity mount =
    Join [''Filesystem'', column, ''Used'', ''Available'', ''Capacity'', ''Mounted'', ''on''] '' '' @ [CHR 0x0A] @
    Join [dev, decimal total', decimal used, decimal avail, capacity, mount] '' '' @ [CHR 0x0A]"

lemma Split_line: "list_all is_word ws \<Longrightarrow> Split (CHR 0x0A) (Join ws '' '' @ CHR 0x0A # s) = Join ws '' '' # Split (CHR 0x0A) s"
  by (rule Split_append) (rule Join_no_newline)

lemma decimal_not_heading: "0 \<le> n \<Longrightarrow> decimal n \<noteq> ''1024-blocks'' \<and> decimal n \<noteq> ''1K-blocks'' \<and> decimal n \<noteq> ''Inodes''"
proof -
  assume "0 \<le> n"
  then have "list_all is_digit (decimal n)" by (simp add: decimal_def decimal_nat_digits)
  then show ?thesis by (auto simp: is_digit_def)
qed

lemma heading_words: "is_word ''Filesystem'' \<and> is_word ''Used'' \<and> is_word ''Available'' \<and> is_word ''Capacity'' \<and>
  is_word ''Mounted'' \<and> is_word ''on'' \<and> is_word ''1024-blocks'' \<and> is_word ''Inodes''"
  by (simp add: is_word_def is_space_def)

lemma Split_df_table:
  assumes "is_word column" "is_word dev" "is_word capacity" "is_word mount"
  shows "Split (CHR 0x0A) (df_table_text column dev total' used avail capacity mount @ s) =
    Join [''Filesystem'', column, ''Used'', ''Available'', ''Capacity'', ''Mounted'', ''on''] '' '' #
    Join [dev, decimal total', decimal used, decimal avail, capacity, mount] '' '' # Split (CHR 0x0A) s"
  unfolding df_table_text_def append_assoc append_Cons append_Nil
  using assms heading_words by (subst Split_line, simp, subst Split_line, simp_all)

lemma df_line_heading:
  assumes "column = ''1024-blocks'' \<and> n = 1 \<or> column = ''Inodes'' \<and> n = 2"
  shows "df_line (Join [''Filesystem'', column, ''Used'', ''Available'', ''Capacity'', ''Mounted'', ''on''] '' '') d = Some (d\<lparr>df_table := n\<rparr>)"
proof -
  have "list_all is_word [''Filesystem'', column, ''Used'', ''Available'', ''Capacity'', ''Mounted'', ''on'']"
    using assms heading_words by auto
  from Fields_Join [OF this] show ?thesis using assms by (auto simp: df_line_def simp del: Join.simps)
qed

lemma df_line_row:
  assumes "is_word dev" "is_word capacity" "is_word mount" "0 \<le> total'" "total' < 2 ^ 63" "0 \<le> avail" "avail < 2 ^ 63"
  shows "df_table d = 1 \<Longrightarrow> df_line (Join [dev, decimal total', decimal used, decimal avail, capacity, mount] '' '') d =
      Some (d\<lparr>df_free := (df_free d)\<lparr>ff_FreeBytes := i64 (avail * 1024)\<rparr>, df_blocksSeen := True, df_table := 0\<rparr>)"
    and "df_table d = 2 \<Longrightarrow> df_line (Join [dev, decimal total', decimal used, decimal avail, capacity, mount] '' '') d =
      Some (d\<lparr>df_free := (if total' > 0 then (df_free d)\<lparr>ff_FreeInodes := avail\<rparr> else df_free d), df_table := 0\<rparr>)"
proof -
  have "Fields (Join [dev, decimal total', decimal used, decimal avail, capacity, mount] '' '') =
      [dev, decimal total', decimal used, decimal avail, capacity, mount]"
    using assms by (intro Fields_Join) simp
  then show "df_table d = 1 \<Longrightarrow> df_line (Join [dev, decimal total', decimal used, decimal avail, capacity, mount] '' '') d =
      Some (d\<lparr>df_free := (df_free d)\<lparr>ff_FreeBytes := i64 (avail * 1024)\<rparr>, df_blocksSeen := True, df_table := 0\<rparr>)"
    and "df_table d = 2 \<Longrightarrow> df_line (Join [dev, decimal total', decimal used, decimal avail, capacity, mount] '' '') d =
      Some (d\<lparr>df_free := (if total' > 0 then (df_free d)\<lparr>ff_FreeInodes := avail\<rparr> else df_free d), df_table := 0\<rparr>)"
    using assms decimal_not_heading [OF assms(4)] by (simp_all add: df_line_def del: Join.simps)
qed

text \<open>The filesystem probe reports what the daemon's filesystem reports, a completely full disk included: on the two
  tables \<^verbatim>\<open>df\<close> prints it returns the available blocks in bytes, zero as zero rather than as an error, and the free
  inodes, which it leaves unknown exactly when the filesystem accounts none.\<close>

theorem df_probe_reads_back:
  assumes "is_word dev" "is_word capacity" "is_word mount" "is_word capacity'"
    and "0 \<le> blocks" "blocks < 2 ^ 63" "0 \<le> avail" "avail * 1024 < 2 ^ 63"
    and "0 \<le> inodes" "inodes < 2 ^ 63" "0 \<le> ifree" "ifree < 2 ^ 63"
  shows "parseDFProbe (df_table_text ''1024-blocks'' dev blocks used avail capacity mount @
      df_table_text ''Inodes'' dev inodes iused ifree capacity' mount) =
    Inr \<lparr>ff_FreeBytes = avail * 1024, ff_FreeInodes = (if inodes > 0 then ifree else - 1)\<rparr>"
proof -
  have range: "avail < 2 ^ 63" using assms(7,8) by simp
  have bytes: "i64 (avail * 1024) = avail * 1024" using assms(7,8) by simp
  have last: "Split (CHR 0x0A) (df_table_text ''Inodes'' dev inodes iused ifree capacity' mount) =
    Join [''Filesystem'', ''Inodes'', ''Used'', ''Available'', ''Capacity'', ''Mounted'', ''on''] '' '' #
    Join [dev, decimal inodes, decimal iused, decimal ifree, capacity', mount] '' '' # [[]]"
    using Split_df_table [of "''Inodes''" dev capacity' mount inodes iused ifree "[]"] assms(1-4) heading_words by simp
  have blank: "df_line [] d = Some d" for d by (simp add: df_line_def Fields_def)
  show ?thesis
    unfolding parseDFProbe_def Split_df_table [OF _ assms(1-3), of "''1024-blocks''", simplified heading_words, OF TrueI] last
    using assms range heading_words by (simp add: df_line_heading df_line_row blank bytes del: Join.simps)
qed

theorem df_probe_reads_back_witness:
  "parseDFProbe (df_table_text ''1024-blocks'' ''overlay'' 41151808 41151808 0 ''100%'' ''/'' @
      df_table_text ''Inodes'' ''overlay'' 2621440 1000 2620440 ''1%'' ''/'') =
    Inr \<lparr>ff_FreeBytes = 0, ff_FreeInodes = 2620440\<rparr>"
  by (subst df_probe_reads_back) (simp_all add: is_word_def is_space_def)

section \<open>Pull attempts\<close>

text \<open>The same loop with a counter of the pulls made.\<close>

definition counted :: "('w \<Rightarrow> 'a \<times> 'w) \<Rightarrow> nat \<times> 'w \<Rightarrow> 'a \<times> nat \<times> 'w"
  where "counted once nw = (let (r, w') = once (snd nw) in (r, Suc (fst nw), w'))"

definition uncounted :: "('w \<Rightarrow> 'a \<times> 'w) \<Rightarrow> nat \<times> 'w \<Rightarrow> 'a \<times> nat \<times> 'w"
  where "uncounted pause nw = (let (r, w') = pause (snd nw) in (r, fst nw, w'))"

definition is_cancellation :: "daemon_error \<Rightarrow> bool"
  where "is_cancellation c \<longleftrightarrow> c \<in> {DCanceled, DDeadlineExceeded}"

lemma pull_loop_counts:
  assumes "\<And>w c. cancelled w = Some c \<Longrightarrow> is_cancellation c" "\<And>w c. fst (pause w) = Some c \<Longrightarrow> is_cancellation c"
  shows "\<exists>r w' k. pull_loop left (counted once) (cancelled \<circ> snd) (uncounted pause) (n, w) = (r, n + k, w') \<and>
    pull_loop left once cancelled pause w = (r, w') \<and> 1 \<le> k \<and> k \<le> Suc left \<and>
    (\<forall>e. r = Some e \<longrightarrow> worthPullingAgain e \<longrightarrow> k = Suc left)"
proof (induction left arbitrary: n w)
  case 0
  show ?case by (subst (1 2) pull_loop.simps) (auto simp: counted_def split: prod.splits option.splits)
next
  case (Suc left)
  obtain r1 w1 where once: "once w = (r1, w1)" by fastforce
  have quiet: "\<not> worthPullingAgain c" if "is_cancellation c" for c
    using that by (auto simp: is_cancellation_def worthPullingAgain_def)
  show ?case
  proof (cases "r1 = None \<or> (\<exists>e. r1 = Some e \<and> \<not> worthPullingAgain e) \<or> cancelled w1 \<noteq> None \<or> fst (pause w1) \<noteq> None")
    case True
    then show ?thesis using once assms quiet
      by (subst (1 2) pull_loop.simps) (fastforce simp: counted_def uncounted_def split: prod.splits option.splits)
  next
    case False
    then obtain e w2 where go: "r1 = Some e" "worthPullingAgain e" "cancelled w1 = None" "pause w1 = (None, w2)"
      by (cases "pause w1") auto
    obtain r w' k where rest: "pull_loop left (counted once) (cancelled \<circ> snd) (uncounted pause) (Suc n, w2) = (r, Suc n + k, w')"
      "pull_loop left once cancelled pause w2 = (r, w')" "1 \<le> k" "k \<le> Suc left"
      "\<forall>e. r = Some e \<longrightarrow> worthPullingAgain e \<longrightarrow> k = Suc left" using Suc.IH [of "Suc n" w2] by blast
    have "pull_loop (Suc left) (counted once) (cancelled \<circ> snd) (uncounted pause) (n, w) = (r, n + Suc k, w')"
      "pull_loop (Suc left) once cancelled pause w = (r, w')"
      using once go rest(1,2) by (subst pull_loop.simps; simp add: counted_def uncounted_def)+
    then show ?thesis using rest(3-5) by (intro exI [of _ r] exI [of _ w'] exI [of _ "Suc k"]) (simp del: o_apply)
  qed
qed



end
