(* ===== verification/Netip.thy ===== *)
theory Netip
  imports GoText
begin

unbundle bit_operations_syntax

text \<open>
  What the program uses of Go's \<^verbatim>\<open>net/netip\<close>: addresses at their width, prefixes, containment and
  overlap as the library computes them on words, and the parsers of addresses and prefixes.  A zone is
  kept only as far as a parser looks at it: no address the modelled code compares carries one.
\<close>

section \<open>Addresses and prefixes\<close>

datatype addr = V4 "32 word" | V6 "128 word"

datatype prefix = Prefix (Addr: addr) (Bits: nat)

fun BitLen :: "addr \<Rightarrow> nat"
  where "BitLen (V4 _) = 32" | "BitLen (V6 _) = 128"

fun Is4 :: "addr \<Rightarrow> bool"
  where "Is4 (V4 _) = True" | "Is4 (V6 _) = False"

fun Unmap :: "addr \<Rightarrow> addr"
  where
    "Unmap (V4 a) = V4 a"
  | "Unmap (V6 a) = (if drop_bit 32 a = 0xFFFF then V4 (ucast a) else V6 a)"

fun IsLinkLocalUnicast :: "addr \<Rightarrow> bool"
  where
    "IsLinkLocalUnicast (V4 a) = (drop_bit 16 a = 0xA9FE)"
  | "IsLinkLocalUnicast (V6 a) = (drop_bit 118 a = 0x3FA)"

fun same_top :: "nat \<Rightarrow> addr \<Rightarrow> addr \<Rightarrow> bool"
  where
    "same_top n (V4 a) (V4 b) = (drop_bit (32 - n) (a XOR b) = 0)"
  | "same_top n (V6 a) (V6 b) = (drop_bit (128 - n) (a XOR b) = 0)"
  | "same_top n _ _ = False"

definition prefix_Contains :: "prefix \<Rightarrow> addr \<Rightarrow> bool"
  where "prefix_Contains p ip = same_top (Bits p) ip (Addr p)"

definition Overlaps :: "prefix \<Rightarrow> prefix \<Rightarrow> bool"
  where "Overlaps p q = same_top (min (Bits p) (Bits q)) (Addr p) (Addr q)"

fun mask_addr :: "nat \<Rightarrow> addr \<Rightarrow> addr"
  where
    "mask_addr n (V4 a) = V4 (push_bit (32 - n) (drop_bit (32 - n) a))"
  | "mask_addr n (V6 a) = V6 (push_bit (128 - n) (drop_bit (128 - n) a))"

definition Masked :: "prefix \<Rightarrow> prefix"
  where "Masked p = Prefix (mask_addr (Bits p) (Addr p)) (Bits p)"

section \<open>Parsing\<close>

definition parse_octet :: "string \<Rightarrow> nat option"
  where "parse_octet s =
    (if is_number s \<and> (length s > 1 \<longrightarrow> hd s \<noteq> CHR ''0'') \<and> length s \<le> 3 \<and> read_nat s \<le> 255 then Some (read_nat s) else None)"

definition parseIPv4 :: "string \<Rightarrow> 32 word option"
  where "parseIPv4 s =
    (case map parse_octet (Split (CHR ''.'') s) of
       [Some a, Some b, Some c, Some d] \<Rightarrow> Some (((of_nat a * 256 + of_nat b) * 256 + of_nat c) * 256 + of_nat d)
     | _ \<Rightarrow> None)"

definition hex_value :: "char \<Rightarrow> nat option"
  where "hex_value c =
    (let n = (of_char c :: nat) in
     if 48 \<le> n \<and> n \<le> 57 then Some (n - 48)
     else if 97 \<le> n \<and> n \<le> 102 then Some (n - 87)
     else if 65 \<le> n \<and> n \<le> 70 then Some (n - 55)
     else None)"

definition read_hex :: "string \<Rightarrow> nat"
  where "read_hex s = foldl (\<lambda>n c. n * 16 + (case hex_value c of None \<Rightarrow> 0 | Some d \<Rightarrow> d)) 0 s"

text \<open>The loop of \<^verbatim>\<open>parseIPv6\<close> over 16-bit groups, at most eight of them: the groups so far, where \<^verbatim>\<open>::\<close> stood, and
  the text left.\<close>

fun v6_groups :: "nat \<Rightarrow> string \<Rightarrow> nat list \<Rightarrow> nat option \<Rightarrow> (nat list \<times> nat option \<times> string) option"
  where
    "v6_groups 0 s gs ellipsis = Some (gs, ellipsis, s)"
  | "v6_groups (Suc n) s gs ellipsis =
      (let ds = takeWhile (\<lambda>c. hex_value c \<noteq> None) s; r = drop (length ds) s; gs' = gs @ [read_hex ds] in
       if ds = [] \<or> length ds > 4 then None
       else case r of
         [] \<Rightarrow> Some (gs', ellipsis, [])
       | c # s' \<Rightarrow>
          if c = CHR ''.'' then
            (if ellipsis = None \<and> length gs \<noteq> 6 \<or> length gs + 2 > 8 then None
             else case parseIPv4 s of
               None \<Rightarrow> None
             | Some a \<Rightarrow> Some (gs @ [unat (drop_bit 16 a), unat (a AND 0xFFFF)], ellipsis, []))
          else if c \<noteq> CHR '':'' then None
          else case s' of
            [] \<Rightarrow> None
          | c' # s'' \<Rightarrow>
             if c' = CHR '':'' then
               (if ellipsis \<noteq> None then None
                else if s'' = [] then Some (gs', Some (length gs'), [])
                else v6_groups n s'' gs' (Some (length gs')))
             else v6_groups n s' gs' ellipsis)"

definition v6_address :: "nat list \<Rightarrow> 128 word"
  where "v6_address gs = foldl (\<lambda>n g. n * 65536 + of_nat g) 0 gs"

definition v6_finish :: "nat list \<Rightarrow> nat option \<Rightarrow> 128 word option"
  where "v6_finish gs ellipsis =
    (case ellipsis of
       None \<Rightarrow> if length gs < 8 then None else Some (v6_address gs)
     | Some k \<Rightarrow> if length gs < 8 then Some (v6_address (take k gs @ replicate (8 - length gs) 0 @ drop k gs)) else None)"

definition parseIPv6 :: "string \<Rightarrow> 128 word option"
  where "parseIPv6 s =
    (let (s', ellipsis) = (if HasPrefix s ''::'' then (drop 2 s, Some 0) else (s, None)) in
     if s' = [] \<and> ellipsis \<noteq> None then Some 0
     else case v6_groups 8 s' [] ellipsis of
       Some (gs, ellipsis, []) \<Rightarrow> v6_finish gs ellipsis
     | _ \<Rightarrow> None)"

text \<open>\<^verbatim>\<open>ParseAddr\<close>: the address and its zone, empty for none.\<close>

definition ParseAddr :: "string \<Rightarrow> (addr \<times> string) option"
  where "ParseAddr s =
    (case find (\<lambda>c. c \<in> {CHR ''.'', CHR '':'', CHR ''%''}) s of
       None \<Rightarrow> None
     | Some c \<Rightarrow>
        if c = CHR ''.'' then map_option (\<lambda>a. (V4 a, [])) (parseIPv4 s)
        else if c = CHR '':'' then
          (let address = takeWhile (\<lambda>c. c \<noteq> CHR ''%'') s; zone = drop (length address + 1) s in
           if CHR ''%'' \<in> set s \<and> zone = [] then None
           else map_option (\<lambda>a. (V6 a, zone)) (parseIPv6 address))
        else None)"

text \<open>The text before the last slash and the text after it.\<close>

definition cut_last_slash :: "string \<Rightarrow> (string \<times> string) option"
  where "cut_last_slash s =
    (if CHR ''/'' \<notin> set s then None
     else (let after = rev (takeWhile (\<lambda>c. c \<noteq> CHR ''/'') (rev s)) in
           Some (take (length s - length after - 1) s, after)))"

definition ParsePrefix :: "string \<Rightarrow> prefix option"
  where "ParsePrefix s =
    (case cut_last_slash s of
       None \<Rightarrow> None
     | Some (a, b) \<Rightarrow>
        (case ParseAddr a of
           None \<Rightarrow> None
         | Some (ip, zone) \<Rightarrow>
            if zone \<noteq> [] then None
            else if \<not> is_number b \<or> length b > 1 \<and> hd b = CHR ''0'' then None
            else if read_nat b > BitLen ip then None
            else Some (Prefix ip (read_nat b))))"

section \<open>Prefixes as ranges\<close>

definition prefix_ok :: "prefix \<Rightarrow> bool"
  where "prefix_ok p \<longleftrightarrow> Bits p \<le> BitLen (Addr p)"

lemma ParsePrefix_ok: "ParsePrefix s = Some p \<Longrightarrow> prefix_ok p"
  by (auto simp: ParsePrefix_def prefix_ok_def split: option.splits if_splits)

lemma xor_zero_iff: "a XOR b = 0 \<longleftrightarrow> a = b" for a b :: "'a::len word"
  by (auto simp: bit_eq_iff bit_simps)

lemma uint_drop_bit: "uint (drop_bit k a) = uint a div 2 ^ k" for a :: "'a::len word"
  unfolding unsigned_drop_bit_eq by (simp add: drop_bit_eq_div take_bit_int_eq_self [OF unsigned_greater_eq unsigned_less])

lemma drop_bit_eq_uint: "drop_bit k a = drop_bit k b \<longleftrightarrow> uint a div 2 ^ k = uint b div 2 ^ k" for a b :: "'a::len word"
  by (simp add: word_uint_eq_iff uint_drop_bit)

lemma same_top_V4 [simp]: "same_top n (V4 a) (V4 b) \<longleftrightarrow> uint a div 2 ^ (32 - n) = uint b div 2 ^ (32 - n)"
  by (simp add: xor_zero_iff drop_bit_eq_uint)

declare same_top.simps(1) [simp del]

lemma div_coarser: "j \<le> k \<Longrightarrow> (a :: int) div 2 ^ j = b div 2 ^ j \<Longrightarrow> a div 2 ^ k = b div 2 ^ k"
  by (metis div_exp_eq le_add_diff_inverse)

definition v4_range :: "prefix \<Rightarrow> 32 word set"
  where "v4_range p = {x. prefix_Contains p (V4 x)}"

lemma v4_range_V4: "x \<in> v4_range (Prefix (V4 a) n) \<longleftrightarrow> uint x div 2 ^ (32 - n) = uint a div 2 ^ (32 - n)"
  by (simp add: v4_range_def prefix_Contains_def)

lemma v4_range_V6 [simp]: "v4_range (Prefix (V6 a) n) = {}"
  by (simp add: v4_range_def prefix_Contains_def)

end
