(* ===== verification/Egress.thy ===== *)
theory Egress
  imports Netip
begin

text \<open>
  The capsule egress policy of \<^verbatim>\<open>internal/egress/egress.go\<close>: validation, the compiled decision for
  one address, the deny set the controller builds, and the ruleset the gateway installs.
\<close>

section \<open>Policies\<close>

definition ProxyPort :: int
  where "ProxyPort = 3128"

record policy =
  po_InternalSubnet :: string
  po_UplinkSubnet :: string
  po_Allow :: "string list"
  po_Deny :: "string list"

definition must_v4 :: "nat \<Rightarrow> nat \<Rightarrow> nat \<Rightarrow> nat \<Rightarrow> nat \<Rightarrow> prefix"
  where "must_v4 a b c d n = Prefix (V4 (((of_nat a * 256 + of_nat b) * 256 + of_nat c) * 256 + of_nat d)) n"

definition unreachable :: "prefix list"
  where "unreachable = [must_v4 0 0 0 0 32, must_v4 127 0 0 0 8, must_v4 224 0 0 0 4, must_v4 255 255 255 255 32]"

definition linkLocal :: prefix
  where "linkLocal = must_v4 169 254 0 0 16"

definition reachable_addr :: "addr \<Rightarrow> bool"
  where "reachable_addr a =
    (let a = Unmap a in Is4 a \<and> \<not> list_ex (\<lambda>r. prefix_Contains r a) unreachable)"

definition RefusedOutright :: "prefix \<Rightarrow> bool"
  where "RefusedOutright p =
    (if \<not> Is4 (Unmap (Addr p)) then False
     else (let base = Unmap (Addr (Masked p)) in
           list_ex (\<lambda>r. Bits r \<le> Bits p \<and> prefix_Contains r base) unreachable))"

definition ReopensLinkLocal :: "prefix \<Rightarrow> bool"
  where "ReopensLinkLocal p \<longleftrightarrow> Overlaps p linkLocal \<and> Bits p \<noteq> BitLen (Addr p)"

definition baselineDeny :: "string list"
  where "baselineDeny =
    [''0.0.0.0/8'', ''10.0.0.0/8'', ''100.64.0.0/10'', ''127.0.0.0/8'', ''169.254.0.0/16'', ''172.16.0.0/12'',
     ''192.0.0.0/24'', ''192.168.0.0/16'', ''198.18.0.0/15'', ''224.0.0.0/4'', ''240.0.0.0/4'', ''255.255.255.255/32'']"

definition WidensBaselineDeny :: "prefix \<Rightarrow> bool"
  where "WidensBaselineDeny p =
    list_ex (\<lambda>raw. case ParsePrefix raw of
        None \<Rightarrow> False
      | Some denied \<Rightarrow> Bits p < Bits denied \<and> prefix_Contains p (Addr denied)) baselineDeny"

datatype policy_error =
  ErrInternalSubnet | ErrUplinkSubnet | ErrDenyEmpty | ErrCIDR string | ErrDenyNotIPv4 prefix | ErrAllowNotIPv4 prefix
  | ErrAllowWidens prefix | ErrAllowRefused prefix | ErrAllowLinkLocal prefix

fun check_deny :: "string list \<Rightarrow> policy_error option"
  where
    "check_deny [] = None"
  | "check_deny (c # cs) =
      (case ParsePrefix c of
         None \<Rightarrow> Some (ErrCIDR c)
       | Some p \<Rightarrow> if \<not> Is4 (Addr p) then Some (ErrDenyNotIPv4 p) else check_deny cs)"

fun check_allow :: "string list \<Rightarrow> policy_error option"
  where
    "check_allow [] = None"
  | "check_allow (c # cs) =
      (case ParsePrefix c of
         None \<Rightarrow> Some (ErrCIDR c)
       | Some p \<Rightarrow>
          if \<not> Is4 (Addr p) then Some (ErrAllowNotIPv4 p)
          else if WidensBaselineDeny p then Some (ErrAllowWidens p)
          else if RefusedOutright p then Some (ErrAllowRefused p)
          else if ReopensLinkLocal p then Some (ErrAllowLinkLocal p)
          else check_allow cs)"

definition ValidatePolicy :: "policy \<Rightarrow> policy_error option"
  where "ValidatePolicy p =
    (if ParsePrefix (po_InternalSubnet p) = None then Some ErrInternalSubnet
     else if ParsePrefix (po_UplinkSubnet p) = None then Some ErrUplinkSubnet
     else if po_Deny p = [] then Some ErrDenyEmpty
     else case check_deny (po_Deny p) of
       Some e \<Rightarrow> Some e
     | None \<Rightarrow> check_allow (po_Allow p))"

section \<open>The compiled policy\<close>

record decider =
  de_allow :: "prefix list"
  de_deny :: "prefix list"

fun compile_prefixes :: "string list \<Rightarrow> policy_error + prefix list"
  where
    "compile_prefixes [] = Inr []"
  | "compile_prefixes (c # cs) =
      (case ParsePrefix c of
         None \<Rightarrow> Inl (ErrCIDR c)
       | Some p \<Rightarrow> (case compile_prefixes cs of Inl e \<Rightarrow> Inl e | Inr ps \<Rightarrow> Inr (p # ps)))"

definition Compile :: "policy \<Rightarrow> policy_error + decider"
  where "Compile p =
    (case ValidatePolicy p of
       Some e \<Rightarrow> Inl e
     | None \<Rightarrow>
        (case compile_prefixes (po_Allow p) of
           Inl e \<Rightarrow> Inl e
         | Inr as \<Rightarrow>
            (case compile_prefixes (po_Deny p) of
               Inl e \<Rightarrow> Inl e
             | Inr ds \<Rightarrow> Inr \<lparr>de_allow = as, de_deny = ds\<rparr>)))"

definition Allowed :: "decider \<Rightarrow> addr \<Rightarrow> bool"
  where "Allowed d a =
    (if \<not> reachable_addr a then False
     else (let a = Unmap a in
       if list_ex (\<lambda>p. prefix_Contains p a) (de_allow d) then True
       else if IsLinkLocalUnicast a then False
       else \<not> list_ex (\<lambda>p. prefix_Contains p a) (de_deny d)))"

section \<open>The deny set\<close>

definition add_deny :: "string \<Rightarrow> string list \<Rightarrow> string list"
  where "add_deny c out =
    (if c = [] \<or> c \<in> set out then out
     else case ParsePrefix c of
       None \<Rightarrow> out
     | Some p \<Rightarrow> if \<not> Is4 (Addr p) then out else out @ [c])"

definition BuildDeny :: "string \<Rightarrow> string list \<Rightarrow> string list \<Rightarrow> string list"
  where "BuildDeny uplinkSubnet hostCIDRs dockerSubnets =
    fold add_deny dockerSubnets (fold add_deny hostCIDRs (add_deny uplinkSubnet (fold add_deny baselineDeny [])))"

section \<open>The ruleset\<close>

definition line :: "string \<Rightarrow> string"
  where "line s = s @ [CHR 0x0A]"

definition allow_line :: "string \<Rightarrow> string"
  where "allow_line c = line (''-A OUTPUT -d '' @ c @ '' -j ACCEPT'')"

definition deny_line :: "string \<Rightarrow> string"
  where "deny_line c = line (''-A OUTPUT -d '' @ c @ '' -j REJECT --reject-with icmp-admin-prohibited'')"

definition RenderIPTables :: "policy \<Rightarrow> string \<Rightarrow> int \<Rightarrow> string"
  where "RenderIPTables p internalIf proxyPort =
    line ''*filter'' @
    line '':INPUT DROP [0:0]'' @
    line '':FORWARD DROP [0:0]'' @
    line '':OUTPUT DROP [0:0]'' @
    line ''-A INPUT -i lo -j ACCEPT'' @
    line ''-A INPUT -m conntrack --ctstate ESTABLISHED,RELATED -j ACCEPT'' @
    line (''-A INPUT -i '' @ internalIf @ '' -s '' @ po_InternalSubnet p @ '' -p udp --dport 53 -j ACCEPT'') @
    line (''-A INPUT -i '' @ internalIf @ '' -s '' @ po_InternalSubnet p @ '' -p tcp --dport 53 -j ACCEPT'') @
    line (''-A INPUT -i '' @ internalIf @ '' -s '' @ po_InternalSubnet p @ '' -p tcp --dport '' @ decimal proxyPort @ '' -j ACCEPT'') @
    line ''-A OUTPUT -o lo -j ACCEPT'' @
    line ''-A OUTPUT -m conntrack --ctstate ESTABLISHED,RELATED -j ACCEPT'' @
    concat (map allow_line (po_Allow p)) @
    concat (map deny_line (po_Deny p)) @
    line ''-A OUTPUT -j ACCEPT'' @
    line ''COMMIT''"

definition RenderIP6Tables :: string
  where "RenderIP6Tables = Join
    [''*filter'', '':INPUT DROP [0:0]'', '':FORWARD DROP [0:0]'', '':OUTPUT DROP [0:0]'', ''-A INPUT -i lo -j ACCEPT'',
     ''-A OUTPUT -o lo -j ACCEPT'', ''COMMIT'', ''''] [CHR 0x0A]"

end
