(* ===== verification/EgressProps.thy ===== *)
theory EgressProps
  imports Egress
begin

text \<open>
  What the egress policy guarantees: which allowances validation lets through, that the relay's
  decision and the kernel ruleset agree, and that the deny set the controller builds is always one
  the gateway accepts.
\<close>

section \<open>Reading a validated policy\<close>

definition baseline :: "prefix list"
  where "baseline = [must_v4 0 0 0 0 8, must_v4 10 0 0 0 8, must_v4 100 64 0 0 10, must_v4 127 0 0 0 8,
    must_v4 169 254 0 0 16, must_v4 172 16 0 0 12, must_v4 192 0 0 0 24, must_v4 192 168 0 0 16, must_v4 198 18 0 0 15,
    must_v4 224 0 0 0 4, must_v4 240 0 0 0 4, must_v4 255 255 255 255 32]"

lemma baseline_parses: "map ParsePrefix baselineDeny = map Some baseline"
  by code_simp

lemma check_deny_None:
  "check_deny cs = None \<longleftrightarrow> (\<forall>c \<in> set cs. \<exists>p. ParsePrefix c = Some p \<and> Is4 (Addr p))"
  by (induction cs) (auto split: option.splits)

lemma check_allow_None:
  "check_allow cs = None \<longleftrightarrow> (\<forall>c \<in> set cs. \<exists>p. ParsePrefix c = Some p \<and> Is4 (Addr p) \<and> \<not> WidensBaselineDeny p \<and>
     \<not> RefusedOutright p \<and> \<not> ReopensLinkLocal p)"
  by (induction cs) (auto split: option.splits)

lemma compile_prefixes_Inr: "compile_prefixes cs = Inr ps \<longleftrightarrow> map ParsePrefix cs = map Some ps"
  by (induction cs arbitrary: ps) (auto split: option.splits sum.splits, blast)

lemma Compile_Inr:
  "Compile p = Inr d \<longleftrightarrow> ValidatePolicy p = None \<and> map ParsePrefix (po_Allow p) = map Some (de_allow d) \<and>
    map ParsePrefix (po_Deny p) = map Some (de_deny d)"
  by (cases d) (auto simp: Compile_def compile_prefixes_Inr [symmetric] split: option.splits sum.splits)

lemma ValidatePolicy_None:
  "ValidatePolicy p = None \<longleftrightarrow> ParsePrefix (po_InternalSubnet p) \<noteq> None \<and> ParsePrefix (po_UplinkSubnet p) \<noteq> None \<and>
    po_Deny p \<noteq> [] \<and> check_deny (po_Deny p) = None \<and> check_allow (po_Allow p) = None"
  by (auto simp: ValidatePolicy_def split: option.splits)

lemma map_Some_mem: "map f xs = map Some ys \<Longrightarrow> y \<in> set ys \<Longrightarrow> \<exists>x \<in> set xs. f x = Some y"
  by (induction xs arbitrary: ys) (auto simp: Cons_eq_map_conv)

lemma map_Some_mem2: "map f xs = map Some ys \<Longrightarrow> x \<in> set xs \<Longrightarrow> \<exists>y \<in> set ys. f x = Some y"
  by (induction xs arbitrary: ys) (auto simp: Cons_eq_map_conv)

text \<open>A policy always compiles once it validates.\<close>

lemma ValidatePolicy_Compile: "ValidatePolicy p = None \<Longrightarrow> \<exists>d. Compile p = Inr d"
proof -
  assume v: "ValidatePolicy p = None"
  have "\<exists>ps. map ParsePrefix cs = map Some ps" if "\<forall>c \<in> set cs. ParsePrefix c \<noteq> None" for cs
    using that
  proof (induction cs)
    case (Cons c cs)
    then obtain ps q where "map ParsePrefix cs = map Some ps" "ParsePrefix c = Some q" by auto
    then show ?case by (intro exI [of _ "q # ps"]) simp
  qed simp
  moreover have "\<forall>c \<in> set (po_Allow p). ParsePrefix c \<noteq> None" "\<forall>c \<in> set (po_Deny p). ParsePrefix c \<noteq> None"
    using v by (fastforce simp: ValidatePolicy_None check_deny_None check_allow_None)+
  ultimately obtain as ds where "map ParsePrefix (po_Allow p) = map Some as" "map ParsePrefix (po_Deny p) = map Some ds"
    by metis
  then show ?thesis using v by (intro exI [of _ "\<lparr>de_allow = as, de_deny = ds\<rparr>"]) (simp add: Compile_Inr)
qed

section \<open>Link-local\<close>

lemma linkLocal_iff: "IsLinkLocalUnicast (V4 x) \<longleftrightarrow> uint x div 2 ^ 16 = 43518"
  by (simp add: word_uint_eq_iff uint_drop_bit del: drop_bit_eq_div)

lemma linkLocal_contains: "prefix_Contains linkLocal (V4 x) \<longleftrightarrow> uint x div 2 ^ 16 = 43518"
  by (simp add: prefix_Contains_def linkLocal_def must_v4_def)

text \<open>A job reaches a link-local address, where an instance keeps its own credentials, only if the operator named
  that very address: under a policy that compiles, an allowed link-local address is written out as a single-address
  prefix in the allow list.\<close>

theorem link_local_only_by_name:
  assumes "Compile p = Inr d" and "Allowed d (V4 x)" and "IsLinkLocalUnicast (V4 x)"
  shows "\<exists>c \<in> set (po_Allow p). ParsePrefix c = Some (Prefix (V4 x) 32)"
proof -
  obtain q where q: "q \<in> set (de_allow d)" "prefix_Contains q (V4 x)"
    using assms(2,3) by (auto simp: Allowed_def list_ex_iff split: if_splits)
  obtain c where c: "c \<in> set (po_Allow p)" "ParsePrefix c = Some q"
    using map_Some_mem [of ParsePrefix "po_Allow p" "de_allow d"] q(1) assms(1) by (auto simp: Compile_Inr)
  have v: "Is4 (Addr q)" "\<not> ReopensLinkLocal q"
    using assms(1) c by (fastforce simp: Compile_Inr ValidatePolicy_None check_allow_None)+
  obtain a n where qa: "q = Prefix (V4 a) n" using v(1) by (cases q; cases "Addr q") auto
  have x: "uint x div 2 ^ (32 - n) = uint a div 2 ^ (32 - n)" using q(2) by (simp add: qa prefix_Contains_def)
  have "uint x div 2 ^ (32 - min n 16) = uint a div 2 ^ (32 - min n 16)" by (rule div_coarser [OF _ x]) simp
  moreover have "uint x div 2 ^ 16 = uint (0xA9FE0000 :: 32 word) div 2 ^ 16" using assms(3) linkLocal_iff by simp
  then have "uint x div 2 ^ (32 - min n 16) = uint (0xA9FE0000 :: 32 word) div 2 ^ (32 - min n 16)"
    by (rule div_coarser [rotated]) simp
  ultimately have "Overlaps q linkLocal" by (simp add: Overlaps_def qa linkLocal_def must_v4_def)
  then have n: "n = 32" using v(2) by (simp add: ReopensLinkLocal_def qa)
  then have "a = x" using x by (simp add: word_uint_eq_iff)
  then show ?thesis using c qa n by auto
qed

lemma WidensBaselineDeny_baseline:
  "WidensBaselineDeny p \<longleftrightarrow> (\<exists>r \<in> set baseline. Bits p < Bits r \<and> prefix_Contains p (Addr r))"
proof -
  have "WidensBaselineDeny p \<longleftrightarrow> (\<exists>o' \<in> set (map ParsePrefix baselineDeny). \<exists>r. o' = Some r \<and> Bits p < Bits r \<and> prefix_Contains p (Addr r))"
    by (auto simp: WidensBaselineDeny_def list_ex_iff split: option.splits)
  then show ?thesis unfolding baseline_parses by auto
qed

definition demo_policy :: policy
  where "demo_policy = \<lparr>po_InternalSubnet = ''172.20.0.0/16'', po_UplinkSubnet = ''172.21.0.0/16'',
    po_Allow = [''169.254.169.254/32''], po_Deny = [''169.254.0.0/16'', ''10.0.0.0/8'']\<rparr>"

definition demo_decider :: decider
  where "demo_decider = \<lparr>de_allow = [must_v4 169 254 169 254 32], de_deny = [linkLocal, must_v4 10 0 0 0 8]\<rparr>"

lemma demo_parses:
  "ParsePrefix ''172.20.0.0/16'' = Some (must_v4 172 20 0 0 16)" "ParsePrefix ''172.21.0.0/16'' = Some (must_v4 172 21 0 0 16)"
  "ParsePrefix ''169.254.169.254/32'' = Some (must_v4 169 254 169 254 32)"
  "ParsePrefix ''169.254.0.0/16'' = Some linkLocal" "ParsePrefix ''10.0.0.0/8'' = Some (must_v4 10 0 0 0 8)"
  by code_simp+

lemma demo_allow: "\<not> WidensBaselineDeny (must_v4 169 254 169 254 32)" "\<not> RefusedOutright (must_v4 169 254 169 254 32)"
  "\<not> ReopensLinkLocal (must_v4 169 254 169 254 32)"
  by (simp add: WidensBaselineDeny_baseline baseline_def must_v4_def prefix_Contains_def) code_simp+

lemma demo_compiles: "Compile demo_policy = Inr demo_decider"
  unfolding Compile_Inr ValidatePolicy_None by (simp add: demo_policy_def demo_decider_def demo_parses demo_allow)
    (simp add: must_v4_def linkLocal_def)

theorem link_local_only_by_name_witness:
  "\<exists>c \<in> set (po_Allow demo_policy). ParsePrefix c = Some (Prefix (V4 0xA9FEA9FE) 32)"
proof -
  have "Allowed demo_decider (V4 0xA9FEA9FE)" "IsLinkLocalUnicast (V4 0xA9FEA9FE)" by code_simp+
  then show ?thesis by (rule link_local_only_by_name [OF demo_compiles])
qed

section \<open>The kernel and the relay agree\<close>

text \<open>How the kernel reads the \<^verbatim>\<open>OUTPUT\<close> chain for a new connection to \<^verbatim>\<open>x\<close> that does not leave by loopback: the first
  rule that matches decides, and a chain with no match falls to its policy, \<^verbatim>\<open>DROP\<close>.\<close>

definition rule_of :: "string list \<Rightarrow> 32 word \<Rightarrow> bool option"
  where "rule_of fs x =
    (if take 2 fs = [''-A'', ''OUTPUT''] then
       (case drop 2 fs of
          [j, v] \<Rightarrow> if j = ''-j'' then Some (v = ''ACCEPT'') else None
        | d # c # j # v # _ \<Rightarrow>
            if d = ''-d'' \<and> j = ''-j'' then
              (case ParsePrefix c of
                 Some q \<Rightarrow> if prefix_Contains q (V4 x) then Some (v = ''ACCEPT'') else None
               | None \<Rightarrow> None)
            else None
        | _ \<Rightarrow> None)
     else None)"

fun chain :: "string list \<Rightarrow> 32 word \<Rightarrow> bool"
  where
    "chain [] x = False"
  | "chain (l # ls) x = (case rule_of (Fields l) x of Some b \<Rightarrow> b | None \<Rightarrow> chain ls x)"

definition kernel_output :: "string \<Rightarrow> 32 word \<Rightarrow> bool"
  where "kernel_output text x = chain (Split (CHR 0x0A) text) x"

lemma kernel_line:
  "list_all is_word ws \<Longrightarrow> l = line (Join ws '' '') \<Longrightarrow> kernel_output (l @ s) x =
    (case rule_of ws x of Some b \<Rightarrow> b | None \<Rightarrow> kernel_output s x)"
  by (simp add: kernel_output_def line_def Join_no_newline Fields_Join split: option.split)

lemma Split_chars: "set s \<subseteq> insert sep (\<Union> (set ` set (Split sep s)))"
  by (induction s) (auto split: list.splits, blast)

lemma parseIPv4_chars: "parseIPv4 s = Some a \<Longrightarrow> c \<in> set s \<Longrightarrow> is_digit c \<or> c = CHR ''.''"
proof -
  assume p: "parseIPv4 s = Some a" and c: "c \<in> set s"
  have "None \<notin> set (map parse_octet (Split (CHR ''.'') s))"
    using p by (auto simp: parseIPv4_def split: list.splits option.splits)
  then have "list_all is_digit w" if "w \<in> set (Split (CHR ''.'') s)" for w
    using that by (auto simp: parse_octet_def is_number_def image_iff split: if_splits)
  then show ?thesis using Split_chars [of s "CHR ''.''"] c by (auto simp: list_all_iff)
qed

lemma cut_last_slash_Some: "cut_last_slash s = Some (a, b) \<Longrightarrow> s = a @ CHR ''/'' # b"
proof -
  assume cut: "cut_last_slash s = Some (a, b)"
  define t where "t = takeWhile (\<lambda>c. c \<noteq> CHR ''/'') (rev s)"
  obtain r where r: "dropWhile (\<lambda>c. c \<noteq> CHR ''/'') (rev s) = CHR ''/'' # r"
  proof (cases "dropWhile (\<lambda>c. c \<noteq> CHR ''/'') (rev s)")
    case Nil
    then show thesis using cut by (auto simp: cut_last_slash_def dropWhile_eq_Nil_conv split: if_splits)
  next
    case (Cons c r)
    then have "c = CHR ''/''" using hd_dropWhile [of "\<lambda>c. c \<noteq> CHR ''/''" "rev s"] by auto
    then show thesis using Cons that by blast
  qed
  have "rev s = t @ CHR ''/'' # r"
    using takeWhile_dropWhile_id [of "\<lambda>c. c \<noteq> CHR ''/''" "rev s"] r by (simp add: t_def)
  then have "rev (rev s) = rev (t @ CHR ''/'' # r)" by (rule arg_cong)
  then have s: "s = rev r @ CHR ''/'' # rev t" by simp
  have "b = rev t" "a = take (length s - length t - 1) s"
    using cut by (auto simp: cut_last_slash_def Let_def t_def split: if_splits)
  then show ?thesis using s by simp
qed

lemma v4_prefix_word: "ParsePrefix c = Some p \<Longrightarrow> Is4 (Addr p) \<Longrightarrow> is_word c"
proof -
  assume p: "ParsePrefix c = Some p" "Is4 (Addr p)"
  then obtain a b where cut: "cut_last_slash c = Some (a, b)" "ParseAddr a = Some (Addr p, [])" "is_number b"
    by (auto simp: ParsePrefix_def split: option.splits if_splits)
  then obtain x where "parseIPv4 a = Some x"
    using p(2) by (cases "Addr p") (auto simp: ParseAddr_def Let_def split: option.splits if_splits)
  then have "\<not> is_space ch" if "ch \<in> set a" for ch
    using parseIPv4_chars [of a x ch] that digit_not_space by (auto simp: is_space_def)
  moreover have "\<not> is_space ch" if "ch \<in> set b" for ch
    using cut(3) that digit_not_space by (auto simp: is_number_def list_all_iff)
  ultimately show ?thesis using cut_last_slash_Some [OF cut(1)] by (auto simp: is_word_def list_all_iff is_space_def)
qed

definition covers :: "string list \<Rightarrow> 32 word \<Rightarrow> bool"
  where "covers cs x \<longleftrightarrow> (\<exists>c \<in> set cs. \<exists>q. ParsePrefix c = Some q \<and> prefix_Contains q (V4 x))"

lemma covers_Cons: "covers (c # cs) x \<longleftrightarrow> (\<exists>q. ParsePrefix c = Some q \<and> prefix_Contains q (V4 x)) \<or> covers cs x"
  by (auto simp: covers_def)

lemma rule_words: "is_word ''-A'' \<and> is_word ''OUTPUT'' \<and> is_word ''INPUT'' \<and> is_word ''-d'' \<and> is_word ''-j'' \<and> is_word ''ACCEPT'' \<and>
  is_word ''REJECT'' \<and> is_word ''--reject-with'' \<and> is_word ''icmp-admin-prohibited'' \<and> is_word ''-i'' \<and> is_word ''-s'' \<and> is_word ''-p'' \<and>
  is_word ''udp'' \<and> is_word ''tcp'' \<and> is_word ''--dport'' \<and> is_word ''53'' \<and> is_word ''lo'' \<and> is_word ''-o'' \<and> is_word ''-m'' \<and>
  is_word ''conntrack'' \<and> is_word ''--ctstate'' \<and> is_word ''ESTABLISHED,RELATED'' \<and> is_word ''*filter'' \<and> is_word ''DROP'' \<and>
  is_word ''[0:0]'' \<and> is_word '':INPUT'' \<and> is_word '':FORWARD'' \<and> is_word '':OUTPUT'' \<and> is_word ''COMMIT''"
  by (simp add: is_word_def is_space_def)

lemma kernel_allow_lines:
  assumes "list_all is_word cs"
  shows "kernel_output (concat (map allow_line cs) @ s) x \<longleftrightarrow> covers cs x \<or> kernel_output s x"
  using assms
proof (induction cs)
  case (Cons c cs)
  let ?ws = "[''-A'', ''OUTPUT'', ''-d'', c, ''-j'', ''ACCEPT'']"
  have "allow_line c = line (Join ?ws '' '')" by (simp add: allow_line_def)
  moreover have "list_all is_word ?ws" using Cons.prems rule_words by simp
  ultimately have "kernel_output (concat (map allow_line (c # cs)) @ s) x =
      (case rule_of ?ws x of Some b \<Rightarrow> b | None \<Rightarrow> kernel_output (concat (map allow_line cs) @ s) x)"
    using kernel_line [of ?ws "allow_line c" "concat (map allow_line cs) @ s" x] by (simp del: Join.simps)
  then show ?case using Cons by (auto simp: rule_of_def covers_Cons split: option.splits)
qed (simp add: covers_def)

lemma kernel_deny_lines:
  assumes "list_all is_word cs"
  shows "kernel_output (concat (map deny_line cs) @ s) x \<longleftrightarrow> \<not> covers cs x \<and> kernel_output s x"
  using assms
proof (induction cs)
  case (Cons c cs)
  let ?ws = "[''-A'', ''OUTPUT'', ''-d'', c, ''-j'', ''REJECT'', ''--reject-with'', ''icmp-admin-prohibited'']"
  have "deny_line c = line (Join ?ws '' '')" by (simp add: deny_line_def)
  moreover have "list_all is_word ?ws" using Cons.prems rule_words by simp
  ultimately have "kernel_output (concat (map deny_line (c # cs)) @ s) x =
      (case rule_of ?ws x of Some b \<Rightarrow> b | None \<Rightarrow> kernel_output (concat (map deny_line cs) @ s) x)"
    using kernel_line [of ?ws "deny_line c" "concat (map deny_line cs) @ s" x] by (simp del: Join.simps)
  then show ?case using Cons by (auto simp: rule_of_def covers_Cons split: option.splits)
qed (simp add: covers_def)

text \<open>A line that names no output rule for the connection is passed over.\<close>

lemma kernel_skip:
  "list_all is_word ws \<Longrightarrow> rule_of ws x = None \<Longrightarrow> l = line (Join ws '' '') \<Longrightarrow> kernel_output (l @ s) x = kernel_output s x"
  using kernel_line [of ws l s x] by simp

lemma kernel_header:
  assumes "is_word internalIf" "is_word subnet"
  shows "kernel_output (line ''*filter'' @ s) x = kernel_output s x"
    "kernel_output (line '':INPUT DROP [0:0]'' @ s) x = kernel_output s x"
    "kernel_output (line '':FORWARD DROP [0:0]'' @ s) x = kernel_output s x"
    "kernel_output (line '':OUTPUT DROP [0:0]'' @ s) x = kernel_output s x"
    "kernel_output (line ''-A INPUT -i lo -j ACCEPT'' @ s) x = kernel_output s x"
    "kernel_output (line ''-A INPUT -m conntrack --ctstate ESTABLISHED,RELATED -j ACCEPT'' @ s) x = kernel_output s x"
    "kernel_output (line (''-A INPUT -i '' @ internalIf @ '' -s '' @ subnet @ '' -p udp --dport 53 -j ACCEPT'') @ s) x = kernel_output s x"
    "kernel_output (line (''-A INPUT -i '' @ internalIf @ '' -s '' @ subnet @ '' -p tcp --dport 53 -j ACCEPT'') @ s) x = kernel_output s x"
    "kernel_output (line (''-A INPUT -i '' @ internalIf @ '' -s '' @ subnet @ '' -p tcp --dport '' @ decimal port @ '' -j ACCEPT'') @ s) x
      = kernel_output s x"
    "kernel_output (line ''-A OUTPUT -o lo -j ACCEPT'' @ s) x = kernel_output s x"
    "kernel_output (line ''-A OUTPUT -m conntrack --ctstate ESTABLISHED,RELATED -j ACCEPT'' @ s) x = kernel_output s x"
  using assms rule_words
  by (intro kernel_skip [of "[''*filter'']"] kernel_skip [of "['':INPUT'', ''DROP'', ''[0:0]'']"]
      kernel_skip [of "['':FORWARD'', ''DROP'', ''[0:0]'']"] kernel_skip [of "['':OUTPUT'', ''DROP'', ''[0:0]'']"]
      kernel_skip [of "[''-A'', ''INPUT'', ''-i'', ''lo'', ''-j'', ''ACCEPT'']"]
      kernel_skip [of "[''-A'', ''INPUT'', ''-m'', ''conntrack'', ''--ctstate'', ''ESTABLISHED,RELATED'', ''-j'', ''ACCEPT'']"]
      kernel_skip [of "[''-A'', ''INPUT'', ''-i'', internalIf, ''-s'', subnet, ''-p'', ''udp'', ''--dport'', ''53'', ''-j'', ''ACCEPT'']"]
      kernel_skip [of "[''-A'', ''INPUT'', ''-i'', internalIf, ''-s'', subnet, ''-p'', ''tcp'', ''--dport'', ''53'', ''-j'', ''ACCEPT'']"]
      kernel_skip [of "[''-A'', ''INPUT'', ''-i'', internalIf, ''-s'', subnet, ''-p'', ''tcp'', ''--dport'', decimal port, ''-j'', ''ACCEPT'']"]
      kernel_skip [of "[''-A'', ''OUTPUT'', ''-o'', ''lo'', ''-j'', ''ACCEPT'']"]
      kernel_skip [of "[''-A'', ''OUTPUT'', ''-m'', ''conntrack'', ''--ctstate'', ''ESTABLISHED,RELATED'', ''-j'', ''ACCEPT'']"];
     simp add: rule_of_def)+

lemma kernel_footer: "kernel_output (line ''-A OUTPUT -j ACCEPT'' @ s) x"
  using kernel_line [of "[''-A'', ''OUTPUT'', ''-j'', ''ACCEPT'']" "line ''-A OUTPUT -j ACCEPT''" s x] rule_words
  by (simp add: rule_of_def)

lemma kernel_ruleset:
  assumes "is_word internalIf" "is_word (po_InternalSubnet p)" "list_all is_word (po_Allow p)" "list_all is_word (po_Deny p)"
  shows "kernel_output (RenderIPTables p internalIf port) x \<longleftrightarrow> covers (po_Allow p) x \<or> \<not> covers (po_Deny p) x"
  unfolding RenderIPTables_def
  by (simp only: kernel_header [OF assms(1,2)] kernel_allow_lines [OF assms(3)] kernel_deny_lines [OF assms(4)] kernel_footer) simp

lemma covers_list_ex: "map ParsePrefix cs = map Some ps \<Longrightarrow> covers cs x \<longleftrightarrow> list_ex (\<lambda>q. prefix_Contains q (V4 x)) ps"
  using map_Some_mem [of ParsePrefix cs ps] map_Some_mem2 [of ParsePrefix cs ps]
  by (fastforce simp: covers_def list_ex_iff)

text \<open>C5. The two layers of the gateway enforce one policy: for every address a connection can have, the relay allows it
  exactly when the rendered kernel ruleset lets the connection out, provided the deny set withholds link-local, as the
  built one always does.  The ruleset is read from its text, first matching rule deciding.\<close>

theorem kernel_and_relay_agree:
  assumes "Compile p = Inr d" and "reachable_addr (V4 x)" and "''169.254.0.0/16'' \<in> set (po_Deny p)"
    and "is_word internalIf" and "is_word (po_InternalSubnet p)"
  shows "Allowed d (V4 x) \<longleftrightarrow> kernel_output (RenderIPTables p internalIf port) x"
proof -
  have v: "check_deny (po_Deny p) = None" "check_allow (po_Allow p) = None" using assms(1) by (simp_all add: Compile_Inr ValidatePolicy_None)
  have words: "list_all is_word (po_Allow p)" "list_all is_word (po_Deny p)"
    using v v4_prefix_word by (fastforce simp: check_deny_None check_allow_None list_all_iff)+
  have maps: "map ParsePrefix (po_Allow p) = map Some (de_allow d)" "map ParsePrefix (po_Deny p) = map Some (de_deny d)"
    using assms(1) by (simp_all add: Compile_Inr)
  have "covers (po_Deny p) x" if "IsLinkLocalUnicast (V4 x)"
    using assms(3) demo_parses(4) that linkLocal_iff linkLocal_contains unfolding covers_def by blast
  then show ?thesis using assms(2) kernel_ruleset [OF assms(4,5) words] covers_list_ex [OF maps(1)] covers_list_ex [OF maps(2)]
    by (auto simp: Allowed_def)
qed

theorem kernel_and_relay_agree_witness:
  "Allowed demo_decider (V4 0xA9FEA9FE) \<and> kernel_output (RenderIPTables demo_policy ''eth0'' ProxyPort) 0xA9FEA9FE \<and>
   \<not> Allowed demo_decider (V4 0x0A000001) \<and> \<not> kernel_output (RenderIPTables demo_policy ''eth0'' ProxyPort) 0x0A000001"
proof -
  have deny: "''169.254.0.0/16'' \<in> set (po_Deny demo_policy)" by (simp add: demo_policy_def)
  have words: "is_word ''eth0''" "is_word (po_InternalSubnet demo_policy)"
    by (simp_all add: demo_policy_def is_word_def is_space_def)
  have "Allowed demo_decider (V4 0xA9FEA9FE)" "reachable_addr (V4 0xA9FEA9FE)" "\<not> Allowed demo_decider (V4 0x0A000001)"
    "reachable_addr (V4 0x0A000001)" by code_simp+
  then show ?thesis
    using kernel_and_relay_agree [OF demo_compiles _ deny words, of "0xA9FEA9FE" ProxyPort]
      kernel_and_relay_agree [OF demo_compiles _ deny words, of "0x0A000001" ProxyPort] by simp
qed

end
