(* ===== verification/EgressRanges.thy ===== *)
theory EgressRanges
  imports EgressProps
begin

text \<open>
  The range arithmetic of the egress policy: what the two refusals of an allowance mean as sets of
  addresses, and the deny set the controller builds.
\<close>

section \<open>Prefixes as intervals\<close>

lemma uint_mask: "uint (push_bit k (drop_bit k a)) = uint a div 2 ^ k * 2 ^ k" for a :: "32 word"
proof -
  have "uint a div 2 ^ k * 2 ^ k \<le> uint a" by (simp add: minus_mod_eq_div_mult [symmetric])
  also have "uint a < 2 ^ 32" using unsigned_less [of a] by simp
  finally have "uint a div 2 ^ k * 2 ^ k < 2 ^ 32" .
  moreover have "0 \<le> uint a div 2 ^ k * 2 ^ k" by (simp add: pos_imp_zdiv_nonneg_iff)
  moreover have "uint (push_bit k (drop_bit k a)) = take_bit 32 (uint (drop_bit k a) * 2 ^ k)"
    unfolding unsigned_push_bit_eq by (simp add: push_bit_eq_mult)
  ultimately show ?thesis by (simp add: uint_drop_bit take_bit_int_eq_self)
qed

lemma Masked_V4: "Addr (Masked (Prefix (V4 a) n)) = V4 (push_bit (32 - n) (drop_bit (32 - n) a))"
  by (simp add: Masked_def)

lemma base_div:
  "j \<ge> k \<Longrightarrow> uint (push_bit k (drop_bit k a)) div 2 ^ j = uint a div 2 ^ j" for a :: "32 word"
  by (rule div_coarser [of k j]) (simp_all add: uint_mask)

text \<open>A prefix lies inside a coarser one exactly when its first address does.\<close>

lemma contains_range:
  assumes "Bits r \<le> Bits p" "prefix_Contains r (Addr p)" "Is4 (Addr p)" "prefix_Contains p (V4 x)"
  shows "prefix_Contains r (V4 x)"
proof -
  obtain a n where p: "p = Prefix (V4 a) n" using assms(3) by (cases p; cases "Addr p") auto
  obtain b m where r: "r = Prefix (V4 b) m"
    using assms(2) p by (cases r; cases "Addr r") (auto simp: prefix_Contains_def)
  have "uint x div 2 ^ (32 - m) = uint a div 2 ^ (32 - m)"
    using assms(1,4) by (intro div_coarser [of "32 - n" "32 - m"]) (auto simp: p r prefix_Contains_def)
  then show ?thesis using assms(2) by (simp add: p r prefix_Contains_def)
qed

lemma unreachable_iff:
  "list_ex (\<lambda>r. prefix_Contains r (V4 x)) unreachable \<longleftrightarrow>
    uint x = 0 \<or> uint x div 2 ^ 24 = 127 \<or> uint x div 2 ^ 28 = 14 \<or> uint x = 4294967295"
  by (simp add: unreachable_def must_v4_def prefix_Contains_def)

lemma reachable_V4: "reachable_addr (V4 x) \<longleftrightarrow>
    \<not> (uint x = 0 \<or> uint x div 2 ^ 24 = 127 \<or> uint x div 2 ^ 28 = 14 \<or> uint x = 4294967295)"
  unfolding reachable_addr_def Let_def using unreachable_iff by simp

lemma contains_base:
  "Bits r \<le> n \<Longrightarrow> prefix_Contains r (V4 (push_bit (32 - n) (drop_bit (32 - n) a))) \<longleftrightarrow> prefix_Contains r (V4 a)"
  by (cases r; cases "Addr r") (simp_all add: prefix_Contains_def base_div)

lemma RefusedOutright_base:
  "RefusedOutright (Prefix (V4 a) n) \<longleftrightarrow> list_ex (\<lambda>r. Bits r \<le> n \<and> prefix_Contains r (V4 a)) unreachable"
  unfolding RefusedOutright_def Masked_V4 Let_def list_ex_iff by (auto simp: contains_base cong: conj_cong)

lemma RefusedOutright_V4:
  "RefusedOutright (Prefix (V4 a) n) \<longleftrightarrow>
    n \<ge> 32 \<and> uint a = 0 \<or> n \<ge> 8 \<and> uint a div 2 ^ 24 = 127 \<or> n \<ge> 4 \<and> uint a div 2 ^ 28 = 14 \<or> n \<ge> 32 \<and> uint a = 4294967295"
  by (simp add: RefusedOutright_base unreachable_def must_v4_def prefix_Contains_def)

text \<open>A prefix no unreachable range covers has an address the relay can reach.\<close>

lemma reachable_address:
  assumes n: "n \<le> 32" and no: "\<not> RefusedOutright (Prefix (V4 a) n)"
  shows "\<exists>x. prefix_Contains (Prefix (V4 a) n) (V4 x) \<and> reachable_addr (V4 x)"
proof -
  define k where "k = 32 - n"
  define B where "B = uint a div 2 ^ k * 2 ^ k"
  have B: "0 \<le> B" "B \<le> uint a" by (simp add: B_def pos_imp_zdiv_nonneg_iff) (simp add: B_def minus_mod_eq_div_mult [symmetric])
  have lt: "uint a < 2 ^ 32" using unsigned_less [of a] by simp
  have "B + 2 ^ k \<le> 2 ^ 32"
  proof -
    have all: "(2 :: int) ^ n * 2 ^ k = 2 ^ 32" using n by (simp add: k_def flip: power_add)
    have "uint a div 2 ^ k < 2 ^ n"
    proof (rule ccontr)
      assume "\<not> uint a div 2 ^ k < 2 ^ n"
      then have "2 ^ n * 2 ^ k \<le> B" unfolding B_def by (intro mult_right_mono) auto
      then show False using B(2) lt all by simp
    qed
    then have "(uint a div 2 ^ k + 1) * 2 ^ k \<le> 2 ^ n * 2 ^ k" by (intro mult_right_mono) auto
    then have "(uint a div 2 ^ k + 1) * 2 ^ k \<le> 2 ^ 32" unfolding all .
    then show ?thesis by (simp add: B_def distrib_right)
  qed
  then have inside: "\<exists>x. uint x = B + y \<and> prefix_Contains (Prefix (V4 a) n) (V4 x)" if "0 \<le> y" "y < 2 ^ k" for y
  proof -
    have "uint (word_of_int (B + y) :: 32 word) = B + y" using B(1) that \<open>B + 2 ^ k \<le> 2 ^ 32\<close>
      unfolding uint_word_of_int by simp
    moreover have "(B + y) div 2 ^ k = uint a div 2 ^ k" using that by (simp add: B_def)
    ultimately show ?thesis by (intro exI [of _ "word_of_int (B + y)"]) (simp add: prefix_Contains_def k_def)
  qed
  have hit: ?thesis if "0 \<le> y" "y < 2 ^ k"
    "\<not> (B + y = 0 \<or> (B + y) div 2 ^ 24 = 127 \<or> (B + y) div 2 ^ 28 = 14 \<or> B + y = 4294967295)" for y
    using inside [OF that(1,2)] that(3) by (metis reachable_V4)
  have low: "uint a div 2 ^ j = B div 2 ^ j" if "k \<le> j" for j
    by (rule div_coarser [OF that]) (simp add: B_def)
  show ?thesis
  proof (cases "k = 0")
    case True
    then have "uint a = B" "32 \<le> n" using n by (simp_all add: B_def k_def)
    then show ?thesis using hit [of 0] no True unfolding RefusedOutright_V4 by simp
  next
    case False
    then have even: "2 dvd B" unfolding B_def by (simp add: dvd_power)
    have two: "(2 :: int) ^ 1 \<le> 2 ^ k" using False by (intro power_increasing) auto
    show ?thesis
    proof (rule ccontr)
      assume none: "\<not> ?thesis"
      have U: "B + y = 0 \<or> (B + y) div 2 ^ 24 = 127 \<or> (B + y) div 2 ^ 28 = 14 \<or> B + y = 4294967295"
        if "0 \<le> y" "y < 2 ^ k" for y using hit [OF that] none by blast
      have B0: "B \<noteq> 0" using U [of 1] two by auto
      have Bmax: "B \<noteq> 4294967295" using even by auto
      consider "B div 2 ^ 24 = 127" | "B div 2 ^ 28 = 14" using U [of 0] B0 Bmax by auto
      then show False
      proof cases
        case 1
        have "k \<ge> 25" using 1 low [of 24] no unfolding RefusedOutright_V4 by (cases "k \<ge> 25") (auto simp: k_def)
        then have "2 ^ 25 dvd B" unfolding B_def by (intro dvd_mult le_imp_power_dvd) auto
        then obtain j where "B = 2 ^ 25 * j" by (rule dvdE)
        then have "B div 2 ^ 24 = 2 * j" by simp
        then have "2 * j = 127" using 1 by simp
        then show False by presburger
      next
        case 2
        have "k \<ge> 29" using 2 low [of 28] no unfolding RefusedOutright_V4 by (cases "k \<ge> 29") (auto simp: k_def)
        then have "2 ^ 29 dvd B" unfolding B_def by (intro dvd_mult le_imp_power_dvd) auto
        then have B: "B = 14 * 2 ^ 28" using 2 by (auto simp: dvd_def)
        have "(2 :: int) ^ 28 < 2 ^ k" using \<open>k \<ge> 29\<close> by (intro power_strict_increasing) auto
        then show False using U [of "2 ^ 28"] unfolding B by simp
      qed
    qed
  qed
qed

section \<open>Validation as sets of addresses\<close>

lemma V4_cases: "Is4 (Addr p) \<Longrightarrow> (\<And>a n. p = Prefix (V4 a) n \<Longrightarrow> thesis) \<Longrightarrow> thesis"
  by (cases p; cases "Addr p") auto

lemma refused_exact:
  assumes "Is4 (Addr p)" "prefix_ok p"
  shows "RefusedOutright p \<longleftrightarrow> (\<forall>x \<in> v4_range p. \<not> reachable_addr (V4 x))"
proof
  obtain a n where p: "p = Prefix (V4 a) n" using assms(1) by (rule V4_cases)
  show "\<forall>x \<in> v4_range p. \<not> reachable_addr (V4 x)" if r: "RefusedOutright p"
  proof
    fix x assume x: "x \<in> v4_range p"
    obtain u where u: "u \<in> set unreachable" "Bits u \<le> n" "prefix_Contains u (V4 a)"
      using r by (auto simp: p RefusedOutright_base list_ex_iff)
    then have "prefix_Contains u (V4 x)" using contains_range [of u p x] x by (simp add: p v4_range_def)
    then show "\<not> reachable_addr (V4 x)" using u(1) by (auto simp: reachable_addr_def list_ex_iff)
  qed
  show "RefusedOutright p" if "\<forall>x \<in> v4_range p. \<not> reachable_addr (V4 x)"
    using that reachable_address [of n a] assms(2) by (auto simp: p v4_range_def prefix_ok_def)
qed

text \<open>A neighbour of an address: equal above bit \<^verbatim>\<open>k\<close>, different at it.\<close>

lemma neighbour:
  fixes b :: "32 word"
  assumes "k < 32"
  shows "\<exists>x :: 32 word. uint x div 2 ^ k \<noteq> uint b div 2 ^ k \<and> (\<forall>j > k. uint x div 2 ^ j = uint b div 2 ^ j)"
proof -
  let ?x = "b XOR push_bit k 1"
  have "bit (drop_bit k ?x) 0 \<noteq> bit (drop_bit k b) 0" using assms by (simp add: bit_simps)
  then have "drop_bit k ?x \<noteq> drop_bit k b" by metis
  then have "uint ?x div 2 ^ k \<noteq> uint b div 2 ^ k" unfolding drop_bit_eq_uint .
  moreover have "uint ?x div 2 ^ j = uint b div 2 ^ j" if "k < j" for j
  proof -
    have "drop_bit j ?x = drop_bit j b" using that by (intro bit_word_eqI) (auto simp: bit_simps)
    then show ?thesis unfolding drop_bit_eq_uint .
  qed
  ultimately show ?thesis by blast
qed

lemma psubset_exact:
  assumes "Is4 (Addr p)" "Is4 (Addr r)" "prefix_ok r" "prefix_ok p"
  shows "v4_range r \<subset> v4_range p \<longleftrightarrow> Bits p < Bits r \<and> prefix_Contains p (Addr r)"
proof -
  obtain a n where p: "p = Prefix (V4 a) n" using assms(1) by (rule V4_cases)
  obtain b m where r: "r = Prefix (V4 b) m" using assms(2) by (rule V4_cases)
  have m: "m \<le> 32" using assms(3) by (simp add: r prefix_ok_def)
  have self: "b \<in> v4_range r" by (simp add: r v4_range_V4)
  show ?thesis
  proof (intro iffI conjI)
    assume sub: "v4_range r \<subset> v4_range p"
    then show in_p: "prefix_Contains p (Addr r)" using self by (auto simp: r v4_range_def)
    show "Bits p < Bits r"
    proof (rule ccontr)
      assume "\<not> Bits p < Bits r"
      moreover from this have "prefix_Contains r (Addr p)" using in_p div_coarser [of "32 - n" "32 - m" "uint b" "uint a"]
        by (simp add: p r prefix_Contains_def)
      ultimately have "v4_range p \<subseteq> v4_range r" using contains_range [of r p] assms(1) by (auto simp: v4_range_def)
      then show False using sub by auto
    qed
  next
    assume h: "Bits p < Bits r \<and> prefix_Contains p (Addr r)"
    then have "v4_range r \<subseteq> v4_range p" using contains_range [of p r] assms(2) by (auto simp: v4_range_def)
    moreover obtain x :: "32 word" where "uint x div 2 ^ (32 - m) \<noteq> uint b div 2 ^ (32 - m)" "\<forall>j > 32 - m. uint x div 2 ^ j = uint b div 2 ^ j"
      using neighbour [of "32 - m" b] h by (auto simp: p r)
    then have "x \<in> v4_range p - v4_range r" using h m by (auto simp: p r v4_range_V4 prefix_Contains_def)
    ultimately show "v4_range r \<subset> v4_range p" by blast
  qed
qed

lemma baseline_v4: "r \<in> set baseline \<Longrightarrow> Is4 (Addr r) \<and> prefix_ok r"
  by (auto simp: baseline_def must_v4_def prefix_ok_def)

lemma widens_exact:
  "Is4 (Addr p) \<Longrightarrow> prefix_ok p \<Longrightarrow> WidensBaselineDeny p \<longleftrightarrow> (\<exists>r \<in> set baseline. v4_range r \<subset> v4_range p)"
  using psubset_exact baseline_v4 by (auto simp: WidensBaselineDeny_baseline)

lemma singleton_exact:
  assumes "Is4 (Addr p)" "prefix_ok p"
  shows "(\<exists>x. v4_range p = {x}) \<longleftrightarrow> Bits p = BitLen (Addr p)"
proof -
  obtain a n where p: "p = Prefix (V4 a) n" using assms(1) by (rule V4_cases)
  have n: "n \<le> 32" using assms(2) by (simp add: p prefix_ok_def)
  show ?thesis
  proof
    assume "Bits p = BitLen (Addr p)"
    then have "y \<in> v4_range p \<longleftrightarrow> y = a" for y using n by (simp add: p v4_range_V4 word_uint_eq_iff)
    then have "v4_range p = {a}" by blast
    then show "\<exists>x. v4_range p = {x}" by blast
  next
    assume "\<exists>x. v4_range p = {x}"
    moreover have "a \<in> v4_range p" by (simp add: p v4_range_V4)
    ultimately have only: "v4_range p = {a}" by (metis singletonD)
    obtain x :: "32 word" where x: "uint x div 2 ^ 0 \<noteq> uint a div 2 ^ 0" "\<forall>j > 0. uint x div 2 ^ j = uint a div 2 ^ j"
      using neighbour [of 0 a] by auto
    then have "x \<noteq> a" by blast
    then have "x \<notin> v4_range p" using only by blast
    then have "\<not> 32 - n > 0" using x(2) unfolding p v4_range_V4 by blast
    then show "Bits p = BitLen (Addr p)" using n by (simp add: p)
  qed
qed

lemma overlap_exact:
  assumes "Is4 (Addr p)"
  shows "Overlaps p linkLocal \<longleftrightarrow> v4_range p \<inter> v4_range linkLocal \<noteq> {}"
proof -
  obtain a n where p: "p = Prefix (V4 a) n" using assms by (rule V4_cases)
  let ?l = "0xA9FE0000 :: 32 word"
  have l: "linkLocal = Prefix (V4 ?l) 16" by (simp add: linkLocal_def must_v4_def)
  show ?thesis
  proof (cases "n \<le> 16")
    case True
    then have "Overlaps p linkLocal \<longleftrightarrow> ?l \<in> v4_range p" by (auto simp: Overlaps_def p l v4_range_V4 min_def)
    moreover have "?l \<in> v4_range linkLocal" by (simp add: l v4_range_V4)
    moreover have "?l \<in> v4_range p" if "x \<in> v4_range p" "x \<in> v4_range linkLocal" for x
      using that True div_coarser [of 16 "32 - n" "uint x" "uint ?l"] by (simp add: p l v4_range_V4)
    ultimately show ?thesis by blast
  next
    case False
    then have "Overlaps p linkLocal \<longleftrightarrow> a \<in> v4_range linkLocal" by (auto simp: Overlaps_def p l v4_range_V4 min_def)
    moreover have "a \<in> v4_range p" by (simp add: p v4_range_V4)
    moreover have "a \<in> v4_range linkLocal" if "x \<in> v4_range p" "x \<in> v4_range linkLocal" for x
      using that False div_coarser [of "32 - n" 16 "uint x" "uint a"] by (simp add: p l v4_range_V4)
    ultimately show ?thesis by blast
  qed
qed

text \<open>Validation accepts an allow list exactly when every entry means something safe as a set of addresses: it is an
  IPv4 prefix, some address in it can be reached, it does not strictly contain any range the baseline withholds, and
  it either stays clear of link-local or names one single address.\<close>

theorem allow_validation_exact:
  "check_allow cs = None \<longleftrightarrow>
    (\<forall>c \<in> set cs. \<exists>q. ParsePrefix c = Some q \<and> Is4 (Addr q) \<and> (\<exists>x \<in> v4_range q. reachable_addr (V4 x)) \<and>
      \<not> (\<exists>r \<in> set baseline. v4_range r \<subset> v4_range q) \<and>
      (v4_range q \<inter> v4_range linkLocal = {} \<or> (\<exists>x. v4_range q = {x})))"
proof -
  have "\<not> WidensBaselineDeny q \<and> \<not> RefusedOutright q \<and> \<not> ReopensLinkLocal q \<longleftrightarrow>
      (\<exists>x \<in> v4_range q. reachable_addr (V4 x)) \<and> \<not> (\<exists>r \<in> set baseline. v4_range r \<subset> v4_range q) \<and>
      (v4_range q \<inter> v4_range linkLocal = {} \<or> (\<exists>x. v4_range q = {x}))"
    if q: "Is4 (Addr q)" "ParsePrefix c = Some q" for c q
    unfolding ReopensLinkLocal_def overlap_exact [OF q(1)] refused_exact [OF q(1) ParsePrefix_ok [OF q(2)]]
      widens_exact [OF q(1) ParsePrefix_ok [OF q(2)]] singleton_exact [OF q(1) ParsePrefix_ok [OF q(2)]] by simp argo
  then have "(\<exists>q. ParsePrefix c = Some q \<and> Is4 (Addr q) \<and> \<not> WidensBaselineDeny q \<and> \<not> RefusedOutright q \<and> \<not> ReopensLinkLocal q) \<longleftrightarrow>
      (\<exists>q. ParsePrefix c = Some q \<and> Is4 (Addr q) \<and> (\<exists>x \<in> v4_range q. reachable_addr (V4 x)) \<and>
        \<not> (\<exists>r \<in> set baseline. v4_range r \<subset> v4_range q) \<and>
        (v4_range q \<inter> v4_range linkLocal = {} \<or> (\<exists>x. v4_range q = {x})))" for c
    by (simp cong: conj_cong)
  then show ?thesis unfolding check_allow_None by (rule ball_cong [OF refl])
qed

theorem allow_validation_exact_witness:
  "check_allow [''169.254.169.254/32''] = None \<and> \<not> (\<exists>r \<in> set baseline. v4_range r \<subset> v4_range (must_v4 169 254 169 254 32))"
proof -
  have "check_allow [''169.254.169.254/32''] = None" using demo_allow demo_parses(3) by (simp add: must_v4_def)
  then show ?thesis using allow_validation_exact [of "[''169.254.169.254/32'']"] demo_parses(3) by auto
qed

section \<open>The deny set the controller builds\<close>

definition is_v4_cidr :: "string \<Rightarrow> bool"
  where "is_v4_cidr c \<longleftrightarrow> (\<exists>p. ParsePrefix c = Some p \<and> Is4 (Addr p))"

lemma add_deny_set: "set (add_deny c out) = set out \<union> {x. x = c \<and> is_v4_cidr c}"
  by (auto simp: add_deny_def is_v4_cidr_def ParsePrefix_def cut_last_slash_def split: option.splits)

lemma add_deny_distinct: "distinct out \<Longrightarrow> distinct (add_deny c out)"
  by (auto simp: add_deny_def split: option.splits)

lemma fold_deny_set: "set (fold add_deny cs out) = set out \<union> {c \<in> set cs. is_v4_cidr c}"
  by (induction cs arbitrary: out) (auto simp: add_deny_set)

lemma fold_deny_distinct: "distinct out \<Longrightarrow> distinct (fold add_deny cs out)"
  by (induction cs arbitrary: out) (auto simp: add_deny_distinct)

lemma baseline_cidr: "c \<in> set baselineDeny \<Longrightarrow> is_v4_cidr c"
  using map_Some_mem2 [OF baseline_parses] baseline_v4 by (auto simp: is_v4_cidr_def)

lemma BuildDeny_set:
  "set (BuildDeny uplink host docker) = set baselineDeny \<union> {c \<in> set (uplink # host @ docker). is_v4_cidr c}"
  using baseline_cidr by (auto simp: BuildDeny_def fold_deny_set add_deny_set)

text \<open>Whatever the daemon and the host report, the deny set the controller builds is one every gateway accepts: it
  holds the whole baseline and exactly the IPv4 networks among what was reported, nothing twice, and the policy made
  of it validates, so an IPv6 network or an unreadable one never fails a launch.\<close>

theorem built_deny_always_accepted:
  assumes "ParsePrefix internal \<noteq> None" and "ParsePrefix uplink \<noteq> None"
  shows "set (BuildDeny uplink host docker) = set baselineDeny \<union> {c \<in> set (uplink # host @ docker). is_v4_cidr c} \<and>
    distinct (BuildDeny uplink host docker) \<and>
    ValidatePolicy \<lparr>po_InternalSubnet = internal, po_UplinkSubnet = uplink, po_Allow = [], po_Deny = BuildDeny uplink host docker\<rparr> = None"
proof -
  have check: "check_deny (BuildDeny uplink host docker) = None"
    unfolding check_deny_None BuildDeny_set using baseline_cidr by (auto simp: is_v4_cidr_def)
  have "''10.0.0.0/8'' \<in> set (BuildDeny uplink host docker)" unfolding BuildDeny_set by (simp add: baselineDeny_def)
  then have "BuildDeny uplink host docker \<noteq> []" by (metis empty_iff empty_set)
  then have "ValidatePolicy \<lparr>po_InternalSubnet = internal, po_UplinkSubnet = uplink, po_Allow = [], po_Deny = BuildDeny uplink host docker\<rparr> = None"
    unfolding ValidatePolicy_None using assms check by simp
  moreover have "distinct (BuildDeny uplink host docker)"
    unfolding BuildDeny_def by (intro fold_deny_distinct add_deny_distinct) simp
  ultimately show ?thesis using BuildDeny_set by blast
qed

theorem built_deny_always_accepted_witness:
  "ValidatePolicy \<lparr>po_InternalSubnet = ''172.20.0.0/16'', po_UplinkSubnet = ''172.21.0.0/16'', po_Allow = [],
     po_Deny = BuildDeny ''172.21.0.0/16'' [''fe80::/64'', ''not a network''] []\<rparr> = None"
  using built_deny_always_accepted [of "''172.20.0.0/16''" "''172.21.0.0/16''" "[''fe80::/64'', ''not a network'']" "[]"] demo_parses(1,2) by blast

end
