(* ===== verification/Gateway.thy ===== *)
theory Gateway
  imports Egress
begin

text \<open>
  The gateway's policy channel (\<^verbatim>\<open>internal/gateway/policy.go\<close>, \<^verbatim>\<open>gateway.go\<close>, \<^verbatim>\<open>firewall.go\<close>): the cached
  compiled policy, installing a successor into the kernel and the file the relay reads, reloading
  and closing, and telling the two network legs apart.

  \<^verbatim>\<open>encoding/json\<close> is the pair of parameters \<^verbatim>\<open>decode\<close> and \<^verbatim>\<open>encode\<close>, SHA-256 the parameter \<^verbatim>\<open>sha\<close>.  The
  kernel ruleset is the policy it was rendered from.
\<close>

definition MaxPolicyBytes :: nat
  where "MaxPolicyBytes = 1048576"

definition too_long :: "string \<Rightarrow> bool"
  where [simp]: "too_long raw \<longleftrightarrow> length raw > MaxPolicyBytes"

lemma too_long_code [code]: "too_long raw \<longleftrightarrow> int (length raw) > 1048576"
  by (simp add: MaxPolicyBytes_def)

datatype gateway_error =
  ErrPolicyEmpty | ErrPolicyTooLong | ErrPolicyDecode | ErrPolicy policy_error | ErrPolicyRead | ErrNoPolicyInForce
  | ErrApply string | ErrWrite | ErrLegs

section \<open>The cached policy\<close>

definition ParsePolicy :: "(string \<Rightarrow> policy option) \<Rightarrow> string \<Rightarrow> gateway_error + policy"
  where "ParsePolicy decode raw =
    (if raw = [] then Inl ErrPolicyEmpty
     else if too_long raw then Inl ErrPolicyTooLong
     else case decode raw of
       None \<Rightarrow> Inl ErrPolicyDecode
     | Some p \<Rightarrow> (case ValidatePolicy p of Some e \<Rightarrow> Inl (ErrPolicy e) | None \<Rightarrow> Inr p))"

record policy_store =
  ps_decider :: "decider option"
  ps_stamp :: string
  ps_generation :: "64 word"

text \<open>\<^verbatim>\<open>readPolicy\<close>: the document on file, cut one byte past the bound.\<close>

definition readPolicy :: "string option \<Rightarrow> gateway_error + string"
  where "readPolicy file = (case file of None \<Rightarrow> Inl ErrPolicyRead | Some raw \<Rightarrow> Inr (take (MaxPolicyBytes + 1) raw))"

definition Current ::
  "(string \<Rightarrow> string) \<Rightarrow> (string \<Rightarrow> policy option) \<Rightarrow> string option \<Rightarrow> policy_store \<Rightarrow> (gateway_error + decider) \<times> policy_store"
  where "Current sha decode file s =
    (case readPolicy file of
       Inl e \<Rightarrow> (Inl e, s)
     | Inr raw \<Rightarrow>
        if ps_decider s \<noteq> None \<and> ps_stamp s = sha raw then (Inr (the (ps_decider s)), s)
        else case ParsePolicy decode raw of
           Inl e \<Rightarrow> (Inl e, s)
         | Inr policy \<Rightarrow>
            (case Compile policy of
               Inl e \<Rightarrow> (Inl (ErrPolicy e), s)
             | Inr d \<Rightarrow> (Inr d, s\<lparr>ps_decider := Some d, ps_stamp := sha raw, ps_generation := ps_generation s + 1\<rparr>)))"

definition Generation :: "policy_store \<Rightarrow> 64 word"
  where "Generation s = ps_generation s"

section \<open>Installing a policy\<close>

text \<open>What an installation changes: the ruleset in the kernel and the document the relay reads.\<close>

record gateway_state =
  gw_kernel :: "policy option"
  gw_file :: "string option"

type_synonym successor = "policy \<Rightarrow> bool \<Rightarrow> gateway_error + policy"

definition empty_policy :: policy
  where "empty_policy = \<lparr>po_InternalSubnet = [], po_UplinkSubnet = [], po_Allow = [], po_Deny = []\<rparr>"

definition denyAllSuccessor :: successor
  where "denyAllSuccessor current inForce =
    (if \<not> inForce then Inl ErrNoPolicyInForce
     else Inr \<lparr>po_InternalSubnet = po_InternalSubnet current, po_UplinkSubnet = po_UplinkSubnet current,
               po_Allow = [], po_Deny = [''0.0.0.0/0'']\<rparr>)"

definition reloadSuccessor :: "policy \<Rightarrow> successor"
  where "reloadSuccessor incoming current inForce =
    (if \<not> inForce then Inl ErrNoPolicyInForce
     else (let next = \<lparr>po_InternalSubnet = po_InternalSubnet current, po_UplinkSubnet = po_UplinkSubnet current,
                       po_Allow = po_Allow incoming, po_Deny = po_Deny incoming\<rparr>
           in case ValidatePolicy next of Some e \<Rightarrow> Inl (ErrPolicy e) | None \<Rightarrow> Inr next))"

definition in_force :: "(string \<Rightarrow> policy option) \<Rightarrow> gateway_state \<Rightarrow> gateway_error + policy \<times> bool"
  where "in_force decode g =
    (case gw_file g of
       None \<Rightarrow> Inr (empty_policy, False)
     | Some encoded \<Rightarrow> (case decode encoded of None \<Rightarrow> Inl ErrPolicyDecode | Some p \<Rightarrow> Inr (p, True)))"

text \<open>\<^verbatim>\<open>installPolicyWith\<close>, under its lock: \<^verbatim>\<open>apply\<close> is the kernel step and reports its error, \<^verbatim>\<open>written\<close> whether the
  atomic replacement of the file succeeded.\<close>

definition installPolicyWith ::
  "(string \<Rightarrow> policy option) \<Rightarrow> (policy \<Rightarrow> string) \<Rightarrow> (policy \<Rightarrow> gateway_error option) \<Rightarrow> bool \<Rightarrow> successor
    \<Rightarrow> gateway_state \<Rightarrow> gateway_error option \<times> gateway_state"
  where "installPolicyWith decode encode apply' written build g =
    (case in_force decode g of
       Inl e \<Rightarrow> (Some e, g)
     | Inr (current, inForce) \<Rightarrow>
        (case build current inForce of
           Inl e \<Rightarrow> (Some e, g)
         | Inr next \<Rightarrow>
            (case apply' next of
               Some e \<Rightarrow> (Some e, g)
             | None \<Rightarrow>
                (let g = g\<lparr>gw_kernel := Some next\<rparr> in
                 if written then (None, g\<lparr>gw_file := Some (encode next)\<rparr>) else (Some ErrWrite, g)))))"

definition DenyAll ::
  "(string \<Rightarrow> policy option) \<Rightarrow> (policy \<Rightarrow> string) \<Rightarrow> (policy \<Rightarrow> gateway_error option) \<Rightarrow> bool \<Rightarrow> gateway_state
    \<Rightarrow> gateway_error option \<times> gateway_state"
  where "DenyAll decode encode apply' written = installPolicyWith decode encode apply' written denyAllSuccessor"

definition Reload ::
  "(string \<Rightarrow> policy option) \<Rightarrow> (policy \<Rightarrow> string) \<Rightarrow> (policy \<Rightarrow> gateway_error option) \<Rightarrow> bool \<Rightarrow> string \<Rightarrow> gateway_state
    \<Rightarrow> gateway_error option \<times> gateway_state"
  where "Reload decode encode apply' written payload g =
    (if payload = [] then (Some ErrPolicyEmpty, g)
     else if too_long payload then (Some ErrPolicyTooLong, g)
     else case decode payload of
       None \<Rightarrow> (Some ErrPolicyDecode, g)
     | Some incoming \<Rightarrow> installPolicyWith decode encode apply' written (reloadSuccessor incoming) g)"

section \<open>The two legs\<close>

record legs =
  lg_InternalIf :: string
  lg_UplinkIf :: string
  lg_InternalIP :: "addr option"

text \<open>\<^verbatim>\<open>net.Interfaces\<close> is the argument: the interfaces with their IPv4 addresses, in the kernel's order.\<close>

definition classify_addr :: "prefix \<Rightarrow> prefix \<Rightarrow> string \<Rightarrow> addr \<Rightarrow> legs \<Rightarrow> legs"
  where "classify_addr internal uplink name a l =
    (let l = (if prefix_Contains internal a then l\<lparr>lg_InternalIf := name, lg_InternalIP := Some a\<rparr> else l)
     in if prefix_Contains uplink a then l\<lparr>lg_UplinkIf := name\<rparr> else l)"

definition ClassifyLegs :: "(string \<times> addr list) list \<Rightarrow> policy \<Rightarrow> gateway_error + legs"
  where "ClassifyLegs ifaces p =
    (case (ParsePrefix (po_InternalSubnet p), ParsePrefix (po_UplinkSubnet p)) of
       (Some internal, Some uplink) \<Rightarrow>
         (let l = fold (\<lambda>(name, as). fold (classify_addr internal uplink name) as) ifaces
                    \<lparr>lg_InternalIf = [], lg_UplinkIf = [], lg_InternalIP = None\<rparr>
          in if lg_InternalIf l = [] \<or> lg_UplinkIf l = [] then Inl ErrLegs else Inr l)
     | _ \<Rightarrow> Inl ErrLegs)"

text \<open>\<^verbatim>\<open>ApplyFirewall\<close>: \<^verbatim>\<open>restore\<close> runs a restore tool on a ruleset and reports its error.\<close>

definition ApplyFirewall :: "(string \<Rightarrow> string \<Rightarrow> gateway_error option) \<Rightarrow> policy \<Rightarrow> legs \<Rightarrow> gateway_error option"
  where "ApplyFirewall restore p l =
    (case restore ''iptables-restore'' (RenderIPTables p (lg_InternalIf l) ProxyPort) of
       Some e \<Rightarrow> Some e
     | None \<Rightarrow> restore ''ip6tables-restore'' RenderIP6Tables)"

definition applyToKernel ::
  "(string \<times> addr list) list \<Rightarrow> (string \<Rightarrow> string \<Rightarrow> gateway_error option) \<Rightarrow> policy \<Rightarrow> gateway_error option"
  where "applyToKernel ifaces restore next =
    (case ClassifyLegs ifaces next of Inl e \<Rightarrow> Some e | Inr l \<Rightarrow> ApplyFirewall restore next l)"

text \<open>The start of the gateway up to its listeners: the first policy goes in under the same order a reload uses, and the
  relay's store must compile it.\<close>

definition Run_install ::
  "(string \<Rightarrow> string) \<Rightarrow> (string \<Rightarrow> policy option) \<Rightarrow> (policy \<Rightarrow> string) \<Rightarrow> (string \<times> addr list) list
    \<Rightarrow> (string \<Rightarrow> string \<Rightarrow> gateway_error option) \<Rightarrow> bool \<Rightarrow> string \<Rightarrow> gateway_state
    \<Rightarrow> (gateway_error + policy_store) \<times> gateway_state"
  where "Run_install sha decode encode ifaces restore written raw g =
    (case ParsePolicy decode raw of
       Inl e \<Rightarrow> (Inl e, g)
     | Inr policy \<Rightarrow>
        (case ClassifyLegs ifaces policy of
           Inl e \<Rightarrow> (Inl e, g)
         | Inr _ \<Rightarrow>
            (case installPolicyWith decode encode (applyToKernel ifaces restore) written (\<lambda>_ _. Inr policy) g of
               (Some e, g') \<Rightarrow> (Inl e, g')
             | (None, g') \<Rightarrow>
                (case Current sha decode (gw_file g') \<lparr>ps_decider = None, ps_stamp = [], ps_generation = 0\<rparr> of
                   (Inl e, _) \<Rightarrow> (Inl e, g')
                 | (Inr _, s) \<Rightarrow> (Inr s, g')))))"

end
