(* ===== verification/Relay.thy ===== *)
theory Relay
  imports Gateway
begin

text \<open>
  The egress relay of \<^verbatim>\<open>internal/gateway/proxy.go\<close>: parsing a destination, dialling under the policy,
  the connection pool per policy generation, header hygiene, the connection quota and the copy loop
  of a tunnel.

  The resolver and the dialler are parameters over the state \<^verbatim>\<open>'w\<close> of the outside world, as the fields
  \<^verbatim>\<open>resolve\<close> and \<^verbatim>\<open>dialAddr\<close> of the source allow.  Answers to a client are their status codes.
\<close>

definition MaxProxyConnections :: nat
  where "MaxProxyConnections = 256"

definition MaxResolvedAddresses :: nat
  where "MaxResolvedAddresses = 8"

definition allowedConnectPorts :: "(int, string) gomap"
  where "allowedConnectPorts = [(443, ''HTTPS''), (80, ''HTTP'')]"

section \<open>Destinations\<close>

definition last_index :: "char \<Rightarrow> string \<Rightarrow> nat option"
  where "last_index c s = (if c \<notin> set s then None else Some (length s - 1 - length (takeWhile (\<lambda>x. x \<noteq> c) (rev s))))"

definition index_of :: "char \<Rightarrow> string \<Rightarrow> nat option"
  where "index_of c s = (if c \<notin> set s then None else Some (length (takeWhile (\<lambda>x. x \<noteq> c) s)))"

text \<open>\<^verbatim>\<open>net.SplitHostPort\<close>: the host, the port, and where the search for stray brackets starts.\<close>

definition SplitHostPort :: "string \<Rightarrow> (string \<times> string) option"
  where "SplitHostPort hostport =
    (case last_index (CHR '':'') hostport of
       None \<Rightarrow> None
     | Some i \<Rightarrow>
        (let parts = (if hd hostport = CHR ''['' then
                        (case index_of (CHR '']'') hostport of
                           None \<Rightarrow> None
                         | Some e \<Rightarrow> if e + 1 = i then Some (take (e - 1) (tl hostport), 1, e + 1) else None)
                      else if CHR '':'' \<in> set (take i hostport) then None
                      else Some (take i hostport, 0, 0))
         in case parts of
              None \<Rightarrow> None
            | Some (host, j, k) \<Rightarrow>
                if CHR ''['' \<in> set (drop j hostport) \<or> CHR '']'' \<in> set (drop k hostport) then None
                else Some (host, drop (i + 1) hostport)))"

definition JoinHostPort :: "string \<Rightarrow> string \<Rightarrow> string"
  where "JoinHostPort host port =
    (if CHR '':'' \<in> set host then ''['' @ host @ '']:'' @ port else host @ '':'' @ port)"

datatype authority_error =
  NoDestination | TooLong | InvalidCharacters | NotHostPort | NoHost | NoPort | IPv6Destination

definition parseAuthority :: "string \<Rightarrow> authority_error + string \<times> int"
  where "parseAuthority authority =
    (if authority = [] then Inl NoDestination
     else if length authority > 300 then Inl TooLong
     else if list_ex (\<lambda>c. c \<in> set ('' '' @ [CHR 0x09, CHR 0x0D, CHR 0x0A, CHR 0x00] @ ''/@?#'')) authority then Inl InvalidCharacters
     else case SplitHostPort authority of
       None \<Rightarrow> Inl NotHostPort
     | Some (h, p) \<Rightarrow>
        if h = [] then Inl NoHost
        else case ParseInt p of
          None \<Rightarrow> Inl NoPort
        | Some n \<Rightarrow>
           if n < 1 \<or> n > 65535 then Inl NoPort
           else case ParseAddr h of
             Some (a, _) \<Rightarrow> if \<not> Is4 (Unmap a) then Inl IPv6Destination else Inr (h, n)
           | None \<Rightarrow> Inr (h, n))"

definition defaultPort :: "string \<Rightarrow> string \<Rightarrow> string"
  where "defaultPort hostport scheme =
    (if SplitHostPort hostport \<noteq> None then hostport
     else if scheme = ''https'' then JoinHostPort hostport ''443''
     else JoinHostPort hostport ''80'')"

section \<open>Dialling\<close>

datatype dial_error = ErrDenied | ErrResolve | ErrDial string | ErrNoAddress | ErrAuthority authority_error

type_synonym ('w, 'c) dialler = "addr \<Rightarrow> int \<Rightarrow> 'w \<Rightarrow> (string + 'c) \<times> 'w"
type_synonym 'w resolver = "string \<Rightarrow> 'w \<Rightarrow> (string + addr list) \<times> 'w"

fun dial_addrs ::
  "decider \<Rightarrow> ('w, 'c) dialler \<Rightarrow> int \<Rightarrow> addr list \<Rightarrow> dial_error option \<Rightarrow> 'w \<Rightarrow> (dial_error + 'c) \<times> 'w"
  where
    "dial_addrs d dialer port [] lastErr w = (Inl (case lastErr of None \<Rightarrow> ErrNoAddress | Some e \<Rightarrow> e), w)"
  | "dial_addrs d dialer port (a # as) lastErr w =
      (let a = Unmap a in
       if \<not> Allowed d a then dial_addrs d dialer port as (Some ErrDenied) w
       else case dialer a port w of
         (Inr c, w') \<Rightarrow> (Inr c, w')
       | (Inl e, w') \<Rightarrow> dial_addrs d dialer port as (Some (ErrDial e)) w')"

text \<open>The policy comes from the store through \<^const>\<open>Current\<close>, given as its answer.\<close>

definition dial ::
  "gateway_error + decider \<Rightarrow> 'w resolver \<Rightarrow> ('w, 'c) dialler \<Rightarrow> string \<Rightarrow> int \<Rightarrow> 'w \<Rightarrow> (dial_error + 'c) \<times> 'w"
  where "dial current resolve dialer host port w =
    (if port \<notin> set (keys allowedConnectPorts) then (Inl ErrDenied, w)
     else case current of
       Inl _ \<Rightarrow> (Inl ErrDenied, w)
     | Inr policy \<Rightarrow>
        (case resolve host w of
           (Inl _, w') \<Rightarrow> (Inl ErrResolve, w')
         | (Inr addrs, w') \<Rightarrow> dial_addrs policy dialer port (take MaxResolvedAddresses addrs) None w'))"

text \<open>\<^verbatim>\<open>refuse\<close>: 403 for the policy, 502 for anything else.\<close>

definition refuse :: "dial_error \<Rightarrow> int"
  where "refuse e = (if e = ErrDenied then 403 else 502)"

datatype 'c answer = Status int | Tunnel 'c | Forward string

record request =
  rq_Method :: string
  rq_Host :: string
  rq_IsAbs :: bool
  rq_URLHost :: string
  rq_Scheme :: string

definition connect ::
  "gateway_error + decider \<Rightarrow> 'w resolver \<Rightarrow> ('w, 'c) dialler \<Rightarrow> request \<Rightarrow> 'w \<Rightarrow> 'c answer \<times> 'w"
  where "connect current resolve dialer req w =
    (case parseAuthority (rq_Host req) of
       Inl _ \<Rightarrow> (Status 400, w)
     | Inr (host, port) \<Rightarrow>
        (case dial current resolve dialer host port w of
           (Inl e, w') \<Rightarrow> (Status (refuse e), w')
         | (Inr c, w') \<Rightarrow> (Tunnel c, w')))"

text \<open>\<^verbatim>\<open>forward\<close> up to the round trip: the authority the transport will dial, or the refusal.\<close>

definition forward :: "request \<Rightarrow> 'c answer"
  where "forward req =
    (let authority = defaultPort (rq_URLHost req) (rq_Scheme req) in
     case parseAuthority authority of Inl _ \<Rightarrow> Status 400 | Inr _ \<Rightarrow> Forward authority)"

definition ServeHTTP ::
  "gateway_error + decider \<Rightarrow> 'w resolver \<Rightarrow> ('w, 'c) dialler \<Rightarrow> request \<Rightarrow> 'w \<Rightarrow> 'c answer \<times> 'w"
  where "ServeHTTP current resolve dialer req w =
    (if rq_Method req = ''CONNECT'' then connect current resolve dialer req w
     else if \<not> rq_IsAbs req then (Status 400, w)
     else (forward req, w))"

text \<open>The dialler of the pooled transport, as \<^verbatim>\<open>newTransport\<close> sets it.\<close>

definition transport_dial ::
  "gateway_error + decider \<Rightarrow> 'w resolver \<Rightarrow> ('w, 'c) dialler \<Rightarrow> string \<Rightarrow> 'w \<Rightarrow> (dial_error + 'c) \<times> 'w"
  where "transport_dial current resolve dialer authority w =
    (case parseAuthority authority of
       Inl e \<Rightarrow> (Inl (ErrAuthority e), w)
     | Inr (host, port) \<Rightarrow> dial current resolve dialer host port w)"

text \<open>\<^verbatim>\<open>destinationAllowed\<close>, on the peer's address as the socket reports it.\<close>

definition destinationAllowed :: "gateway_error + decider \<Rightarrow> addr option \<Rightarrow> bool"
  where "destinationAllowed current peer =
    (case peer of
       None \<Rightarrow> False
     | Some a \<Rightarrow> (case current of Inl _ \<Rightarrow> False | Inr policy \<Rightarrow> Allowed policy (Unmap a)))"

section \<open>The pool of a policy generation\<close>

record transport_pool =
  pl_gen :: "64 word"
  pl_transport :: nat

record relay =
  rl_pool :: "transport_pool option"
  rl_transports :: nat

definition poolAt :: "64 word \<Rightarrow> relay \<Rightarrow> transport_pool \<times> relay"
  where "poolAt gen r =
    (let next = \<lparr>pl_gen = gen, pl_transport = rl_transports r\<rparr>;
         r' = r\<lparr>rl_pool := Some next, rl_transports := rl_transports r + 1\<rparr>
     in case rl_pool r of
       Some cur \<Rightarrow> if pl_gen cur = gen \<or> gen > 0 \<and> pl_gen cur > gen then (cur, r) else (next, r')
     | None \<Rightarrow> (next, r'))"

definition transportInForce ::
  "(string \<Rightarrow> string) \<Rightarrow> (string \<Rightarrow> policy option) \<Rightarrow> string option \<Rightarrow> policy_store \<Rightarrow> relay \<Rightarrow> transport_pool \<times> policy_store \<times> relay"
  where "transportInForce sha decode file s r =
    (case Current sha decode file s of
       (Inl _, s') \<Rightarrow> (let (p, r') = poolAt 0 r in (p, s', r'))
     | (Inr _, s') \<Rightarrow> (let (p, r') = poolAt (Generation s') r in (p, s', r')))"

section \<open>Headers\<close>

type_synonym header = "(string \<times> string list) list"

definition token_char :: "char \<Rightarrow> bool"
  where "token_char c \<longleftrightarrow>
    is_digit c \<or> 65 \<le> (of_char c :: nat) \<and> (of_char c :: nat) \<le> 90 \<or> 97 \<le> (of_char c :: nat) \<and> (of_char c :: nat) \<le> 122 \<or>
    c \<in> set ''!#$%&*+-.^_`|~'' \<or> c = CHR 0x27"

definition upper_char :: "char \<Rightarrow> char"
  where "upper_char c = (if 97 \<le> (of_char c :: nat) \<and> (of_char c :: nat) \<le> 122 then char_of ((of_char c :: nat) - 32) else c)"

fun canonical_from :: "bool \<Rightarrow> string \<Rightarrow> string"
  where
    "canonical_from upper [] = []"
  | "canonical_from upper (c # cs) =
      (if upper then upper_char c else lower_char c) # canonical_from (c = CHR ''-'') cs"

text \<open>\<^verbatim>\<open>CanonicalMIMEHeaderKey\<close>: a key that is not a token is left as it is.\<close>

definition canonical_key :: "string \<Rightarrow> string"
  where "canonical_key s = (if list_all token_char s then canonical_from True s else s)"

definition header_Del :: "string \<Rightarrow> header \<Rightarrow> header"
  where "header_Del name h = filter (\<lambda>(k, _). k \<noteq> canonical_key name) h"

definition header_Values :: "string \<Rightarrow> header \<Rightarrow> string list"
  where "header_Values name h = (case map_of h (canonical_key name) of None \<Rightarrow> [] | Some vs \<Rightarrow> vs)"

definition hopByHop :: "string list"
  where "hopByHop = [''Connection'', ''Proxy-Connection'', ''Keep-Alive'', ''Proxy-Authenticate'', ''Proxy-Authorization'',
    ''TE'', ''Trailer'', ''Transfer-Encoding'', ''Upgrade'']"

definition connection_named :: "header \<Rightarrow> string list"
  where "connection_named h =
    filter (\<lambda>named. named \<noteq> []) (map TrimSpace (concat (map (Split (CHR '','')) (header_Values ''Connection'' h))))"

definition stripHopByHop :: "header \<Rightarrow> header"
  where "stripHopByHop h = fold header_Del hopByHop (fold header_Del (connection_named h) h)"

section \<open>The connection quota\<close>

text \<open>The semaphore of \<^verbatim>\<open>limitListener\<close> and the connections it let in, with whether their release already ran.\<close>

record listener =
  li_sem :: nat
  li_conns :: "(nat \<times> bool) list"

definition listener_Accept :: "nat \<Rightarrow> listener \<Rightarrow> bool \<times> listener"
  where "listener_Accept i l =
    (if li_sem l < MaxProxyConnections then (True, l\<lparr>li_sem := li_sem l + 1, li_conns := li_conns l @ [(i, False)]\<rparr>)
     else (False, l))"

definition mark_released :: "nat \<Rightarrow> (nat \<times> bool) list \<Rightarrow> (nat \<times> bool) list"
  where "mark_released i cs = map (\<lambda>c. if fst c = i then (i, True) else c) cs"

definition limitConn_Close :: "nat \<Rightarrow> listener \<Rightarrow> listener"
  where "limitConn_Close i l =
    (case map_of (li_conns l) i of
       Some False \<Rightarrow> l\<lparr>li_sem := li_sem l - 1, li_conns := mark_released i (li_conns l)\<rparr>
     | _ \<Rightarrow> l)"

section \<open>One direction of a tunnel\<close>

datatype read_error = ReadOK | ReadDeadline | ReadEOF | ReadFailed

text \<open>One turn of the copy loop as its surroundings decide it: when the turn starts, when the read returns and with
  what, whether the write went through, and the tunnel's shared activity clock at the idle check.\<close>

record turn =
  tn_start :: int
  tn_read :: int
  tn_n :: nat
  tn_err :: read_error
  tn_written :: bool
  tn_idle :: int

datatype copy_end = Closed | HalfClosed | Running

fun copyIdle :: "int \<Rightarrow> int \<Rightarrow> bool \<Rightarrow> (int \<Rightarrow> bool) \<Rightarrow> int \<Rightarrow> turn list \<Rightarrow> copy_end \<times> int list"
  where
    "copyIdle idle poll closeWriter stillAllowed nextCheck [] = (Running, [])"
  | "copyIdle idle poll closeWriter stillAllowed nextCheck (t # ts) =
      (let due = (tn_start t \<ge> nextCheck);
           nextCheck = (if due then tn_start t + poll else nextCheck)
       in if due \<and> \<not> stillAllowed (tn_start t) then (Closed, [])
          else if tn_n t > 0 \<and> \<not> tn_written t then (Closed, [tn_read t])
          else (let sent = (if tn_n t > 0 then [tn_read t] else []);
                    (e, later) = (case tn_err t of
                        ReadOK \<Rightarrow> copyIdle idle poll closeWriter stillAllowed nextCheck ts
                      | ReadDeadline \<Rightarrow>
                          if tn_idle t < idle then copyIdle idle poll closeWriter stillAllowed nextCheck ts else (Closed, [])
                      | ReadEOF \<Rightarrow> (if closeWriter then HalfClosed else Closed, [])
                      | ReadFailed \<Rightarrow> (Closed, []))
                in (e, sent @ later)))"

end
