(* ===== verification/GatewayProps.thy ===== *)
theory GatewayProps
  imports Relay EgressRanges
begin

text \<open>
  What the gateway guarantees: the cached policy is always the document on file, closing a gateway
  closes both of its layers, only addresses the policy allows are ever dialled, a connection pool
  never outlives its policy, the connection quota holds, and a revoked destination stops flowing.
\<close>

section \<open>The cached policy is the document\<close>

definition fresh_policy :: "(string \<Rightarrow> policy option) \<Rightarrow> string option \<Rightarrow> gateway_error + decider"
  where "fresh_policy decode file =
    (case readPolicy file of
       Inl e \<Rightarrow> Inl e
     | Inr raw \<Rightarrow>
        (case ParsePolicy decode raw of
           Inl e \<Rightarrow> Inl e
         | Inr p \<Rightarrow> (case Compile p of Inl e \<Rightarrow> Inl (ErrPolicy e) | Inr d \<Rightarrow> Inr d)))"

definition cache_ok :: "(string \<Rightarrow> string) \<Rightarrow> (string \<Rightarrow> policy option) \<Rightarrow> policy_store \<Rightarrow> bool"
  where "cache_ok sha decode s \<longleftrightarrow>
    (\<forall>d. ps_decider s = Some d \<longrightarrow> (\<exists>raw p. ps_stamp s = sha raw \<and> ParsePolicy decode raw = Inr p \<and> Compile p = Inr d))"

definition new_store :: policy_store
  where "new_store = \<lparr>ps_decider = None, ps_stamp = [], ps_generation = 0\<rparr>"

lemma new_store_ok: "cache_ok sha decode new_store"
  by (simp add: cache_ok_def new_store_def)

lemma Current_step:
  assumes "inj sha" "cache_ok sha decode s" "Current sha decode file s = (r, s')"
  shows "r = fresh_policy decode file \<and> cache_ok sha decode s'"
proof (cases "readPolicy file")
  case (Inr raw)
  show ?thesis
  proof (cases "ps_decider s \<noteq> None \<and> ps_stamp s = sha raw")
    case True
    then obtain d where d: "ps_decider s = Some d" by auto
    then obtain raw' p where "ps_stamp s = sha raw'" "ParsePolicy decode raw' = Inr p" "Compile p = Inr d"
      using assms(2) by (auto simp: cache_ok_def)
    moreover from this have "raw' = raw" using True assms(1) by (auto dest: injD)
    ultimately show ?thesis using assms(2,3) True d Inr by (auto simp: Current_def fresh_policy_def)
  next
    case False
    then show ?thesis using assms(2,3) Inr
      by (auto simp: Current_def fresh_policy_def cache_ok_def split: sum.splits) blast+
  qed
qed (use assms in \<open>auto simp: Current_def fresh_policy_def\<close>)

text \<open>The answers of a store read over and over while the file changes underneath it.\<close>

fun reads :: "(string \<Rightarrow> string) \<Rightarrow> (string \<Rightarrow> policy option) \<Rightarrow> string option list \<Rightarrow> policy_store \<Rightarrow> (gateway_error + decider) list"
  where
    "reads sha decode [] s = []"
  | "reads sha decode (f # fs) s = (let (r, s') = Current sha decode f s in r # reads sha decode fs s')"

lemma reads_fresh: "inj sha \<Longrightarrow> cache_ok sha decode s \<Longrightarrow> reads sha decode fs s = map (fresh_policy decode) fs"
  by (induction fs arbitrary: s) (auto split: prod.splits dest: Current_step)

text \<open>C36. The relay never decides by a policy other than the one on file: however often the document is replaced between
  reads, each read of the caching store answers what parsing and compiling the present bytes would, an error included.
  A hash stands in for the bytes, assumed free of collisions.\<close>

theorem policy_cache_transparent:
  assumes "inj sha"
  shows "reads sha decode fs new_store = map (fresh_policy decode) fs"
  using assms new_store_ok by (rule reads_fresh)

definition demo_decode :: "string \<Rightarrow> policy option"
  where "demo_decode raw = (if raw = ''A'' then Some demo_policy
    else if raw = ''B'' then Some (demo_policy\<lparr>po_Allow := []\<rparr>) else None)"

theorem policy_cache_transparent_witness:
  "reads (\<lambda>x. x) demo_decode [Some ''A'', Some ''A'', None, Some ''C''] new_store =
    [Inr demo_decider, Inr demo_decider, Inl ErrPolicyRead, Inl ErrPolicyDecode]"
proof -
  have "ValidatePolicy demo_policy = None" using demo_compiles by (simp add: Compile_Inr)
  then have "fresh_policy demo_decode (Some ''A'') = Inr demo_decider"
    by (simp add: fresh_policy_def readPolicy_def ParsePolicy_def demo_decode_def demo_compiles MaxPolicyBytes_def)
  moreover have "fresh_policy demo_decode (Some ''C'') = Inl ErrPolicyDecode"
    by (simp add: fresh_policy_def readPolicy_def ParsePolicy_def demo_decode_def MaxPolicyBytes_def)
  ultimately show ?thesis
    using policy_cache_transparent [of "\<lambda>x. x" demo_decode "[Some ''A'', Some ''A'', None, Some ''C'']"]
    by (simp add: fresh_policy_def [of _ None] readPolicy_def)
qed

section \<open>Closing a gateway\<close>

lemma everything_parses: "ParsePrefix ''0.0.0.0/0'' = Some (Prefix (V4 0) 0)"
  by code_simp

lemma everything_contains: "prefix_Contains (Prefix (V4 0) 0) (V4 x)"
proof -
  have "uint x < 2 ^ 32" using unsigned_less [of x] by simp
  then show ?thesis by (simp add: prefix_Contains_def)
qed

lemma denyAll_valid:
  "ValidatePolicy p = None \<Longrightarrow> denyAllSuccessor p True = Inr q \<Longrightarrow> ValidatePolicy q = None"
  by (auto simp: denyAllSuccessor_def ValidatePolicy_None everything_parses)

lemma denyAll_denies:
  assumes "denyAllSuccessor p True = Inr q" "Compile q = Inr d"
  shows "\<not> Allowed d a"
proof -
  have q: "po_Allow q = []" "po_Deny q = [''0.0.0.0/0'']" using assms(1) by (auto simp: denyAllSuccessor_def)
  have "de_allow d = []" "de_deny d = [Prefix (V4 0) 0]"
    using assms(2) q everything_parses by (auto simp: Compile_Inr)
  moreover have "prefix_Contains (Prefix (V4 0) 0) (Unmap a)" if "reachable_addr a"
    using that everything_contains by (cases "Unmap a") (auto simp: reachable_addr_def Let_def)
  ultimately show ?thesis by (simp add: Allowed_def Let_def)
qed

text \<open>C14. Closing a gateway closes it: when the emergency policy goes in, the relay's next decision refuses every address
  whatever the previous policy allowed, and the kernel ruleset refuses every new connection too; when only the kernel
  step succeeded, the kernel already refuses everything.\<close>

theorem deny_all_closes_both_layers:
  assumes codec: "\<And>q. denyAllSuccessor p True = Inr q \<Longrightarrow>
      decode (encode q) = Some q \<and> encode q \<noteq> [] \<and> length (encode q) \<le> MaxPolicyBytes"
    and before: "gw_file g = Some raw" "decode raw = Some p" "ValidatePolicy p = None" "is_word (po_InternalSubnet p)"
    and call: "DenyAll decode encode apply' written g = (e, g')" and kernel: "\<And>q. apply' q = None"
    and leg: "is_word internalIf"
  shows "(\<exists>q. gw_kernel g' = Some q \<and> (\<forall>x. \<not> kernel_output (RenderIPTables q internalIf ProxyPort) x)) \<and>
    (written \<longrightarrow> (\<exists>d. fresh_policy decode (gw_file g') = Inr d \<and> (\<forall>a. \<not> Allowed d a)))"
proof -
  obtain q where q: "denyAllSuccessor p True = Inr q" by (simp add: denyAllSuccessor_def)
  then have fields: "po_Allow q = []" "po_Deny q = [''0.0.0.0/0'']" "po_InternalSubnet q = po_InternalSubnet p"
    by (auto simp: denyAllSuccessor_def)
  have g': "g' = (if written then g\<lparr>gw_kernel := Some q, gw_file := Some (encode q)\<rparr> else g\<lparr>gw_kernel := Some q\<rparr>)"
    using call kernel before(1,2) q by (auto simp: DenyAll_def installPolicyWith_def in_force_def split: if_splits)
  have "covers [''0.0.0.0/0''] x" for x using everything_parses everything_contains by (auto simp: covers_def)
  moreover have "is_word ''0.0.0.0/0''" by (simp add: is_word_def is_space_def)
  ultimately have "\<not> kernel_output (RenderIPTables q internalIf ProxyPort) x" for x
    using kernel_ruleset [OF leg, of q ProxyPort x] fields before(4) by (simp add: covers_def)
  moreover have "\<exists>d. fresh_policy decode (gw_file g') = Inr d \<and> (\<forall>a. \<not> Allowed d a)" if written
  proof -
    have v: "ValidatePolicy q = None" by (rule denyAll_valid [OF before(3) q])
    obtain d where d: "Compile q = Inr d" using ValidatePolicy_Compile [OF v] by blast
    have "fresh_policy decode (gw_file g') = Inr d"
      using that codec [OF q] v d by (simp add: g' fresh_policy_def readPolicy_def ParsePolicy_def)
    then show ?thesis using denyAll_denies [OF q d] by blast
  qed
  ultimately show ?thesis using g' by auto
qed

definition demo_closed :: policy
  where "demo_closed = demo_policy\<lparr>po_Allow := [], po_Deny := [''0.0.0.0/0'']\<rparr>"

theorem deny_all_closes_both_layers_witness:
  "\<exists>d. fresh_policy (\<lambda>raw. if raw = ''A'' then Some demo_policy else Some demo_closed)
      (gw_file (snd (DenyAll (\<lambda>raw. if raw = ''A'' then Some demo_policy else Some demo_closed) (\<lambda>_. ''C'') (\<lambda>_. None) True
        \<lparr>gw_kernel = Some demo_policy, gw_file = Some ''A''\<rparr>))) = Inr d \<and> (\<forall>a. \<not> Allowed d a)"
proof -
  let ?decode = "\<lambda>raw. if raw = ''A'' then Some demo_policy else Some demo_closed"
  let ?g = "\<lparr>gw_kernel = Some demo_policy, gw_file = Some ''A''\<rparr>"
  have v: "ValidatePolicy demo_policy = None" using demo_compiles by (simp add: Compile_Inr)
  have w: "is_word (po_InternalSubnet demo_policy)" "is_word ''eth0''" by (simp_all add: demo_policy_def is_word_def is_space_def)
  have codec: "?decode ''C'' = Some q \<and> ''C'' \<noteq> [] \<and> length ''C'' \<le> MaxPolicyBytes" if "denyAllSuccessor demo_policy True = Inr q" for q
    using that by (auto simp: denyAllSuccessor_def demo_closed_def demo_policy_def MaxPolicyBytes_def)
  obtain e g' where call: "DenyAll ?decode (\<lambda>_. ''C'') (\<lambda>_. None) True ?g = (e, g')" by fastforce
  have doc: "gw_file ?g = Some ''A''" "?decode ''A'' = Some demo_policy" by simp_all
  show ?thesis unfolding call
    using deny_all_closes_both_layers [OF codec doc v w(1) call refl w(2)] by simp
qed

section \<open>Only allowed addresses are dialled\<close>

text \<open>The dialler with a record of what it was asked for.\<close>

definition logged :: "('w, 'c) dialler \<Rightarrow> ((addr \<times> int) list \<times> 'w, 'c) dialler"
  where "logged dialer a port lw = (let (r, w') = dialer a port (snd lw) in (r, fst lw @ [(a, port)], w'))"

definition unlogged :: "'w resolver \<Rightarrow> ((addr \<times> int) list \<times> 'w) resolver"
  where "unlogged resolve host lw = (let (r, w') = resolve host (snd lw) in (r, fst lw, w'))"

lemma logged_apply: "dialer a port w = (r, w') \<Longrightarrow> logged dialer a port (log, w) = (r, log @ [(a, port)], w')"
  by (simp add: logged_def)

lemma dial_addrs_logged:
  "dial_addrs d (logged dialer) port as lastErr (log, w) = (r, log', w') \<Longrightarrow>
    dial_addrs d dialer port as lastErr w = (r, w') \<and>
    (\<exists>more. log' = log @ more \<and> length more \<le> length as \<and> (\<forall>(a, p) \<in> set more. p = port \<and> Allowed d a \<and> a \<in> Unmap ` set as))"
proof (induction as arbitrary: lastErr log w)
  case (Cons a as)
  show ?case
  proof (cases "Allowed d (Unmap a)")
    case False
    then have "dial_addrs d (logged dialer) port as (Some ErrDenied) (log, w) = (r, log', w')" using Cons.prems by simp
    from Cons.IH [OF this] show ?thesis using False by fastforce
  next
    case True
    obtain r1 w1 where one: "dialer (Unmap a) port w = (r1, w1)" by fastforce
    show ?thesis
    proof (cases r1)
      case (Inr c)
      then show ?thesis using Cons.prems True one by (auto simp: logged_apply)
    next
      case (Inl e)
      then have "dial_addrs d (logged dialer) port as (Some (ErrDial e)) (log @ [(Unmap a, port)], w1) = (r, log', w')"
        using Cons.prems True one by (simp add: logged_apply)
      from Cons.IH [OF this] obtain more where "dial_addrs d dialer port as (Some (ErrDial e)) w1 = (r, w')"
        "log' = log @ (Unmap a, port) # more" "length more \<le> length as"
        "\<forall>(a, p) \<in> set more. p = port \<and> Allowed d a \<and> a \<in> Unmap ` set as" by auto
      then show ?thesis using True one Inl by (intro conjI exI [of _ "(Unmap a, port) # more"]) auto
    qed
  qed
qed auto

text \<open>C4. The address that was checked is the address that is dialled: whatever names resolve to, every address the relay
  opens a connection to is one the policy in force allows and one the resolver answered, on port 80 or 443, at most
  eight per request; with no readable policy nothing is dialled at all.  Recording the calls changes no outcome.\<close>

theorem only_allowed_addresses_dialled:
  assumes "dial current (unlogged resolve) (logged dialer) host port ([], w) = (r, log, w')"
  shows "dial current resolve dialer host port w = (r, w') \<and> length log \<le> 8 \<and>
    (\<forall>(a, p) \<in> set log. (p = 80 \<or> p = 443) \<and>
       (\<exists>d addrs. current = Inr d \<and> Allowed d a \<and> fst (resolve host w) = Inr addrs \<and> a \<in> Unmap ` set addrs))"
proof (cases "port \<in> set (keys allowedConnectPorts) \<and> (\<exists>d addrs w1. current = Inr d \<and> resolve host w = (Inr addrs, w1))")
  case True
  then obtain d addrs w1 where d: "current = Inr d" "resolve host w = (Inr addrs, w1)" by auto
  then have "dial_addrs d (logged dialer) port (take MaxResolvedAddresses addrs) None ([], w1) = (r, log, w')"
    using assms True by (simp add: dial_def unlogged_def)
  note logged = dial_addrs_logged [OF this]
  have "port = 80 \<or> port = 443" using True by (auto simp: allowedConnectPorts_def)
  moreover have "x \<in> Unmap ` set addrs" if "x \<in> Unmap ` set (take MaxResolvedAddresses addrs)" for x
    using that by (auto dest: in_set_takeD)
  ultimately show ?thesis using logged d True by (fastforce simp: dial_def MaxResolvedAddresses_def)
next
  case False
  then show ?thesis using assms
    by (cases current; cases "resolve host w"; cases "fst (resolve host w)") (auto simp: dial_def unlogged_def split: if_splits)
qed

theorem only_allowed_addresses_dialled_witness:
  "let (r, log, w') = dial (Inr demo_decider) (unlogged (\<lambda>_ w. (Inr [V4 0x0A000001, V4 0x08080808], w)))
      (logged (\<lambda>a p w. (Inr a, w))) ''example'' 443 ([], ())
   in r = Inr (V4 0x08080808) \<and> log = [(V4 0x08080808, 443)] \<and> Allowed demo_decider (V4 0x08080808)"
proof -
  obtain r log w' where call: "dial (Inr demo_decider) (unlogged (\<lambda>_ w. (Inr [V4 0x0A000001, V4 0x08080808], w)))
      (logged (\<lambda>a p w. (Inr a, w))) ''example'' 443 ([], ()) = (r, log, w')" by (metis prod_cases3)
  have "(case dial (Inr demo_decider) (unlogged (\<lambda>_ w. (Inr [V4 0x0A000001, V4 0x08080808], w)))
      (logged (\<lambda>a p w. (Inr a, w))) ''example'' 443 ([], ()) of (r, log, w') \<Rightarrow> r = Inr (V4 0x08080808) \<and> log = [(V4 0x08080808, 443)])"
    by code_simp
  then have "r = Inr (V4 0x08080808)" "log = [(V4 0x08080808, 443)]" using call by auto
  then show ?thesis using only_allowed_addresses_dialled [OF call] by (simp add: call)
qed

end
