(* ===== verification/RelayProps.thy ===== *)
theory RelayProps
  imports GatewayProps
begin

text \<open>
  The relay's shared resources: a pool of connections belongs to one policy, the connection quota
  is never exceeded, hop-by-hop headers never cross, and a transfer to a revoked destination ends.
\<close>

section \<open>A pool belongs to one policy\<close>

text \<open>A pool is never ahead of the policies installed, and transports are numbered as they are made.\<close>

definition relay_pool_ok :: "policy_store \<Rightarrow> relay \<Rightarrow> bool"
  where "relay_pool_ok s r \<longleftrightarrow> (\<forall>cur. rl_pool r = Some cur \<longrightarrow> pl_gen cur \<le> ps_generation s \<and> pl_transport cur < rl_transports r)"

lemma Current_generation:
  "Current sha decode file s = (Inr d, s') \<Longrightarrow>
    s' = s \<and> ps_decider s = Some d \<or> ps_generation s' = ps_generation s + 1 \<and> ps_decider s' = Some d"
  by (auto simp: Current_def split: sum.splits if_splits)

lemma Current_error: "Current sha decode file s = (Inl e, s') \<Longrightarrow> s' = s"
  by (auto simp: Current_def split: sum.splits if_splits)

lemma word_succ_less: "g < - 1 \<Longrightarrow> g < g + 1" for g :: "64 word"
  by unat_arith

lemma poolAt_cases:
  assumes "poolAt g r = (q, r')"
  shows "rl_pool r = Some q \<and> r' = r \<and> (pl_gen q = g \<or> 0 < g \<and> g < pl_gen q) \<or>
    q = \<lparr>pl_gen = g, pl_transport = rl_transports r\<rparr> \<and> r' = r\<lparr>rl_pool := Some q, rl_transports := rl_transports r + 1\<rparr>"
  using assms by (auto simp: poolAt_def Let_def split: option.splits if_splits)

lemma poolAt_spec:
  assumes "poolAt g r = (q, r')" "relay_pool_ok s r" "g \<le> ps_generation s" "\<And>c. rl_pool r = Some c \<Longrightarrow> g > 0 \<Longrightarrow> pl_gen c \<le> g"
  shows "relay_pool_ok s r' \<and> rl_pool r' = Some q \<and> pl_gen q = g \<and> (pl_transport q = rl_transports r \<or> rl_pool r = Some q)"
  using poolAt_cases [OF assms(1)]
proof
  assume keep: "rl_pool r = Some q \<and> r' = r \<and> (pl_gen q = g \<or> 0 < g \<and> g < pl_gen q)"
  then have "pl_gen q = g" using assms(4) [of q] by (auto dest: leD)
  then show ?thesis using keep assms(2) by simp
next
  assume "q = \<lparr>pl_gen = g, pl_transport = rl_transports r\<rparr> \<and> r' = r\<lparr>rl_pool := Some q, rl_transports := rl_transports r + 1\<rparr>"
  then show ?thesis using assms(3) by (simp add: relay_pool_ok_def)
qed

text \<open>A connection authorised by one policy is never reused under another: the pool a request is given belongs to the
  policy on file at that moment, and when that policy was installed since the last request its transport is a new one
  that holds no connection yet; without a readable policy the pool is the one of generation zero, under which nothing
  was authorised.\<close>

theorem pool_follows_the_policy:
  assumes ok: "relay_pool_ok s r" "ps_generation s < - 1"
    and call: "transportInForce sha decode file s r = (p, s', r')"
  shows "relay_pool_ok s' r' \<and> rl_pool r' = Some p \<and>
    (case fst (Current sha decode file s) of
       Inl _ \<Rightarrow> pl_gen p = 0
     | Inr d \<Rightarrow> ps_decider s' = Some d \<and> pl_gen p = ps_generation s' \<and> (s' \<noteq> s \<longrightarrow> pl_transport p = rl_transports r))"
proof -
  obtain a s1 where cur: "Current sha decode file s = (a, s1)" by fastforce
  show ?thesis
  proof (cases a)
    case (Inl e)
    then have "s1 = s" using cur Current_error by blast
    moreover from this have "poolAt 0 r = (p, r')" "s' = s" using call cur Inl
      by (auto simp: transportInForce_def split: prod.splits)
    moreover have "(0 :: 64 word) \<le> g" for g by simp
    ultimately show ?thesis using poolAt_spec [of 0 r p r' s] ok(1) cur Inl by simp
  next
    case (Inr d)
    have step: "s1 = s \<and> ps_decider s = Some d \<or> ps_generation s1 = ps_generation s + 1 \<and> ps_decider s1 = Some d"
      using Current_generation cur Inr by blast
    have le: "ps_generation s \<le> ps_generation s1" using step word_succ_less [OF ok(2)] by (auto intro: less_imp_le)
    have older: "relay_pool_ok s1 r" using ok(1) le by (auto simp: relay_pool_ok_def)
    have below: "pl_gen c \<le> ps_generation s1" if "rl_pool r = Some c" for c using that ok(1) le by (auto simp: relay_pool_ok_def)
    have strict: "pl_gen c \<noteq> ps_generation s1" if "rl_pool r = Some c" "s1 \<noteq> s" for c
      using that ok(1) step word_succ_less [OF ok(2)] by (auto simp: relay_pool_ok_def)
    have "poolAt (ps_generation s1) r = (p, r')" "s' = s1" using call cur Inr
      by (auto simp: transportInForce_def Generation_def split: prod.splits)
    moreover from this have pool: "relay_pool_ok s1 r' \<and> rl_pool r' = Some p \<and> pl_gen p = ps_generation s1 \<and>
        (pl_transport p = rl_transports r \<or> rl_pool r = Some p)"
      using poolAt_spec [of "ps_generation s1" r p r' s1] older ok(1) below by blast
    ultimately show ?thesis using strict [of p] step cur Inr by auto
  qed
qed

theorem pool_follows_the_policy_witness:
  "let (p, s', r') = transportInForce (\<lambda>x. x) demo_decode (Some ''A'') new_store \<lparr>rl_pool = None, rl_transports = 0\<rparr>
   in pl_gen p = 1 \<and> ps_decider s' = Some demo_decider"
proof -
  let ?r = "\<lparr>rl_pool = None, rl_transports = 0\<rparr>"
  obtain p s' r' where call: "transportInForce (\<lambda>x. x) demo_decode (Some ''A'') new_store ?r = (p, s', r')" by (metis prod_cases3)
  have "ValidatePolicy demo_policy = None" using demo_compiles by (simp add: Compile_Inr)
  then have cur: "Current (\<lambda>x. x) demo_decode (Some ''A'') new_store =
      (Inr demo_decider, new_store\<lparr>ps_decider := Some demo_decider, ps_stamp := ''A'', ps_generation := 1\<rparr>)"
    by (simp add: Current_def readPolicy_def new_store_def ParsePolicy_def demo_decode_def demo_compiles MaxPolicyBytes_def)
  then have "ps_generation s' = 1" using call by (auto simp: transportInForce_def split: prod.splits)
  moreover have "relay_pool_ok new_store ?r" "ps_generation new_store < - 1"
    by (simp_all add: relay_pool_ok_def new_store_def) code_simp
  ultimately show ?thesis using pool_follows_the_policy [OF _ _ call] cur by (simp add: call)
qed

section \<open>The quota\<close>

inductive serving :: "listener \<Rightarrow> bool"
  where
    fresh: "serving \<lparr>li_sem = 0, li_conns = []\<rparr>"
  | accept: "serving l \<Longrightarrow> i \<notin> fst ` set (li_conns l) \<Longrightarrow> serving (snd (listener_Accept i l))"
  | close: "serving l \<Longrightarrow> serving (limitConn_Close i l)"

definition open_connections :: "listener \<Rightarrow> nat list"
  where "open_connections l = map fst (filter (\<lambda>(_, released). \<not> released) (li_conns l))"

definition quota_ok :: "listener \<Rightarrow> bool"
  where "quota_ok l \<longleftrightarrow> distinct (map fst (li_conns l)) \<and> li_sem l = length (open_connections l) \<and> li_sem l \<le> MaxProxyConnections"

lemma mark_released_fst [simp]: "map fst (mark_released i cs) = map fst cs"
  by (induction cs) (auto simp: mark_released_def)

lemma mark_released_map_of: "map_of (mark_released i cs) i = map_option (\<lambda>_. True) (map_of cs i)"
  by (induction cs) (auto simp: mark_released_def)

lemma mark_released_absent: "i \<notin> set (map fst cs) \<Longrightarrow> mark_released i cs = cs"
  by (induction cs) (auto simp: mark_released_def)

lemma release_one:
  "distinct (map fst cs) \<Longrightarrow> map_of cs i = Some False \<Longrightarrow>
    length (filter (\<lambda>(_, r). \<not> r) cs) = Suc (length (filter (\<lambda>(_, r). \<not> r) (mark_released i cs)))"
proof (induction cs)
  case (Cons c cs)
  show ?case
  proof (cases "fst c = i")
    case True
    then have "mark_released i (c # cs) = (i, True) # cs"
      using Cons.prems(1) mark_released_absent [of i cs] by (simp add: mark_released_def)
    then show ?thesis using Cons.prems(2) True by (cases c) simp
  next
    case False
    then have "mark_released i (c # cs) = c # mark_released i cs" by (simp add: mark_released_def)
    then show ?thesis using Cons False by (cases c) auto
  qed
qed simp

lemma serving_quota: "serving l \<Longrightarrow> quota_ok l"
proof (induction rule: serving.induct)
  case (accept l i)
  then show ?case by (auto simp: quota_ok_def listener_Accept_def open_connections_def)
next
  case (close l i)
  show ?case
  proof (cases "map_of (li_conns l) i = Some False")
    case True
    then show ?thesis using close.IH release_one [OF _ True] by (simp add: quota_ok_def limitConn_Close_def open_connections_def)
  next
    case False
    then have "limitConn_Close i l = l" by (auto simp: limitConn_Close_def split: option.splits bool.splits)
    then show ?thesis using close.IH by simp
  qed
qed (simp add: quota_ok_def open_connections_def)

text \<open>However a job opens and closes connections, the relay holds at most 256 of them: the semaphore always equals the
  number of connections not yet closed, a connection is let in exactly when that number is below the bound, and
  closing one twice gives its place back once.\<close>

theorem relay_quota:
  assumes "serving l"
  shows "li_sem l = length (open_connections l) \<and> length (open_connections l) \<le> 256 \<and>
    (fst (listener_Accept i l) \<longleftrightarrow> length (open_connections l) < 256) \<and>
    limitConn_Close i (limitConn_Close i l) = limitConn_Close i l"
proof -
  have "limitConn_Close i (limitConn_Close i l) = limitConn_Close i l"
    by (simp add: limitConn_Close_def mark_released_map_of split: option.splits bool.splits)
  then show ?thesis using serving_quota [OF assms] by (simp add: quota_ok_def listener_Accept_def MaxProxyConnections_def)
qed

theorem relay_quota_witness:
  "let l = limitConn_Close 7 (snd (listener_Accept 8 (snd (listener_Accept 7 \<lparr>li_sem = 0, li_conns = []\<rparr>)))) in
    li_sem l = 1 \<and> limitConn_Close 7 l = l"
proof -
  let ?l = "snd (listener_Accept 8 (snd (listener_Accept 7 \<lparr>li_sem = 0, li_conns = []\<rparr>)))"
  have "serving ?l" by (intro serving.intros) (simp_all add: listener_Accept_def MaxProxyConnections_def)
  then show ?thesis using relay_quota [of ?l 7] relay_quota [OF serving.close [of ?l 7], of 7] by (simp add: Let_def) code_simp
qed

section \<open>Headers of one hop\<close>

lemma fold_header_Del: "fold header_Del ns h = filter (\<lambda>(k, _). k \<notin> canonical_key ` set ns) h"
proof (induction ns arbitrary: h)
  case (Cons n ns)
  show ?case unfolding fold_Cons o_apply Cons.IH by (auto simp: header_Del_def intro: filter_cong)
qed simp

text \<open>What describes one hop does not cross it: of a message's headers exactly those survive that are neither in the
  hop-by-hop list nor named by its own \<^verbatim>\<open>Connection\<close> header, in their order and with their values, whatever letter
  case the message used for a name.\<close>

theorem hop_by_hop_stripped:
  "stripHopByHop h = filter (\<lambda>(k, _). k \<notin> canonical_key ` (set hopByHop \<union> set (connection_named h))) h"
  unfolding stripHopByHop_def fold_header_Del by (auto simp: image_Un intro: filter_cong)

section \<open>A revoked destination stops flowing\<close>

lemma copyIdle_revoked:
  assumes poll: "0 < poll" and revoked: "\<forall>t \<ge> T. \<not> stillAllowed t"
  shows "(\<forall>t \<in> set ts. tn_read t \<le> tn_start t + poll) \<Longrightarrow> nextCheck \<le> T + poll \<Longrightarrow>
    (\<forall>f \<in> set (snd (copyIdle idle poll closeWriter stillAllowed nextCheck ts)). f < T + 2 * poll) \<and>
    ((\<exists>t \<in> set ts. T + poll \<le> tn_start t) \<longrightarrow> fst (copyIdle idle poll closeWriter stillAllowed nextCheck ts) \<noteq> Running)"
proof (induction ts arbitrary: nextCheck)
  case (Cons t ts)
  define due where "due = (tn_start t \<ge> nextCheck)"
  define next' where "next' = (if due then tn_start t + poll else nextCheck)"
  let ?rest = "copyIdle idle poll closeWriter stillAllowed next' ts"
  have eq: "copyIdle idle poll closeWriter stillAllowed nextCheck (t # ts) =
      (if due \<and> \<not> stillAllowed (tn_start t) then (Closed, [])
       else if tn_n t > 0 \<and> \<not> tn_written t then (Closed, [tn_read t])
       else (let sent = (if tn_n t > 0 then [tn_read t] else []);
                 (e, later) = (case tn_err t of ReadOK \<Rightarrow> ?rest
                   | ReadDeadline \<Rightarrow> if tn_idle t < idle then ?rest else (Closed, [])
                   | ReadEOF \<Rightarrow> (if closeWriter then HalfClosed else Closed, [])
                   | ReadFailed \<Rightarrow> (Closed, []))
             in (e, sent @ later)))"
    unfolding copyIdle.simps(2) due_def next'_def Let_def by (rule refl)
  show ?case
  proof (cases "due \<and> \<not> stillAllowed (tn_start t)")
    case False
    then have "tn_start t < T" if due using revoked that by (meson not_le)
    then have early: "tn_start t < T + poll" and next': "next' \<le> T + poll"
      using Cons.prems(2) poll by (fastforce simp: due_def next'_def)+
    then have sent: "tn_read t < T + 2 * poll" using Cons.prems(1) by auto
    have IH: "(\<forall>f \<in> set (snd ?rest). f < T + 2 * poll) \<and> ((\<exists>t \<in> set ts. T + poll \<le> tn_start t) \<longrightarrow> fst ?rest \<noteq> Running)"
      using Cons.IH [OF _ next'] Cons.prems(1) by simp
    show ?thesis unfolding eq using False early sent IH
      by (cases "tn_err t") (auto simp: Let_def split: prod.splits)
  next
    case True
    then show ?thesis unfolding eq by simp
  qed
qed simp

text \<open>A tunnel does not outlive the permission that opened it: once the policy stops allowing the destination, no
  byte is forwarded two poll intervals or more after that moment, however busy the connection is, and the loop ends no
  later than the first turn that starts one interval after it.\<close>

theorem revoked_transfer_stops:
  assumes "0 < poll" and "0 \<le> T" and "\<forall>t \<ge> T. \<not> stillAllowed t"
    and "\<forall>t \<in> set ts. tn_read t \<le> tn_start t + poll"
  shows "(\<forall>f \<in> set (snd (copyIdle idle poll closeWriter stillAllowed poll ts)). f < T + 2 * poll) \<and>
    ((\<exists>t \<in> set ts. T + poll \<le> tn_start t) \<longrightarrow> fst (copyIdle idle poll closeWriter stillAllowed poll ts) \<noteq> Running)"
  using copyIdle_revoked [OF assms(1,3,4), of poll] assms(2) by simp

definition demo_turns :: "turn list"
  where "demo_turns = map (\<lambda>s. \<lparr>tn_start = s, tn_read = s + 1, tn_n = 10, tn_err = ReadOK, tn_written = True, tn_idle = 0\<rparr>)
    [0, 20, 40, 60, 80]"

theorem revoked_transfer_stops_witness:
  "fst (copyIdle 600 30 True (\<lambda>t. t < 35) 30 demo_turns) \<noteq> Running \<and>
   snd (copyIdle 600 30 True (\<lambda>t. t < 35) 30 demo_turns) = [1, 21]"
proof -
  have turns: "\<forall>t \<in> set demo_turns. tn_read t \<le> tn_start t + 30" by (simp add: demo_turns_def)
  have "\<exists>t \<in> set demo_turns. 35 + 30 \<le> tn_start t" by (simp add: demo_turns_def)
  then have "fst (copyIdle 600 30 True (\<lambda>t. t < 35) 30 demo_turns) \<noteq> Running"
    using revoked_transfer_stops [of 30 35 "\<lambda>t. t < 35" demo_turns 600 True] turns by simp
  moreover have "snd (copyIdle 600 30 True (\<lambda>t. t < 35) 30 demo_turns) = [1, 21]" by code_simp
  ultimately show ?thesis by blast
qed

end
