(* ===== verification/DnsRelay.thy ===== *)
theory DnsRelay
  imports GoText
begin

unbundle bit_operations_syntax

text \<open>
  The capsule's resolver of \<^verbatim>\<open>internal/gateway/dns.go\<close>: a bounded relay of DNS messages over datagrams
  and over length-prefixed streams.  Messages are lists of bytes; the upstream resolver is a
  parameter over its own state.
\<close>

type_synonym byte = "8 word"

definition MaxDNSInFlight :: nat where "MaxDNSInFlight = 64"
definition MaxDNSMessage :: nat where "MaxDNSMessage = 4096"
definition MaxDNSMessageTCP :: nat where "MaxDNSMessageTCP = 65535"
definition MinDNSMessage :: nat where "MinDNSMessage = 12"

text \<open>\<^verbatim>\<open>binary.BigEndian\<close> on two bytes.\<close>

definition be16 :: "byte \<Rightarrow> byte \<Rightarrow> 16 word"
  where "be16 hi lo = push_bit 8 (ucast hi) OR ucast lo"

definition put16 :: "16 word \<Rightarrow> byte list"
  where "put16 w = [ucast (drop_bit 8 w), ucast w]"

definition plausibleQuery :: "byte list \<Rightarrow> bool"
  where "plausibleQuery msg =
    (if length msg < MinDNSMessage then False
     else be16 (msg ! 4) (msg ! 5) > 0 \<or> be16 (msg ! 6) (msg ! 7) > 0)"

definition transaction :: "byte list \<Rightarrow> 16 word"
  where "transaction msg = be16 (msg ! 0) (msg ! 1)"

section \<open>Datagrams\<close>

text \<open>What \<^verbatim>\<open>serveUDP\<close> does with one datagram, given how many queries are in flight: a buffer one byte over the bound
  makes an oversized datagram visible.\<close>

definition accept_query :: "byte list \<Rightarrow> nat \<Rightarrow> byte list option"
  where "accept_query datagram inFlight =
    (let buf = take (MaxDNSMessage + 1) datagram in
     if length buf > MaxDNSMessage \<or> \<not> plausibleQuery buf then None
     else if inFlight \<ge> MaxDNSInFlight then None
     else Some buf)"

datatype dns_error = UpstreamFailed | AnswerTooLong | NotDNS | WrongTransaction | OutOfBounds | ShortRead

definition exchangeUDP :: "(byte list \<Rightarrow> 'w \<Rightarrow> byte list option \<times> 'w) \<Rightarrow> byte list \<Rightarrow> 'w \<Rightarrow> (dns_error + byte list) \<times> 'w"
  where "exchangeUDP upstream query w =
    (case upstream query w of
       (None, w') \<Rightarrow> (Inl UpstreamFailed, w')
     | (Some datagram, w') \<Rightarrow>
        (let answer = take (MaxDNSMessage + 1) datagram in
         if length answer > MaxDNSMessage then (Inl AnswerTooLong, w')
         else if \<not> plausibleQuery answer then (Inl NotDNS, w')
         else if transaction answer \<noteq> transaction query then (Inl WrongTransaction, w')
         else (Inr answer, w')))"

section \<open>Streams\<close>

definition readDNSMessage :: "byte list \<Rightarrow> dns_error + byte list \<times> byte list"
  where "readDNSMessage r =
    (if length r < 2 then Inl ShortRead
     else (let n = unat (be16 (r ! 0) (r ! 1)); body = drop 2 r in
       if n < MinDNSMessage \<or> n > MaxDNSMessageTCP then Inl OutOfBounds
       else if length body < n then Inl ShortRead
       else if \<not> plausibleQuery (take n body) then Inl NotDNS
       else Inr (take n body, drop n body)))"

definition writeDNSMessage :: "byte list \<Rightarrow> byte list"
  where "writeDNSMessage msg = put16 (of_nat (length msg)) @ msg"

text \<open>A connection: what the client sent is a byte stream, and the answer to each query comes back as a message or not
  at all; the first failure ends the connection.\<close>

function serveTCPConn :: "(byte list \<Rightarrow> 'w \<Rightarrow> byte list option \<times> 'w) \<Rightarrow> byte list \<Rightarrow> 'w \<Rightarrow> byte list list \<times> 'w"
  where "serveTCPConn exchange client w =
    (case readDNSMessage client of
       Inl _ \<Rightarrow> ([], w)
     | Inr (query, rest) \<Rightarrow>
        (case exchange query w of
           (None, w') \<Rightarrow> ([], w')
         | (Some answer, w') \<Rightarrow>
            if transaction answer \<noteq> transaction query then ([], w')
            else (let (later, w'') = serveTCPConn exchange rest w' in (writeDNSMessage answer # later, w''))))"
  by pat_completeness auto

lemma readDNSMessage_shrinks: "readDNSMessage r = Inr (m, rest) \<Longrightarrow> length rest < length r"
  by (auto simp: readDNSMessage_def Let_def split: if_splits)

termination serveTCPConn
  by (relation "measure (\<lambda>(_, client, _). length client)") (auto dest: readDNSMessage_shrinks)

declare serveTCPConn.simps [simp del]

section \<open>Framing reads back\<close>

lemma be16_put16: "be16 (ucast (drop_bit 8 w)) (ucast w) = w"
  unfolding be16_def by (intro bit_word_eqI) (auto simp: bit_simps)

lemma readDNSMessage_frame:
  assumes "length msg \<le> MaxDNSMessageTCP" "plausibleQuery msg"
  shows "readDNSMessage (writeDNSMessage msg @ rest) = Inr (msg, rest)"
proof -
  have "MinDNSMessage \<le> length msg" using assms(2) by (auto simp: plausibleQuery_def split: if_splits)
  moreover have "unat (of_nat (length msg) :: 16 word) = length msg"
    using assms(1) by (simp add: MaxDNSMessageTCP_def unsigned_of_nat take_bit_nat_eq_self)
  ultimately show ?thesis using assms by (simp add: readDNSMessage_def writeDNSMessage_def put16_def be16_put16 numeral_2_eq_2)
qed


definition demo_query :: "byte list"
  where "demo_query = [7, 9, 1, 0, 0, 1, 0, 0, 0, 0, 0, 0]"


end
