(* ===== verification/CacheGC.thy ===== *)
theory CacheGC
  imports Engine StoreResources
begin

text \<open>
  Cache lanes over the store and the daemon (\<^verbatim>\<open>internal/cache/cache.go\<close>, \<^verbatim>\<open>gc.go\<close>): acquiring a lane,
  deleting one, planning a collection and running it.  The daemon is the Moby client of the engine
  adapter; times of the store are seconds, durations and instants of the plan are nanoseconds.
\<close>

section \<open>Lanes\<close>

definition LabelProject :: string where "LabelProject = ''io.runpool.cache.project''"
definition LabelGen :: string where "LabelGen = ''io.runpool.cache.generation''"
definition LabelLane :: string where "LabelLane = ''io.runpool.cache.lane''"

definition VolumeName :: "string \<Rightarrow> string"
  where "VolumeName laneID = ''runpool-cache-'' @ laneID"

record lane_mount =
  lm_Volume :: string
  lm_ProjectID :: string
  lm_LaneID :: string
  lm_Generation :: string

datatype cache_error = StoreError store_error | EngineError engine_error

text \<open>Fresh identifiers for a project and a lane are arguments; the answer \<^verbatim>\<open>ok=false\<close> without an error is
  \<^const>\<open>None\<close>.\<close>

definition Acquire ::
  "'w moby \<Rightarrow> instance_id \<Rightarrow> string \<Rightarrow> string \<Rightarrow> string \<Rightarrow> string \<Rightarrow> lease_id \<Rightarrow> int \<Rightarrow> store \<times> 'w
    \<Rightarrow> (cache_error + lane_mount option) \<times> store \<times> 'w"
  where "Acquire cli instanceID newProject newLane sourceProjectKey generation leaseID maxLanes sw =
    (case sw of (s, w) \<Rightarrow>
      case Tx (andThen (EnsureCacheProject newProject sourceProjectKey) (\<lambda>projectID.
              andThen (LeaseCacheLane newLane projectID generation leaseID maxLanes) (\<lambda>laneID. ret (projectID, laneID)))) s of
        (Inl e, s') \<Rightarrow> if e = ErrNoLane then (Inr None, s', w) else (Inl (StoreError e), s', w)
      | (Inr (projectID, laneID), s') \<Rightarrow>
          (let name = VolumeName laneID;
               labels = Labels (no_ownership\<lparr>ow_Instance := instanceID, ow_Role := RoleCacheLane\<rparr>) @
                 [(LabelProject, projectID), (LabelGen, generation), (LabelLane, laneID)]
           in case EnsureOwnedVolume cli name labels w of
                (Some e, w') \<Rightarrow>
                  (case Tx (ReleaseCacheLane leaseID) s' of (_, s'') \<Rightarrow> (Inl (EngineError e), s'', w'))
              | (None, w') \<Rightarrow>
                  (Inr (Some \<lparr>lm_Volume = name, lm_ProjectID = projectID, lm_LaneID = laneID, lm_Generation = generation\<rparr>), s', w')))"

text \<open>Ownership of a volume is proven before it is removed; an absent one is removed again without harm.\<close>

definition removeOrphanVolume :: "'w moby \<Rightarrow> instance_id \<Rightarrow> string \<Rightarrow> 'w \<Rightarrow> engine_error option \<times> 'w"
  where "removeOrphanVolume cli instanceID name w =
    (case OwnedIDByName cli KindVolume name instanceID [] w of
       (Inl e, w') \<Rightarrow> (Some e, w')
     | (Inr _, w') \<Rightarrow> RemoveVolume cli name w')"

definition DeleteLane :: "'w moby \<Rightarrow> instance_id \<Rightarrow> string \<Rightarrow> store \<times> 'w \<Rightarrow> cache_error option \<times> store \<times> 'w"
  where "DeleteLane cli instanceID laneID sw =
    (case sw of (s, w) \<Rightarrow>
      case Tx (DeleteCacheLane laneID) s of
        (Inl e, s') \<Rightarrow> (Some (StoreError e), s', w)
      | (Inr _, s') \<Rightarrow>
          (case OwnedIDByName cli KindVolume (VolumeName laneID) instanceID [] w of
             (Inl e, w') \<Rightarrow> (Some (EngineError e), s', w')
           | (Inr _, w') \<Rightarrow>
               (case RemoveVolume cli (VolumeName laneID) w' of (e, w'') \<Rightarrow> (map_option EngineError e, s', w''))))"

section \<open>Planning\<close>

record gc_options =
  go_TTL :: int
  go_TargetBytes :: int
  go_AllFree :: bool
  go_Now :: int

record eviction =
  ec_LaneID :: string
  ec_Volume :: string
  ec_SourceProjectKey :: string
  ec_Generation :: string
  ec_Reason :: string
  ec_Bytes :: int
  ec_Orphan :: bool

record gc_plan =
  gp_Evictions :: "eviction list"
  gp_ManagedBytes :: int
  gp_KeptBytes :: int

definition clamp_size :: "volume_usage \<Rightarrow> int"
  where "clamp_size u = (if vu_Size u < 0 then 0 else vu_Size u)"

definition lane_volumes :: "volume_usage list \<Rightarrow> volume_usage list"
  where "lane_volumes usage = filter (\<lambda>u. vu_Role u = RoleCacheLane) usage"

text \<open>The map \<^verbatim>\<open>sizes\<close>: a later volume of the same lane overwrites an earlier one, an absent lane reads zero.\<close>

definition sizes :: "volume_usage list \<Rightarrow> string \<Rightarrow> int"
  where "sizes usage =
    fold (\<lambda>u m. if label (vu_Labels u) LabelLane \<noteq> [] then m(label (vu_Labels u) LabelLane := clamp_size u) else m)
      (lane_volumes usage) (\<lambda>_. 0)"

definition orphans :: "volume_usage list \<Rightarrow> string list \<Rightarrow> (string, int) gomap"
  where "orphans usage known =
    fold (\<lambda>u m. let lane = label (vu_Labels u) LabelLane in
        if lane \<noteq> [] \<and> lane \<notin> set known then AList.update (vu_Name u) (sizes usage lane) m else m) (lane_volumes usage)
     (fold (\<lambda>u m. if label (vu_Labels u) LabelLane \<noteq> [] then m else AList.update (vu_Name u) (clamp_size u) m)
        (lane_volumes usage) [])"

definition evict :: "(string \<Rightarrow> int) \<Rightarrow> string \<Rightarrow> cache_lane_info \<Rightarrow> eviction"
  where "evict sz reason lane = \<lparr>ec_LaneID = ci_ID lane, ec_Volume = VolumeName (ci_ID lane),
    ec_SourceProjectKey = ci_SourceProjectKey lane, ec_Generation = ci_Generation lane, ec_Reason = reason,
    ec_Bytes = sz (ci_ID lane), ec_Orphan = False\<rparr>"

definition orphan_eviction :: "string \<times> int \<Rightarrow> eviction"
  where "orphan_eviction v = \<lparr>ec_LaneID = [], ec_Volume = fst v, ec_SourceProjectKey = [], ec_Generation = [],
    ec_Reason = ''orphan'', ec_Bytes = snd v, ec_Orphan = True\<rparr>"

fun lru_pass :: "(string \<Rightarrow> int) \<Rightarrow> int \<Rightarrow> string list \<Rightarrow> cache_lane_info list \<Rightarrow> int \<Rightarrow> eviction list"
  where
    "lru_pass sz target evicted [] remaining = []"
  | "lru_pass sz target evicted (lane # lanes) remaining =
      (if remaining \<le> target then []
       else if ci_ID lane \<in> set evicted then lru_pass sz target evicted lanes remaining
       else evict sz ''lru'' lane # lru_pass sz target (ci_ID lane # evicted) lanes (i64 (remaining - sz (ci_ID lane))))"

definition second_ns :: int
  where "second_ns = 1000000000"

definition ttl_pass :: "(string \<Rightarrow> int) \<Rightarrow> gc_options \<Rightarrow> cache_lane_info list \<Rightarrow> eviction list"
  where "ttl_pass sz opts free =
    (if go_TTL opts > 0
     then map (evict sz ''ttl'') (filter (\<lambda>lane. ci_LastUsed lane * second_ns < go_Now opts - go_TTL opts) free)
     else [])"

definition sum64 :: "int list \<Rightarrow> int"
  where "sum64 xs = foldl (\<lambda>a x. i64 (a + x)) 0 xs"

definition sub64 :: "int \<Rightarrow> int list \<Rightarrow> int"
  where "sub64 a xs = foldl (\<lambda>a x. i64 (a - x)) a xs"

text \<open>The decision on what was measured and what the store knows.\<close>

definition plan_of :: "gc_options \<Rightarrow> volume_usage list \<Rightarrow> cache_lane_info list \<Rightarrow> gc_plan"
  where "plan_of opts usage lanes =
    (let sz = sizes usage;
         managed = sum64 (map (\<lambda>lane. sz (ci_ID lane)) lanes);
         free = filter (\<lambda>lane. ci_LeasedBy lane = []) lanes;
         ttl = ttl_pass sz opts free;
         gone = map ec_LaneID ttl;
         more = (if go_AllFree opts then map (evict sz ''emergency'') (filter (\<lambda>lane. ci_ID lane \<notin> set gone) free)
                 else if go_TargetBytes opts \<ge> 0
                 then lru_pass sz (go_TargetBytes opts) gone (sort_key (\<lambda>lane. (ci_LastUsed lane, ci_ID lane)) free)
                        (sub64 managed (map ec_Bytes ttl))
                 else []);
         orphaned = map orphan_eviction (sort_key fst (orphans usage (map ci_ID lanes)))
     in \<lparr>gp_Evictions = ttl @ more @ orphaned, gp_ManagedBytes = managed,
         gp_KeptBytes = sub64 managed (map ec_Bytes (ttl @ more))\<rparr>)"

definition PlanGC :: "'w moby \<Rightarrow> instance_id \<Rightarrow> gc_options \<Rightarrow> store \<times> 'w \<Rightarrow> (engine_error + gc_plan) \<times> store \<times> 'w"
  where "PlanGC cli instanceID opts sw =
    (case sw of (s, w) \<Rightarrow>
      case OwnedVolumeUsage cli instanceID w of
        (Inl e, w') \<Rightarrow> (Inl e, s, w')
      | (Inr usage, w') \<Rightarrow> (Inr (plan_of opts usage (CacheLanes s)), s, w'))"

definition GCTarget :: "int \<Rightarrow> int \<Rightarrow> int"
  where "GCTarget maxManagedBytes lowPct = go_quot (i64 (maxManagedBytes * lowPct)) 100"

section \<open>Running a plan\<close>

text \<open>A failed eviction is kept with its volume; an eviction whose audit row could not be written is applied.\<close>

record gc_result =
  gr_Applied :: nat
  gr_Skipped :: nat
  gr_Failed :: "(string \<times> cache_error) list"
  gr_AuditFailed :: "(string \<times> store_error) list"

definition audit_detail :: "eviction \<Rightarrow> string"
  where "audit_detail e = ''reason='' @ ec_Reason e @ '' bytes='' @ decimal (ec_Bytes e) @ '' project='' @
    ec_SourceProjectKey e @ '' generation='' @ ec_Generation e"

definition apply_eviction :: "'w moby \<Rightarrow> instance_id \<Rightarrow> eviction \<Rightarrow> store \<times> 'w \<Rightarrow> cache_error option \<times> store \<times> 'w"
  where "apply_eviction cli instanceID e sw =
    (if ec_Orphan e
     then (case removeOrphanVolume cli instanceID (ec_Volume e) (snd sw) of (r, w') \<Rightarrow> (map_option EngineError r, fst sw, w'))
     else DeleteLane cli instanceID (ec_LaneID e) sw)"

fun RunGC :: "'w moby \<Rightarrow> instance_id \<Rightarrow> string \<Rightarrow> eviction list \<Rightarrow> store \<times> 'w \<Rightarrow> gc_result \<Rightarrow> gc_result \<times> store \<times> 'w"
  where
    "RunGC cli instanceID actor [] sw res = (res, sw)"
  | "RunGC cli instanceID actor (e # es) sw res =
      (case apply_eviction cli instanceID e sw of
         (Some err, sw') \<Rightarrow>
           RunGC cli instanceID actor es sw'
             (if err = StoreError ErrLaneBusy then res\<lparr>gr_Skipped := gr_Skipped res + 1\<rparr>
              else res\<lparr>gr_Failed := gr_Failed res @ [(ec_Volume e, err)]\<rparr>)
       | (None, s, w) \<Rightarrow>
           (case Tx (RecordAudit actor ''gc_evict'' (ec_Volume e) (audit_detail e)) s of
              (r, s') \<Rightarrow>
                RunGC cli instanceID actor es (s', w)
                  (res\<lparr>gr_Applied := gr_Applied res + 1,
                       gr_AuditFailed := gr_AuditFailed res @ (case r of Inl err \<Rightarrow> [(ec_Volume e, err)] | Inr _ \<Rightarrow> [])\<rparr>)))"

end
