(* ===== verification/CacheProps.thy ===== *)
theory CacheProps
  imports CacheGC EngineProps
begin

text \<open>
  What collection guarantees: a plan names free lanes only, each once, and reaches its target or
  takes every free lane; running a plan, however stale, never touches a lane a lease holds.
\<close>

section \<open>Arithmetic at 64 bits\<close>

lemma foldl_add64:
  "0 \<le> a \<Longrightarrow> (\<forall>x \<in> set xs. 0 \<le> x) \<Longrightarrow> a + sum_list xs < 2 ^ 63 \<Longrightarrow> foldl (\<lambda>a x. i64 (a + x)) a xs = a + sum_list xs"
proof (induction xs arbitrary: a)
  case (Cons x xs)
  have "0 \<le> sum_list xs" using Cons.prems by (intro sum_list_nonneg_int) auto
  then have "i64 (a + x) = a + x" using Cons.prems by simp
  then show ?case using Cons.IH [of "a + x"] Cons.prems by (simp add: add.assoc)
qed simp

lemma sum64_exact: "(\<forall>x \<in> set xs. 0 \<le> x) \<Longrightarrow> sum_list xs < 2 ^ 63 \<Longrightarrow> sum64 xs = sum_list xs"
  unfolding sum64_def using foldl_add64 [of 0 xs] by simp

lemma sub64_exact:
  "(\<forall>x \<in> set xs. 0 \<le> x) \<Longrightarrow> a < 2 ^ 63 \<Longrightarrow> sum_list xs \<le> a \<Longrightarrow> sub64 a xs = a - sum_list xs"
  unfolding sub64_def
proof (induction xs arbitrary: a)
  case (Cons x xs)
  have "0 \<le> sum_list xs" using Cons.prems by (intro sum_list_nonneg_int) auto
  then have "i64 (a - x) = a - x" using Cons.prems by simp
  then show ?case using Cons.IH [of "a - x"] Cons.prems by simp
qed simp

lemma sizes_nonneg: "0 \<le> sizes usage lane"
proof -
  have "(\<forall>l. 0 \<le> m l) \<Longrightarrow> 0 \<le> fold (\<lambda>u m. if label (vu_Labels u) LabelLane \<noteq> []
      then m(label (vu_Labels u) LabelLane := clamp_size u) else m) us m lane" for us and m :: "string \<Rightarrow> int"
    by (induction us arbitrary: m) (auto simp: clamp_size_def)
  then show ?thesis by (simp add: sizes_def)
qed

section \<open>What a plan holds\<close>

lemma lru_pass_spec:
  assumes "\<And>l. 0 \<le> sz l"
  shows "distinct (map ci_ID lanes) \<Longrightarrow> r < 2 ^ 63 \<Longrightarrow>
    (\<Sum>l\<leftarrow>filter (\<lambda>l. ci_ID l \<notin> set gone) lanes. sz (ci_ID l)) \<le> r \<Longrightarrow>
    \<exists>ls rest. lru_pass sz target gone lanes r = map (evict sz ''lru'') ls \<and>
      filter (\<lambda>l. ci_ID l \<notin> set gone) lanes = ls @ rest \<and>
      (rest = [] \<or> r - (\<Sum>l\<leftarrow>ls. sz (ci_ID l)) \<le> target) \<and> (ls \<noteq> [] \<longrightarrow> r - (\<Sum>l\<leftarrow>butlast ls. sz (ci_ID l)) > target)"
proof (induction lanes arbitrary: gone r)
  case (Cons lane lanes)
  show ?case
  proof (cases "r \<le> target \<or> ci_ID lane \<in> set gone")
    case True
    then consider "r \<le> target" | "\<not> r \<le> target" "ci_ID lane \<in> set gone" by blast
    then show ?thesis
    proof cases
      case 1
      then show ?thesis
        by (intro exI [of _ "[]"] exI [of _ "filter (\<lambda>l. ci_ID l \<notin> set gone) (lane # lanes)"]) simp
    next
      case 2
      then show ?thesis using Cons.IH [of r gone] Cons.prems by auto
    qed
  next
    case False
    let ?gone = "ci_ID lane # gone"
    have same: "filter (\<lambda>l. ci_ID l \<notin> set ?gone) lanes = filter (\<lambda>l. ci_ID l \<notin> set gone) lanes"
      using Cons.prems(1) by (intro filter_cong) (auto simp: image_iff)
    have "0 \<le> (\<Sum>l\<leftarrow>filter (\<lambda>l. ci_ID l \<notin> set gone) lanes. sz (ci_ID l))"
      by (rule sum_list_nonneg_int) (use assms in auto)
    then have r: "i64 (r - sz (ci_ID lane)) = r - sz (ci_ID lane)"
      using Cons.prems False assms [of "ci_ID lane"] by simp
    have "distinct (map ci_ID lanes)" "r - sz (ci_ID lane) < 2 ^ 63"
      "(\<Sum>l\<leftarrow>filter (\<lambda>l. ci_ID l \<notin> set ?gone) lanes. sz (ci_ID l)) \<le> r - sz (ci_ID lane)"
      using Cons.prems False assms [of "ci_ID lane"] unfolding same by simp_all
    from Cons.IH [OF this] obtain ls rest where IH:
      "lru_pass sz target ?gone lanes (r - sz (ci_ID lane)) = map (evict sz ''lru'') ls"
      "filter (\<lambda>l. ci_ID l \<notin> set gone) lanes = ls @ rest"
      "rest = [] \<or> r - sz (ci_ID lane) - (\<Sum>l\<leftarrow>ls. sz (ci_ID l)) \<le> target"
      "ls \<noteq> [] \<longrightarrow> r - sz (ci_ID lane) - (\<Sum>l\<leftarrow>butlast ls. sz (ci_ID l)) > target" unfolding same by blast
    show ?thesis
      by (rule exI [of _ "lane # ls"], rule exI [of _ rest]) (use IH False r in \<open>auto simp: diff_diff_eq\<close>)
  qed
qed auto

lemma evict_fields [simp]:
  "ec_LaneID (evict sz why l) = ci_ID l" "ec_Bytes (evict sz why l) = sz (ci_ID l)" "\<not> ec_Orphan (evict sz why l)"
  "ec_Volume (evict sz why l) = VolumeName (ci_ID l)"
  "ec_Orphan (orphan_eviction v)" "ec_Volume (orphan_eviction v) = fst v"
  by (simp_all add: evict_def orphan_eviction_def)

definition lane_evictions :: "gc_plan \<Rightarrow> eviction list"
  where "lane_evictions p = filter (\<lambda>e. \<not> ec_Orphan e) (gp_Evictions p)"

definition free_lanes :: "cache_lane_info list \<Rightarrow> cache_lane_info list"
  where "free_lanes lanes = filter (\<lambda>l. ci_LeasedBy l = []) lanes"

lemma sum_list_mset_eq: "mset xs = mset ys \<Longrightarrow> sum_list (map f xs) = sum_list (map f ys)" for f :: "'a \<Rightarrow> int"
  by (metis mset_map sum_mset_sum_list)

lemma sum_filter_le: "(\<And>x. 0 \<le> f x) \<Longrightarrow> sum_list (map f (filter P xs)) \<le> sum_list (map f xs)" for f :: "'a \<Rightarrow> int"
  by (induction xs) (auto simp: add_increasing)

lemma sum_part_le:
  fixes f :: "'a \<Rightarrow> int"
  assumes "\<And>x. 0 \<le> f x" "mset (xs @ ys) = mset zs"
  shows "sum_list (map f xs) \<le> sum_list (map f zs)"
proof -
  have "0 \<le> sum_list (map f ys)" by (rule sum_list_nonneg_int) (use assms(1) in auto)
  then show ?thesis using sum_list_mset_eq [OF assms(2), of f] by simp
qed

lemma filter_gone:
  assumes "distinct (map ci_ID lanes)"
  shows "filter (\<lambda>l. ci_ID l \<notin> set (map ci_ID (filter P lanes))) lanes = filter (\<lambda>l. \<not> P l) lanes"
proof (intro filter_cong refl)
  fix l assume "l \<in> set lanes"
  then show "ci_ID l \<notin> set (map ci_ID (filter P lanes)) \<longleftrightarrow> \<not> P l"
    using assms inj_on_def [of ci_ID "set lanes"] by (auto simp: distinct_map)
qed

text \<open>The lanes a plan takes: expired ones, then the emergency or the least recently used ones.\<close>

lemma plan_lanes:
  assumes d: "distinct (map ci_ID lanes)" and total: "(\<Sum>l\<leftarrow>lanes. sizes usage (ci_ID l)) < 2 ^ 63"
  obtains ls rest where
    "mset (ls @ rest) = mset (free_lanes lanes)"
    "map ec_LaneID (lane_evictions (plan_of opts usage lanes)) = map ci_ID ls"
    "map ec_Volume (lane_evictions (plan_of opts usage lanes)) = map (VolumeName \<circ> ci_ID) ls"
    "gp_ManagedBytes (plan_of opts usage lanes) = (\<Sum>l\<leftarrow>lanes. sizes usage (ci_ID l))"
    "gp_KeptBytes (plan_of opts usage lanes) = (\<Sum>l\<leftarrow>lanes. sizes usage (ci_ID l)) - (\<Sum>l\<leftarrow>ls. sizes usage (ci_ID l))"
    "go_AllFree opts \<Longrightarrow> rest = []"
    "\<not> go_AllFree opts \<Longrightarrow> go_TargetBytes opts \<ge> 0 \<Longrightarrow> rest = [] \<or>
      (\<Sum>l\<leftarrow>lanes. sizes usage (ci_ID l)) - (\<Sum>l\<leftarrow>ls. sizes usage (ci_ID l)) \<le> go_TargetBytes opts"
proof -
  let ?sz = "\<lambda>l. sizes usage (ci_ID l)"
  let ?S = "\<Sum>l\<leftarrow>lanes. ?sz l"
  let ?free = "free_lanes lanes"
  define P where "P l = (go_TTL opts > 0 \<and> ci_LastUsed l * second_ns < go_Now opts - go_TTL opts)" for l :: cache_lane_info
  define T where "T = filter P ?free"
  define more where "more = (if go_AllFree opts then map (evict (sizes usage) ''emergency'') (filter (\<lambda>l. ci_ID l \<notin> set (map ci_ID T)) ?free)
     else if go_TargetBytes opts \<ge> 0
     then lru_pass (sizes usage) (go_TargetBytes opts) (map ci_ID T) (sort_key (\<lambda>l. (ci_LastUsed l, ci_ID l)) ?free)
       (sub64 ?S (map ?sz T)) else [])"
  have df: "distinct (map ci_ID ?free)" using d by (simp add: free_lanes_def distinct_map_filter)
  have nn: "0 \<le> ?sz l" for l by (rule sizes_nonneg)
  have S: "sum64 (map ?sz lanes) = ?S" using total nn by (intro sum64_exact) auto
  have free_le: "sum_list (map ?sz ?free) \<le> ?S" unfolding free_lanes_def by (rule sum_filter_le) (rule nn)
  have keep: "filter (\<lambda>l. ci_ID l \<notin> set (map ci_ID T)) ?free = filter (\<lambda>l. \<not> P l) ?free" unfolding T_def by (rule filter_gone [OF df])
  have part: "mset (T @ filter (\<lambda>l. \<not> P l) ?free) = mset ?free" by (simp add: T_def)
  have ttl: "ttl_pass (sizes usage) opts ?free = map (evict (sizes usage) ''ttl'') T"
    unfolding ttl_pass_def T_def P_def by auto
  have T_le: "sum_list (map ?sz T) \<le> ?S" using sum_part_le [where f = ?sz, OF nn part] free_le by simp
  have plan: "gp_Evictions (plan_of opts usage lanes) = map (evict (sizes usage) ''ttl'') T @ more @
      map orphan_eviction (sort_key fst (orphans usage (map ci_ID lanes)))"
    "gp_ManagedBytes (plan_of opts usage lanes) = ?S"
    "gp_KeptBytes (plan_of opts usage lanes) = sub64 ?S (map ec_Bytes (map (evict (sizes usage) ''ttl'') T @ more))"
    unfolding plan_of_def Let_def S more_def free_lanes_def [symmetric] ttl by (simp_all add: comp_def)
  have orphan: "filter (\<lambda>e. \<not> ec_Orphan e) (map orphan_eviction os) = []" for os
    by (induction os) auto
  obtain ls rest why where ls: "mset (ls @ rest) = mset (filter (\<lambda>l. \<not> P l) ?free)" "more = map (evict (sizes usage) why) ls"
    "go_AllFree opts \<Longrightarrow> rest = []"
    "\<not> go_AllFree opts \<Longrightarrow> go_TargetBytes opts \<ge> 0 \<Longrightarrow> rest = [] \<or> ?S - sum_list (map ?sz T) - sum_list (map ?sz ls) \<le> go_TargetBytes opts"
  proof -
    consider "go_AllFree opts" | "\<not> go_AllFree opts" "go_TargetBytes opts \<ge> 0" | "\<not> go_AllFree opts" "\<not> go_TargetBytes opts \<ge> 0" by blast
    then show thesis
    proof cases
      case 1
      then have "more = map (evict (sizes usage) ''emergency'') (filter (\<lambda>l. \<not> P l) ?free)" unfolding more_def keep by simp
      with 1 show thesis by (intro that [of "filter (\<lambda>l. \<not> P l) ?free" "[]" "''emergency''"]) simp_all
    next
      case 2
      let ?sorted = "sort_key (\<lambda>l. (ci_LastUsed l, ci_ID l)) ?free"
      have sub: "sub64 ?S (map ?sz T) = ?S - sum_list (map ?sz T)" by (rule sub64_exact) (use nn total T_le in auto)
      have "mset (filter (\<lambda>l. ci_ID l \<notin> set (map ci_ID T)) ?sorted) = mset (filter (\<lambda>l. ci_ID l \<notin> set (map ci_ID T)) ?free)"
        by (simp add: mset_filter)
      then have ms: "mset (filter (\<lambda>l. ci_ID l \<notin> set (map ci_ID T)) ?sorted) = mset (filter (\<lambda>l. \<not> P l) ?free)" unfolding keep .
      have "sum_list (map ?sz (filter (\<lambda>l. \<not> P l) ?free)) + sum_list (map ?sz T) = sum_list (map ?sz ?free)"
        using sum_list_mset_eq [OF part, of ?sz] by simp
      then have "sum_list (map ?sz (filter (\<lambda>l. ci_ID l \<notin> set (map ci_ID T)) ?sorted)) \<le> ?S - sum_list (map ?sz T)"
        using sum_list_mset_eq [OF ms, of ?sz] free_le by simp
      moreover have "distinct (map ci_ID ?sorted)" using df by (simp add: distinct_map)
      moreover have "0 \<le> sum_list (map ?sz T)" by (rule sum_list_nonneg_int) (use nn in auto)
      then have "?S - sum_list (map ?sz T) < 2 ^ 63" using total by simp
      ultimately obtain ls rest where "lru_pass (sizes usage) (go_TargetBytes opts) (map ci_ID T) ?sorted (?S - sum_list (map ?sz T)) =
          map (evict (sizes usage) ''lru'') ls" "filter (\<lambda>l. ci_ID l \<notin> set (map ci_ID T)) ?sorted = ls @ rest"
        "rest = [] \<or> ?S - sum_list (map ?sz T) - sum_list (map ?sz ls) \<le> go_TargetBytes opts"
        using lru_pass_spec [where sz = "sizes usage" and lanes = ?sorted and gone = "map ci_ID T", OF sizes_nonneg] by blast
      then show thesis using 2 ms sub by (intro that [of ls rest "''lru''"]) (simp_all add: more_def)
    next
      case 3
      then show thesis by (intro that [of "[]" "filter (\<lambda>l. \<not> P l) ?free" "[]"]) (simp_all add: more_def)
    qed
  qed
  have all: "mset ((T @ ls) @ rest) = mset ?free" using ls(1) part by simp
  have "lane_evictions (plan_of opts usage lanes) = map (evict (sizes usage) ''ttl'') T @ map (evict (sizes usage) why) ls"
    unfolding lane_evictions_def plan(1) ls(2) by (simp add: orphan filter_id_conv)
  moreover have "gp_KeptBytes (plan_of opts usage lanes) = ?S - sum_list (map ?sz (T @ ls))"
  proof -
    have bytes: "map ec_Bytes (map (evict (sizes usage) ''ttl'') T @ more) = map ?sz (T @ ls)" by (simp add: ls(2) comp_def)
    have "sum_list (map ?sz (T @ ls)) \<le> ?S" using sum_part_le [where f = ?sz, OF nn all] free_le by simp
    then show ?thesis unfolding plan(3) bytes using nn total by (intro sub64_exact) auto
  qed
  ultimately show thesis using ls(3,4) plan(2) all by (intro that [of "T @ ls" rest]) (simp_all add: comp_def diff_diff_eq)
qed

text \<open>C25. A collection plan is safe and does its job: it names only lanes no lease holds, each once, under their own
  volume names; what it reports as kept is the measured size of the lanes it leaves; in the emergency posture it takes
  every free lane, and otherwise it brings the kept bytes to the target or has taken every free lane.\<close>

theorem gc_plan_sound:
  assumes "distinct (map ci_ID lanes)" and "(\<Sum>l\<leftarrow>lanes. sizes usage (ci_ID l)) < 2 ^ 63"
  shows "let p = plan_of opts usage lanes; E = lane_evictions p; taken = set (map ec_LaneID E); free = free_lanes lanes in
    distinct (map ec_LaneID E) \<and> taken \<subseteq> ci_ID ` set free \<and> (\<forall>e \<in> set E. ec_Volume e = VolumeName (ec_LaneID e)) \<and>
    gp_KeptBytes p = (\<Sum>l\<leftarrow>filter (\<lambda>l. ci_ID l \<notin> taken) lanes. sizes usage (ci_ID l)) \<and>
    (go_AllFree opts \<longrightarrow> taken = ci_ID ` set free) \<and>
    (\<not> go_AllFree opts \<longrightarrow> go_TargetBytes opts \<ge> 0 \<longrightarrow> gp_KeptBytes p \<le> go_TargetBytes opts \<or> taken = ci_ID ` set free)"
proof -
  let ?p = "plan_of opts usage lanes"
  let ?sz = "\<lambda>l. sizes usage (ci_ID l)"
  obtain ls rest where ls: "mset (ls @ rest) = mset (free_lanes lanes)"
    "map ec_LaneID (lane_evictions ?p) = map ci_ID ls" "map ec_Volume (lane_evictions ?p) = map (VolumeName \<circ> ci_ID) ls"
    "gp_KeptBytes ?p = sum_list (map ?sz lanes) - sum_list (map ?sz ls)" "go_AllFree opts \<Longrightarrow> rest = []"
    "\<not> go_AllFree opts \<Longrightarrow> go_TargetBytes opts \<ge> 0 \<Longrightarrow> rest = [] \<or> sum_list (map ?sz lanes) - sum_list (map ?sz ls) \<le> go_TargetBytes opts"
    by (rule plan_lanes [OF assms, of opts]) blast
  have set: "set ls \<union> set rest = set (free_lanes lanes)" using mset_eq_setD [OF ls(1)] by simp
  have sub: "set ls \<subseteq> set lanes" using set by (auto simp: free_lanes_def)
  have "distinct (map ci_ID (free_lanes lanes))" using assms(1) by (simp add: free_lanes_def distinct_map_filter)
  then have "distinct (map ci_ID (ls @ rest))" using mset_eq_imp_distinct_iff [of "map ci_ID (ls @ rest)" "map ci_ID (free_lanes lanes)"] ls(1)
    by (metis mset_map)
  then have d: "distinct (map ci_ID ls)" by simp
  have vol: "ec_Volume e = VolumeName (ec_LaneID e)" if "e \<in> set (lane_evictions ?p)" for e
  proof -
    have "map ec_Volume (lane_evictions ?p) = map (VolumeName \<circ> ec_LaneID) (lane_evictions ?p)"
      using ls(2,3) by (metis map_map)
    then show ?thesis using that by simp
  qed
  have "mset (filter (\<lambda>l. ci_ID l \<notin> ci_ID ` set ls) lanes) + mset ls = mset lanes"
  proof -
    have inj: "inj_on ci_ID (set lanes)" "distinct lanes" using assms(1) by (simp_all add: distinct_map)
    have "x \<in> set ls \<longleftrightarrow> ci_ID x \<in> ci_ID ` set ls" if "x \<in> set lanes" for x
      using inj(1) sub that by (auto simp: inj_on_def)
    then have "filter (\<lambda>l. ci_ID l \<in> ci_ID ` set ls) lanes = filter (\<lambda>l. l \<in> set ls) lanes" by (intro filter_cong) auto
    moreover have "mset (filter (\<lambda>l. l \<in> set ls) lanes) = mset ls"
      using sub inj(2) d by (intro set_eq_iff_mset_eq_distinct [THEN iffD1]) (auto simp: distinct_map)
    moreover have "mset (filter (\<lambda>l. \<not> ci_ID l \<in> ci_ID ` set ls) lanes) + mset (filter (\<lambda>l. ci_ID l \<in> ci_ID ` set ls) lanes) = mset lanes"
      by (simp add: union_commute)
    ultimately show ?thesis by simp
  qed
  then have "mset (filter (\<lambda>l. ci_ID l \<notin> ci_ID ` set ls) lanes @ ls) = mset lanes" by simp
  from sum_list_mset_eq [OF this, of ?sz]
  have kept: "gp_KeptBytes ?p = sum_list (map ?sz (filter (\<lambda>l. ci_ID l \<notin> ci_ID ` set ls) lanes))" using ls(4) by simp
  have taken: "set (map ec_LaneID (lane_evictions ?p)) = ci_ID ` set ls" unfolding ls(2) by simp
  show ?thesis unfolding Let_def taken
    using d ls(2) set vol kept ls(4,5,6) by (auto simp: image_Un)
qed

section \<open>Running a stale plan\<close>

text \<open>A leased lane with its volume in place.\<close>

definition lane_intact :: "('w \<Rightarrow> string \<times> string \<Rightarrow> labels option) \<Rightarrow> cache_lane \<Rightarrow> labels \<Rightarrow> store \<times> 'w \<Rightarrow> bool"
  where "lane_intact objects l m sw \<longleftrightarrow> l \<in> set (st_lanes (fst sw)) \<and> distinct (map cl_id (st_lanes (fst sw))) \<and>
    objects (snd sw) (KindVolume, VolumeName (cl_id l)) = Some m"

lemma VolumeName_inj [simp]: "VolumeName a = VolumeName b \<longleftrightarrow> a = b"
  by (simp add: VolumeName_def)

lemma volume_removal_elsewhere:
  assumes "daemon_ok cli objects" "name \<noteq> other"
  shows "objects (snd (RemoveVolume cli name w)) (KindVolume, other) = objects w (KindVolume, other)"
  using assms unfolding daemon_ok_def by (simp add: RemoveVolume_def split: prod.split) (metis prod.inject snd_conv)

lemma owned_lookup_keeps:
  "daemon_ok cli objects \<Longrightarrow> OwnedIDByName cli KindVolume name instanceID leaseID w = (r, w') \<Longrightarrow> objects w' = objects w"
  unfolding OwnedIDByName_def by (rule resolveOwnedID_proof(1)) auto

lemma removeOrphanVolume_elsewhere:
  assumes "daemon_ok cli objects" "name \<noteq> other"
  shows "objects (snd (removeOrphanVolume cli instanceID name w)) (KindVolume, other) = objects w (KindVolume, other)"
  using volume_removal_elsewhere [OF assms] owned_lookup_keeps [OF assms(1)]
  by (auto simp: removeOrphanVolume_def split: prod.split sum.split)

lemma DeleteLane_alt:
  "DeleteLane cli instanceID laneID (s, w) =
    (case Tx (DeleteCacheLane laneID) s of
       (Inl e, s') \<Rightarrow> (Some (StoreError e), s', w)
     | (Inr _, s') \<Rightarrow>
         (case removeOrphanVolume cli instanceID (VolumeName laneID) w of (e, w') \<Rightarrow> (map_option EngineError e, s', w')))"
  by (simp add: DeleteLane_def removeOrphanVolume_def split: prod.split sum.split)

lemma DeleteLane_intact:
  assumes "daemon_ok cli objects" "cl_leased_by l \<noteq> None" "lane_intact objects l m sw"
  shows "lane_intact objects l m (snd (DeleteLane cli instanceID laneID sw))"
proof (cases sw)
  case (Pair s w)
  show ?thesis
  proof (cases "list_ex (\<lambda>x. cl_id x = laneID \<and> cl_leased_by x = None) (st_lanes s)")
    case True
    then have "laneID \<noteq> cl_id l" using assms(2,3) Pair unfolding lane_intact_def list_ex_iff distinct_map inj_on_def by auto
    then show ?thesis
      using assms Pair True removeOrphanVolume_elsewhere [OF assms(1), of "VolumeName laneID" "VolumeName (cl_id l)" instanceID w]
      by (auto simp: DeleteLane_alt lane_intact_def Tx_def DeleteCacheLane_def distinct_map_filter split: prod.split)
  next
    case False
    then show ?thesis using assms(3) Pair by (simp add: DeleteLane_def Tx_def DeleteCacheLane_def)
  qed
qed

lemma RunGC_intact:
  assumes "daemon_ok cli objects" "cl_leased_by l \<noteq> None" "\<forall>e \<in> set es. ec_Orphan e \<longrightarrow> ec_Volume e \<noteq> VolumeName (cl_id l)"
    "lane_intact objects l m sw"
  shows "lane_intact objects l m (snd (RunGC cli instanceID actor es sw res))"
  using assms(3,4)
proof (induction es arbitrary: sw res)
  case (Cons e es)
  obtain r sw' where step: "apply_eviction cli instanceID e sw = (r, sw')" by (rule prod.exhaust)
  have keep: "lane_intact objects l m sw'"
  proof (cases "ec_Orphan e")
    case True
    then show ?thesis using Cons.prems step removeOrphanVolume_elsewhere [OF assms(1), of "ec_Volume e" "VolumeName (cl_id l)" instanceID "snd sw"]
      by (auto simp: apply_eviction_def lane_intact_def split: prod.splits)
  next
    case False
    then show ?thesis using DeleteLane_intact [OF assms(1,2) Cons.prems(2), of instanceID "ec_LaneID e"] step
      by (simp add: apply_eviction_def)
  qed
  obtain s' w' where sw': "sw' = (s', w')" by fastforce
  show ?case
  proof (cases r)
    case None
    have "lane_intact objects l m (snd (Tx (RecordAudit actor ''gc_evict'' (ec_Volume e) (audit_detail e)) s'), w')"
      using keep by (auto simp: sw' lane_intact_def Tx_def RecordAudit_def)
    then show ?thesis using Cons.IH Cons.prems(1) step None by (auto simp: sw' split: prod.split)
  next
    case (Some err)
    then show ?thesis using Cons.IH Cons.prems(1) step keep by auto
  qed
qed simp

lemma fold_update_keys:
  "fst ` set (fold (\<lambda>u m. if P u then AList.update (k u) (v u) m else m) us m0) \<subseteq> fst ` set m0 \<union> k ` {u \<in> set us. P u}"
proof (induction us arbitrary: m0)
  case (Cons u us)
  have "fst ` set (AList.update (k u) (v u) m0) = insert (k u) (fst ` set m0)" by (simp add: update_conv' dom_map_of_conv_image_fst [symmetric])
  then show ?case using Cons.IH [of m0] Cons.IH [of "AList.update (k u) (v u) m0"] by (cases "P u") auto
qed simp

text \<open>An orphan is a lane volume whose lane label is missing or names no row.\<close>

lemma orphans_keys:
  assumes "name \<in> fst ` set (orphans usage known)"
  shows "\<exists>u \<in> set (lane_volumes usage). vu_Name u = name \<and>
    (label (vu_Labels u) LabelLane = [] \<or> label (vu_Labels u) LabelLane \<notin> set known)"
proof -
  let ?lane = "\<lambda>u. label (vu_Labels u) LabelLane"
  let ?first = "fold (\<lambda>u m. if ?lane u \<noteq> [] then m else AList.update (vu_Name u) (clamp_size u) m) (lane_volumes usage) []"
  have "?first = fold (\<lambda>u m. if ?lane u = [] then AList.update (vu_Name u) (clamp_size u) m else m) (lane_volumes usage) []"
    by (rule arg_cong [where f = "\<lambda>f. fold f (lane_volumes usage) []"]) (intro ext, simp)
  then have first: "fst ` set ?first \<subseteq> vu_Name ` {u \<in> set (lane_volumes usage). ?lane u = []}"
    using fold_update_keys [of "\<lambda>u. ?lane u = []" vu_Name clamp_size "lane_volumes usage" "[]"] by (simp only: list.set image_empty Un_empty_left)
  have "orphans usage known = fold (\<lambda>u m. if ?lane u \<noteq> [] \<and> ?lane u \<notin> set known
      then AList.update (vu_Name u) (sizes usage (?lane u)) m else m) (lane_volumes usage) ?first"
    unfolding orphans_def Let_def by (rule refl)
  then have "fst ` set (orphans usage known) \<subseteq>
      fst ` set ?first \<union> vu_Name ` {u \<in> set (lane_volumes usage). ?lane u \<noteq> [] \<and> ?lane u \<notin> set known}"
    using fold_update_keys [of "\<lambda>u. ?lane u \<noteq> [] \<and> ?lane u \<notin> set known" vu_Name "\<lambda>u. sizes usage (?lane u)" "lane_volumes usage" ?first]
    by (simp only:)
  from subsetD [OF this assms] have "name \<in> vu_Name ` {u \<in> set (lane_volumes usage). ?lane u = []} \<or>
      name \<in> vu_Name ` {u \<in> set (lane_volumes usage). ?lane u \<noteq> [] \<and> ?lane u \<notin> set known}"
    using first by (meson UnE subsetD)
  then show ?thesis by (elim disjE imageE) blast+
qed

text \<open>The names \<^const>\<open>Acquire\<close> gives: a lane's volume carries the lane in its label and in its name.\<close>

definition well_labelled :: "volume_usage list \<Rightarrow> bool"
  where "well_labelled usage \<longleftrightarrow>
    (\<forall>u \<in> set (lane_volumes usage). label (vu_Labels u) LabelLane \<noteq> [] \<and> vu_Name u = VolumeName (label (vu_Labels u) LabelLane))"

lemma plan_orphans:
  assumes "well_labelled usage" "e \<in> set (gp_Evictions (plan_of opts usage lanes))" "ec_Orphan e"
  shows "\<exists>lane. ec_Volume e = VolumeName lane \<and> ec_Volume e \<in> vu_Name ` set usage \<and> lane \<notin> ci_ID ` set lanes"
proof -
  have lru: "x \<in> set (lru_pass sz target gone ls r) \<Longrightarrow> \<not> ec_Orphan x" for x sz target gone ls r
    by (induction sz target gone ls r rule: lru_pass.induct) (auto split: if_splits)
  have ttl: "x \<in> set (ttl_pass sz opts ls) \<Longrightarrow> \<not> ec_Orphan x" for x sz ls by (auto simp: ttl_pass_def)
  have "e \<in> set (map orphan_eviction (sort_key fst (orphans usage (map ci_ID lanes))))"
    using assms(2,3) unfolding plan_of_def Let_def by (auto split: if_splits dest: lru ttl)
  then obtain v where v: "v \<in> set (orphans usage (map ci_ID lanes))" "e = orphan_eviction v" unfolding set_map set_sort by (rule imageE)
  have "ec_Volume e \<in> fst ` set (orphans usage (map ci_ID lanes))" unfolding v(2) evict_fields by (rule imageI [OF v(1)])
  from orphans_keys [OF this] obtain u where u: "u \<in> set (lane_volumes usage)" "vu_Name u = ec_Volume e"
    "label (vu_Labels u) LabelLane = [] \<or> label (vu_Labels u) LabelLane \<notin> set (map ci_ID lanes)" by auto
  moreover have "label (vu_Labels u) LabelLane \<noteq> []" "vu_Name u = VolumeName (label (vu_Labels u) LabelLane)"
    using assms(1) u(1) unfolding well_labelled_def by auto
  moreover have "u \<in> set usage" using u(1) by (simp add: lane_volumes_def)
  ultimately show ?thesis by (intro exI [of _ "label (vu_Labels u) LabelLane"]) (metis imageI set_map)
qed

text \<open>C26. A collection never takes a lane from a job, however stale its plan: between planning and running the store
  and the daemon may have changed in any way, but a lane that a lease holds when the plan runs keeps its row, its
  lease and its volume.  The daemon was listed before the store, so a volume the plan saw has its row in what the
  plan read or has none at all.\<close>

theorem gc_run_spares_leased:
  assumes "daemon_ok cli objects" and "well_labelled usage"
    and "VolumeName (cl_id l) \<in> vu_Name ` set usage \<longrightarrow> cl_id l \<in> ci_ID ` set lanes"
    and "l \<in> set (st_lanes s)" "cl_leased_by l \<noteq> None" "distinct (map cl_id (st_lanes s))"
    and "objects w (KindVolume, VolumeName (cl_id l)) = Some m"
    and "RunGC cli instanceID actor (gp_Evictions (plan_of opts usage lanes)) (s, w) res = (res', s', w')"
  shows "l \<in> set (st_lanes s') \<and> objects w' (KindVolume, VolumeName (cl_id l)) = Some m"
proof -
  have "\<forall>e \<in> set (gp_Evictions (plan_of opts usage lanes)). ec_Orphan e \<longrightarrow> ec_Volume e \<noteq> VolumeName (cl_id l)"
  proof (intro ballI impI notI)
    fix e assume e: "e \<in> set (gp_Evictions (plan_of opts usage lanes))" "ec_Orphan e" "ec_Volume e = VolumeName (cl_id l)"
    from plan_orphans [OF assms(2) e(1,2)] show False using assms(3) e(3) by auto
  qed
  moreover have "lane_intact objects l m (s, w)" using assms(4,6,7) by (simp add: lane_intact_def)
  ultimately show ?thesis
    using RunGC_intact [OF assms(1,5), of _ m "(s, w)" instanceID actor res] assms(8) by (fastforce simp: lane_intact_def)
qed

text \<open>Three lanes: a leased one, one unused for long and one used since; and a volume no row knows.\<close>

definition demo_lane :: "string \<Rightarrow> lease_id option \<Rightarrow> int \<Rightarrow> cache_lane"
  where "demo_lane i leased used = \<lparr>cl_id = i, cl_project_id = ''p'', cl_generation = ''g'', cl_leased_by = leased, cl_last_used = used\<rparr>"

definition demo_lane_info :: "string \<Rightarrow> string \<Rightarrow> int \<Rightarrow> cache_lane_info"
  where "demo_lane_info i leased used =
    \<lparr>ci_ID = i, ci_SourceProjectKey = ''k'', ci_Generation = ''g'', ci_LeasedBy = leased, ci_LastUsed = used\<rparr>"

definition demo_usage :: "string \<Rightarrow> int \<Rightarrow> volume_usage"
  where "demo_usage i n = \<lparr>vu_Name = VolumeName i, vu_Role = RoleCacheLane, vu_Labels = [(LabelLane, i)], vu_Size = n\<rparr>"

definition demo_usages :: "volume_usage list"
  where "demo_usages = [demo_usage ''a'' 5, demo_usage ''b'' 7, demo_usage ''c'' 9, demo_usage ''z'' 1]"

definition demo_lanes :: "cache_lane_info list"
  where "demo_lanes = [demo_lane_info ''a'' ''l1'' 0, demo_lane_info ''b'' [] 3, demo_lane_info ''c'' [] 8]"

definition demo_gc :: gc_options
  where "demo_gc = \<lparr>go_TTL = 0, go_TargetBytes = 15, go_AllFree = False, go_Now = 20\<rparr>"

lemmas demo_cache_defs = demo_usages_def demo_usage_def demo_lanes_def demo_lane_info_def demo_lane_def demo_gc_def

theorem gc_plan_sound_witness:
  "distinct (map ci_ID demo_lanes) \<and> (\<Sum>l\<leftarrow>demo_lanes. sizes demo_usages (ci_ID l)) < 2 ^ 63 \<and>
   map ec_LaneID (lane_evictions (plan_of demo_gc demo_usages demo_lanes)) = [''b''] \<and>
   gp_KeptBytes (plan_of demo_gc demo_usages demo_lanes) = 14 \<and>
   distinct (map ec_LaneID (lane_evictions (plan_of demo_gc demo_usages demo_lanes)))"
proof -
  have d: "distinct (map ci_ID demo_lanes)" by code_simp
  have b: "(\<Sum>l\<leftarrow>demo_lanes. sizes demo_usages (ci_ID l)) < 2 ^ 63" by code_simp
  have "map ec_LaneID (lane_evictions (plan_of demo_gc demo_usages demo_lanes)) = [''b'']" by code_simp
  moreover have "gp_KeptBytes (plan_of demo_gc demo_usages demo_lanes) = 14" by code_simp
  ultimately show ?thesis using d b gc_plan_sound [OF d b, of demo_gc] by (simp add: Let_def)
qed

text \<open>The plan saw lane \<^verbatim>\<open>b\<close> free; a lease took it before the plan ran.\<close>

definition demo_raced :: store
  where "demo_raced = (empty_store 1 0)\<lparr>st_lanes := [demo_lane ''a'' (Some ''l1'') 0, demo_lane ''b'' (Some ''l2'') 3, demo_lane ''c'' None 8]\<rparr>"

definition demo_volumes :: "((string \<times> string) \<times> labels) list"
  where "demo_volumes = map (\<lambda>i. ((KindVolume, VolumeName i), Labels (no_ownership\<lparr>ow_Instance := ''i1'', ow_Role := RoleCacheLane\<rparr>)))
    [''a'', ''b'', ''c'', ''z'']"

theorem gc_run_spares_leased_witness:
  "case RunGC demo_daemon ''i1'' ''gc'' (gp_Evictions (plan_of demo_gc demo_usages demo_lanes)) (demo_raced, demo_volumes)
      \<lparr>gr_Applied = 0, gr_Skipped = 0, gr_Failed = [], gr_AuditFailed = []\<rparr>
    of (res, s, w) \<Rightarrow> demo_lane ''b'' (Some ''l2'') 3 \<in> set (st_lanes s) \<and>
      map_of w (KindVolume, VolumeName ''b'') = map_of demo_volumes (KindVolume, VolumeName ''b'') \<and> gr_Skipped res = 1 \<and> gr_Applied res = 1"
proof -
  let ?run = "RunGC demo_daemon ''i1'' ''gc'' (gp_Evictions (plan_of demo_gc demo_usages demo_lanes)) (demo_raced, demo_volumes)
      \<lparr>gr_Applied = 0, gr_Skipped = 0, gr_Failed = [], gr_AuditFailed = []\<rparr>"
  obtain res s w where run: "?run = (res, s, w)" by (rule prod_cases3)
  have counts: "gr_Skipped (fst ?run) = 1 \<and> gr_Applied (fst ?run) = 1" by code_simp
  have vol: "map_of demo_volumes (KindVolume, VolumeName ''b'') =
      Some (Labels (no_ownership\<lparr>ow_Instance := ''i1'', ow_Role := RoleCacheLane\<rparr>))" by code_simp
  have labelled: "well_labelled demo_usages" by code_simp
  have known: "cl_id (demo_lane ''b'' (Some ''l2'') 3) \<in> ci_ID ` set demo_lanes" by code_simp
  have row: "demo_lane ''b'' (Some ''l2'') 3 \<in> set (st_lanes demo_raced)" by code_simp
  have leased: "cl_leased_by (demo_lane ''b'' (Some ''l2'') 3) \<noteq> None" by code_simp
  have ids: "distinct (map cl_id (st_lanes demo_raced))" by code_simp
  have id: "cl_id (demo_lane ''b'' (Some ''l2'') 3) = ''b''" by (simp add: demo_lane_def)
  show ?thesis
    using gc_run_spares_leased [OF demo_daemon_ok labelled _ row leased ids _ run] known vol counts by (simp add: run id)
qed

end
