(* ===== verification/Monitor.thy ===== *)
theory Monitor
  imports CacheGC Disk AllocatorProps
begin

text \<open>
  The disk monitor (\<^verbatim>\<open>internal/app/monitor.go\<close>): it measures the daemon's filesystem, decides the pressure level,
  persists it, closes admission when the level says so and collects cache lanes when the level obliges.  The
  admission gate is the source's interface \<^verbatim>\<open>admissionGate\<close> and the durable write its \<^verbatim>\<open>pressureWriter\<close>, both
  parameters of the operations; the gate is interpreted on the credit pool.
\<close>

section \<open>The monitor\<close>

record disk_policy =
  dp_thresholds :: thresholds
  dp_ttl :: int

type_synonym pressure_writer = "level \<Rightarrow> level \<Rightarrow> facts \<Rightarrow> string \<Rightarrow> store \<Rightarrow> string option \<times> store"

text \<open>What a monitor is built with.  \<^verbatim>\<open>md_task\<close> runs the probe container and \<^verbatim>\<open>md_text\<close> renders an error.\<close>

record ('g, 'w) monitor_deps =
  md_task :: "'w \<Rightarrow> (engine_error + int \<times> string) \<times> 'w"
  md_cli :: "'w moby"
  md_hold :: "bool \<Rightarrow> 'g \<Rightarrow> 'g"
  md_policy :: disk_policy
  md_persist :: pressure_writer
  md_instanceID :: instance_id
  md_text :: "engine_error \<Rightarrow> string"

text \<open>What changes as it runs: the level in force, the gate, the store and the daemon.\<close>

record ('g, 'w) disk_monitor =
  dm_level :: level
  dm_gate :: 'g
  dm_store :: store
  dm_world :: 'w

definition newDiskMonitor :: "('g, 'w) monitor_deps \<Rightarrow> 'g \<Rightarrow> store \<Rightarrow> 'w \<Rightarrow> ('g, 'w) disk_monitor"
  where "newDiskMonitor d gate s w =
    \<lparr>dm_level = Unknown, dm_gate = md_hold d True gate, dm_store = s, dm_world = w\<rparr>"

definition apply_level :: "('g, 'w) monitor_deps \<Rightarrow> level \<Rightarrow> ('g, 'w) disk_monitor \<Rightarrow> ('g, 'w) disk_monitor"
  where "apply_level d l m = m\<lparr>dm_level := l, dm_gate := md_hold d (AdmissionClosed l) (dm_gate m)\<rparr>"

definition persistVerdict :: "level \<Rightarrow> level \<Rightarrow> facts \<Rightarrow> string \<Rightarrow> unit tx"
  where "persistVerdict prev next f detail =
    andThen (SetPressure \<lparr>pv_Level = String next, pv_FreeBytes = f_FreeBytes f, pv_FreeInodes = f_FreeInodes f,
        pv_ManagedBytes = f_ManagedBytes f\<rparr>) (\<lambda>_.
      if next = prev then ret ()
      else (let auditDetail = ''was='' @ String prev @ '' free_bytes='' @ decimal (f_FreeBytes f) @ '' managed_bytes='' @
                  decimal (f_ManagedBytes f);
                auditDetail = (if detail \<noteq> [] then auditDetail @ '' reason='' @ detail else auditDetail)
            in RecordAudit ''disk-monitor'' (''pressure_'' @ String next) ''host'' auditDetail))"

text \<open>The writer the constructor installs: one transaction, which the database may fail to commit.\<close>

definition store_writer :: "bool \<Rightarrow> pressure_writer"
  where "store_writer commits prev next f detail s =
    (if \<not> commits then (Some ''commit failed'', s)
     else case Tx (persistVerdict prev next f detail) s of
       (Inl _, s') \<Rightarrow> (Some ''transaction failed'', s')
     | (Inr _, s') \<Rightarrow> (None, s'))"

definition measure_disk :: "('g, 'w) monitor_deps \<Rightarrow> 'w \<Rightarrow> (string + facts) \<times> 'w"
  where "measure_disk d w =
    (case ProbeFilesystemFree (md_task d) w of
       (Inl e, w') \<Rightarrow> (Inl (''filesystem probe: '' @ md_text d e), w')
     | (Inr free, w') \<Rightarrow>
         (case OwnedVolumeUsage (md_cli d) (md_instanceID d) w' of
            (Inl e, w'') \<Rightarrow> (Inl (''volume usage: '' @ md_text d e), w'')
          | (Inr usage, w'') \<Rightarrow>
              (Inr \<lparr>f_FreeBytes = ff_FreeBytes free, f_FreeInodes = ff_FreeInodes free,
                 f_ManagedBytes = sum64 (map vu_Size (filter (\<lambda>u. vu_Role u = RoleCacheLane \<and> vu_Size u > 0) usage))\<rparr>, w'')))"

definition gc_options_for :: "disk_policy \<Rightarrow> level \<Rightarrow> int \<Rightarrow> gc_options"
  where "gc_options_for p l now =
    \<lparr>go_TTL = dp_ttl p, go_TargetBytes = GCTarget (t_MaxManagedBytes (dp_thresholds p)) (t_LowPct (dp_thresholds p)),
     go_AllFree = Aggressive l, go_Now = now\<rparr>"

definition collectGarbage :: "('g, 'w) monitor_deps \<Rightarrow> int \<Rightarrow> level \<Rightarrow> ('g, 'w) disk_monitor \<Rightarrow> ('g, 'w) disk_monitor"
  where "collectGarbage d now l m =
    (case PlanGC (md_cli d) (md_instanceID d) (gc_options_for (md_policy d) l now) (dm_store m, dm_world m) of
       (Inl _, s, w) \<Rightarrow> m\<lparr>dm_store := s, dm_world := w\<rparr>
     | (Inr plan, s, w) \<Rightarrow>
         if gp_Evictions plan = [] then m\<lparr>dm_store := s, dm_world := w\<rparr>
         else (case RunGC (md_cli d) (md_instanceID d) ''disk-monitor'' (gp_Evictions plan) (s, w)
                 \<lparr>gr_Applied = 0, gr_Skipped = 0, gr_Failed = [], gr_AuditFailed = []\<rparr> of
                 (_, s', w') \<Rightarrow> m\<lparr>dm_store := s', dm_world := w'\<rparr>))"

definition collect_if_wanted :: "('g, 'w) monitor_deps \<Rightarrow> int \<Rightarrow> level \<Rightarrow> ('g, 'w) disk_monitor \<Rightarrow> ('g, 'w) disk_monitor"
  where "collect_if_wanted d now l m = (if WantsGC l then collectGarbage d now l m else m)"

text \<open>One verdict.  Closing is applied before the write, opening after it.\<close>

definition disk_pass :: "('g, 'w) monitor_deps \<Rightarrow> int \<Rightarrow> ('g, 'w) disk_monitor \<Rightarrow> string option \<times> ('g, 'w) disk_monitor"
  where "disk_pass d now m =
    (case measure_disk d (dm_world m) of
       (Inl err, w) \<Rightarrow>
         (let m = m\<lparr>dm_world := w\<rparr>; prev = dm_level m in
          if prev \<noteq> SoftEmergency \<and> prev \<noteq> HardEmergency
          then (let m = m\<lparr>dm_level := Unknown, dm_gate := md_hold d True (dm_gate m)\<rparr>
                in case md_persist d prev Unknown \<lparr>f_FreeBytes = - 1, f_FreeInodes = - 1, f_ManagedBytes = - 1\<rparr> err (dm_store m) of
                     (_, s) \<Rightarrow> (Some err, m\<lparr>dm_store := s\<rparr>))
          else (Some err, m))
     | (Inr f, w) \<Rightarrow>
         (let m = m\<lparr>dm_world := w\<rparr>;
              prev = dm_level m;
              next = Next prev f (dp_thresholds (md_policy d));
              requiresDurableOpen = (AdmissionClosed prev \<and> \<not> AdmissionClosed next);
              m = (if \<not> requiresDurableOpen then apply_level d next m else m)
          in case md_persist d prev next f [] (dm_store m) of
               (Some err, s) \<Rightarrow> (Some err, collect_if_wanted d now next (m\<lparr>dm_store := s\<rparr>))
             | (None, s) \<Rightarrow>
                 (let m = m\<lparr>dm_store := s\<rparr>;
                      m = (if requiresDurableOpen then apply_level d next m else m)
                  in (None, collect_if_wanted d now next m))))"

definition resume_level :: "('g, 'w) monitor_deps \<Rightarrow> ('g, 'w) disk_monitor \<Rightarrow> parse_error option \<times> ('g, 'w) disk_monitor"
  where "resume_level d m =
    (case Pressure (dm_store m) of
       None \<Rightarrow> (None, m)
     | Some persisted \<Rightarrow>
         (case ParseLevel (pr_level persisted) of
            (_, Some err) \<Rightarrow> (Some err, m)
          | (l, None) \<Rightarrow>
              if \<not> AdmissionClosed l then (None, m)
              else (None, m\<lparr>dm_level := l, dm_gate := md_hold d True (dm_gate m)\<rparr>)))"

definition initialize :: "('g, 'w) monitor_deps \<Rightarrow> int \<Rightarrow> ('g, 'w) disk_monitor \<Rightarrow> parse_error option \<times> ('g, 'w) disk_monitor"
  where "initialize d now m =
    (case resume_level d m of
       (Some err, m') \<Rightarrow> (Some err, m')
     | (None, m') \<Rightarrow> (None, snd (disk_pass d now m')))"

text \<open>The monitor of the controller: its gate is the credit pool and its writer the store.\<close>

definition controller_deps ::
  "('w \<Rightarrow> (engine_error + int \<times> string) \<times> 'w) \<Rightarrow> 'w moby \<Rightarrow> disk_policy \<Rightarrow> instance_id \<Rightarrow> (engine_error \<Rightarrow> string) \<Rightarrow> bool
    \<Rightarrow> (allocator, 'w) monitor_deps"
  where "controller_deps task cli policy i render commits =
    \<lparr>md_task = task, md_cli = cli, md_hold = Hold, md_policy = policy, md_persist = store_writer commits,
     md_instanceID = i, md_text = render\<rparr>"

end
