(* ===== verification/MonitorProps.thy ===== *)
theory MonitorProps
  imports Monitor CacheProps
begin

text \<open>
  The monitor over its two interfaces, and composed with the credit pool: the gate follows the level whatever fails,
  admission opens only behind a committed verdict, and while the level is closed the pool admits nothing and
  announces nothing beyond what already runs.
\<close>

section \<open>The interfaces\<close>

text \<open>A gate remembers the last hold; a writer either leaves the verdict in the store or leaves the stored one alone.\<close>

locale admission_gate =
  fixes hold :: "bool \<Rightarrow> 'g \<Rightarrow> 'g" and held :: "'g \<Rightarrow> bool"
  assumes held_hold: "held (hold b g) = b"

locale durable_writer =
  fixes persist :: pressure_writer
  assumes written: "persist prev next f detail s = (None, s') \<Longrightarrow> map_option pr_level (Pressure s') = Some (String next)"
    and unwritten: "persist prev next f detail s = (Some e, s') \<Longrightarrow> Pressure s' = Pressure s"

text \<open>The stored verdict lets a job in.\<close>

definition opened :: "store \<Rightarrow> bool"
  where "opened s \<longleftrightarrow> (\<exists>l. map_option pr_level (Pressure s) = Some (String l) \<and> \<not> AdmissionClosed l)"

definition governed :: "('g \<Rightarrow> bool) \<Rightarrow> ('g, 'w) disk_monitor \<Rightarrow> bool"
  where "governed held m \<longleftrightarrow> held (dm_gate m) = AdmissionClosed (dm_level m) \<and>
    (AdmissionClosed (dm_level m) \<or> opened (dm_store m))"

lemma opened_cong: "Pressure s = Pressure s' \<Longrightarrow> opened s = opened s'"
  by (simp add: opened_def)

lemma AdmissionClosed_simps [simp]:
  "AdmissionClosed Unknown" "\<not> AdmissionClosed Normal" "\<not> AdmissionClosed High" "AdmissionClosed SoftEmergency"
  "AdmissionClosed HardEmergency"
  by (simp_all add: AdmissionClosed_def)

text \<open>A collection moves neither the level nor the gate nor the stored verdict.\<close>

lemma RunGC_pressure: "Pressure (fst (snd (RunGC cli i actor es sw res))) = Pressure (fst sw)"
proof (induction es arbitrary: sw res)
  case (Cons e es)
  have step: "Pressure (fst (snd (apply_eviction cli i e sw))) = Pressure (fst sw)"
    by (cases sw) (auto simp: apply_eviction_def DeleteLane_alt Tx_def DeleteCacheLane_def Pressure_def Let_def split: prod.split sum.split)
  obtain r s w where r: "apply_eviction cli i e sw = (r, s, w)" by (rule prod_cases3)
  have "Pressure (snd (Tx (RecordAudit actor a b c) s)) = Pressure s" for a b c
    by (simp add: Tx_def RecordAudit_def Pressure_def)
  then show ?case using Cons.IH step by (auto simp: r split: option.split prod.split) (metis fst_conv snd_conv)
qed simp

lemma collect_fields:
  "dm_level (collect_if_wanted d now l m) = dm_level m" "dm_gate (collect_if_wanted d now l m) = dm_gate m"
  "Pressure (dm_store (collect_if_wanted d now l m)) = Pressure (dm_store m)"
  using RunGC_pressure [of "md_cli d" "md_instanceID d" "''disk-monitor''"]
  by (auto simp: collect_if_wanted_def collectGarbage_def PlanGC_def split: prod.split sum.split) (metis fst_conv snd_conv)

lemma collect_opened: "opened (dm_store (collect_if_wanted d now l m)) = opened (dm_store m)"
  by (rule opened_cong) (rule collect_fields)

locale monitored = admission_gate "md_hold d" held + durable_writer "md_persist d"
  for d :: "('g, 'w) monitor_deps" and held :: "'g \<Rightarrow> bool"
begin

lemma new_governed: "governed held (newDiskMonitor d g s w)"
  by (simp add: governed_def newDiskMonitor_def held_hold)

lemma resumed_governed: "governed held m \<Longrightarrow> governed held (snd (resume_level d m))"
  by (auto simp: governed_def resume_level_def held_hold split: option.splits prod.splits)

lemma pass_governed:
  assumes "governed held m"
  shows "governed held (snd (disk_pass d now m))"
proof (cases "measure_disk d (dm_world m)")
  case (Pair r w)
  show ?thesis
  proof (cases r)
    case (Inl err)
    show ?thesis
    proof (cases "dm_level m \<in> {SoftEmergency, HardEmergency}")
      case True
      then show ?thesis using assms Pair Inl by (auto simp: disk_pass_def governed_def Let_def)
    next
      case False
      then show ?thesis using Pair Inl by (auto simp: disk_pass_def governed_def Let_def held_hold split: prod.split)
    qed
  next
    case (Inr f)
    define next' where "next' = Next (dm_level m) f (dp_thresholds (md_policy d))"
    obtain r' s where p: "md_persist d (dm_level m) next' f [] (dm_store m) = (r', s)" by (rule prod.exhaust)
    show ?thesis
    proof (cases r')
      case None
      then have "map_option pr_level (Pressure s) = Some (String next')" using written p by simp
      then have "AdmissionClosed next' \<or> opened s" by (auto simp: opened_def)
      then show ?thesis using Pair Inr p None
        by (auto simp: disk_pass_def Let_def next'_def [symmetric] collect_fields collect_opened governed_def apply_level_def held_hold)
    next
      case (Some e)
      then have "opened s = opened (dm_store m)" using unwritten p opened_cong by metis
      then show ?thesis using Pair Inr p Some assms
        by (auto simp: disk_pass_def Let_def next'_def [symmetric] collect_fields collect_opened governed_def apply_level_def held_hold)
    qed
  qed
qed

end

section \<open>The controller's monitor\<close>

lemma held_unchanged:
  "a_held (advanceDiscoveryFrom key a) = a_held a" "a_held (rotateDiscovery poll a) = a_held a"
  "a_held (changeRemoteCapacity key change a) = a_held a" "a_held (setRemoteKnown key known a) = a_held a"
  "a_held (snd (planLocked a)) = a_held a" "a_held (invalidatePlan a) = a_held a" "a_held (add_active n key a) = a_held a"
  by (simp_all add: advanceDiscoveryFrom_def rotateDiscovery_def changeRemoteCapacity_def setRemoteKnown_def planLocked_def
      invalidatePlan_def add_active_def Let_def split: option.splits)

lemma held_Hold: "a_held (Hold b a) = b"
proof -
  have "a_held (fold thawTier ts a) = a_held a" for ts a
    by (induction ts arbitrary: a) (simp_all add: thawTier_def held_unchanged split: option.splits)
  then show ?thesis by (simp add: Hold_def Let_def held_unchanged)
qed

text \<open>Every other operation of the pool leaves the hold alone.\<close>

lemma held_kept:
  "a_held (snd (Register t key n a)) = a_held a" "a_held (SetAssignedDemand key dem a) = a_held a"
  "a_held (snd (TryReserve key a)) = a_held a" "a_held (snd (Adopt key a)) = a_held a" "a_held (Release key a) = a_held a"
  "a_held (snd (Plan a)) = a_held a" "a_held (snd (PoolReport t a)) = a_held a" "a_held (snd (CapacityReport a)) = a_held a"
  "a_held (SessionOpened key a) = a_held a" "a_held (SessionClosed key c a) = a_held a"
  "a_held (snd (BeginPoll key a)) = a_held a" "a_held (CompletePoll p ok e a) = a_held a"
proof -
  show "a_held (snd (TryReserve key a)) = a_held a"
    by (cases rule: TryReserve_cases [of key a]) (simp_all add: held_unchanged)
  show "a_held (snd (BeginPoll key a)) = a_held a"
    by (cases rule: BeginPoll_cases [of key a]) (simp_all add: held_unchanged)
qed (auto simp: Register_def SetAssignedDemand_def Adopt_eq Release_eq Plan_def PoolReport_def CapacityReport_def SessionOpened_def
    SessionClosed_def CompletePoll_def Let_def split_def held_unchanged split: option.splits)

interpretation credit_gate: admission_gate Hold a_held
  by unfold_locales (rule held_Hold)

lemma store_writer_laws:
  "store_writer c prev next f detail s = (None, s') \<Longrightarrow> map_option pr_level (Pressure s') = Some (String next)"
  "store_writer c prev next f detail s = (Some e, s') \<Longrightarrow> Pressure s' = Pressure s"
  by (auto simp: store_writer_def Tx_def persistVerdict_def andThen_def SetPressure_def RecordAudit_def Pressure_def ret_def Let_def
      split: if_splits)

interpretation committed: durable_writer "store_writer c" for c
  by unfold_locales (fact store_writer_laws)+

interpretation controller: monitored "controller_deps task cli policy i render c" a_held for task cli policy i render c
  by unfold_locales (simp_all add: controller_deps_def held_Hold store_writer_laws)

text \<open>
  A running controller.  It starts on any store an earlier process left, with a fresh pool; then its passes, whose
  measurements and commits may fail, interleave with the pool's other clients and with whatever else writes the store
  or reaches the daemon.  Nothing but the monitor holds the pool or stores a verdict.
\<close>

inductive client_op :: "allocator \<Rightarrow> poll list \<Rightarrow> allocator \<Rightarrow> poll list \<Rightarrow> bool"
  where
    register: "a_tierOf a key = None \<Longrightarrow> 0 \<le> n \<Longrightarrow> client_op a polls (snd (Register t key n a)) polls"
  | demand: "client_op a polls (SetAssignedDemand key dem a) polls"
  | reserve: "client_op a polls (snd (TryReserve key a)) polls"
  | adopt: "client_op a polls (snd (Adopt key a)) polls"
  | release: "client_op a polls (Release key a) polls"
  | plan: "client_op a polls (snd (Plan a)) polls"
  | pool_report: "client_op a polls (snd (PoolReport t a)) polls"
  | capacity_report: "client_op a polls (snd (CapacityReport a)) polls"
  | session_opened: "client_op a polls (SessionOpened key a) polls"
  | session_closed: "client_op a polls (SessionClosed key c a) polls"
  | begin_poll: "length polls < 2 ^ 64 - 1 \<Longrightarrow> client_op a polls (snd (BeginPoll key a)) (fst (BeginPoll key a) # polls)"
  | complete_poll: "p \<in> set polls \<Longrightarrow> client_op a polls (CompletePoll p ok e a) polls"

inductive running :: "int \<Rightarrow> (allocator, 'w) disk_monitor \<Rightarrow> poll list \<Rightarrow> bool"
  for g :: int
  where
    start: "resume_level (controller_deps task cli policy i render c)
        (newDiskMonitor (controller_deps task cli policy i render c) (NewWithGlobalParallelism g) s w) = (None, m) \<Longrightarrow> running g m []"
  | verdict: "running g m polls \<Longrightarrow> running g (snd (disk_pass (controller_deps task cli policy i render c) now m)) polls"
  | client: "running g m polls \<Longrightarrow> client_op (dm_gate m) polls a polls' \<Longrightarrow> running g (m\<lparr>dm_gate := a\<rparr>) polls'"
  | elsewhere: "running g m polls \<Longrightarrow> Pressure s = Pressure (dm_store m) \<Longrightarrow> running g (m\<lparr>dm_store := s, dm_world := w\<rparr>) polls"

lemma client_op_held: "client_op a polls a' polls' \<Longrightarrow> a_held a' = a_held a"
  by (induction rule: client_op.induct) (simp_all add: held_kept)

lemma client_op_reachable: "client_op a polls a' polls' \<Longrightarrow> reachable g a polls \<Longrightarrow> reachable g a' polls'"
  by (induction rule: client_op.induct) (auto intro: reachable.intros local_op.intros)

lemma running_governed: "running g m polls \<Longrightarrow> governed a_held m"
proof (induction rule: running.induct)
  case (start task cli policy i render c s w m)
  then show ?case
    using controller.resumed_governed [OF controller.new_governed, of task cli policy i render c task cli policy i render c] by (metis snd_conv)
next
  case (client m polls a polls')
  then show ?case by (simp add: governed_def client_op_held)
next
  case (elsewhere m polls s w)
  then show ?case using opened_cong [of s "dm_store m"] by (simp add: governed_def)
qed (rule controller.pass_governed)

text \<open>The gate moves by holds only, so the pool stays reachable.\<close>

lemma gate_moves:
  "md_hold d = Hold \<Longrightarrow> reachable g (dm_gate m) polls \<Longrightarrow> reachable g (dm_gate (snd (disk_pass d now m))) polls"
  "md_hold d = Hold \<Longrightarrow> reachable g (dm_gate m) polls \<Longrightarrow> reachable g (dm_gate (snd (resume_level d m))) polls"
  by (auto simp: disk_pass_def resume_level_def apply_level_def collect_fields Let_def
      intro: reachable.local local_op.hold split: prod.splits sum.splits option.splits)

lemma running_reachable: "running g m polls \<Longrightarrow> reachable g (dm_gate m) polls"
proof (induction rule: running.induct)
  case (start task cli policy i render c s w m)
  have "reachable g (dm_gate (newDiskMonitor (controller_deps task cli policy i render c) (NewWithGlobalParallelism g) s w)) []"
    by (simp add: newDiskMonitor_def controller_deps_def) (rule reachable.local [OF reachable.new local_op.hold])
  then show ?case using start gate_moves(2) [of "controller_deps task cli policy i render c" g _ "[]"]
    by (metis snd_conv controller_deps_def monitor_deps.select_convs(3))
next
  case (verdict m polls task cli policy i render c now)
  then show ?case by (intro gate_moves(1)) (simp_all add: controller_deps_def)
next
  case (client m polls a polls')
  then show ?case by (simp add: client_op_reachable)
qed simp

section \<open>Under a closed level\<close>

lemma held_pool_admits_nothing:
  assumes "alloc_ok a" "a_held a"
  shows "\<not> fst (TryReserve key a)" "ReservableCapacity a key = 0"
proof -
  have held: "b_held b" if "poolOf a key = Some p" "p_state p key = Some b" for p b
    using binding_ok_of [OF assms(1), of key b] that assms(2) by (simp add: binding_ok_def binding_of_def)
  show "\<not> fst (TryReserve key a)"
    by (cases rule: TryReserve_cases [of key a]) (use held in auto)
  show "ReservableCapacity a key = 0"
    using held by (auto simp: ReservableCapacity_def split: option.splits)
qed

lemma held_pool_announces_nothing_new:
  assumes "reachable g a polls" "a_held a"
  shows "pl_capacity (fst (BeginPoll key a)) \<le> Active a key"
proof -
  note r = reachable_ok [OF assms(1)]
  have nonneg: "0 \<le> Active a key"
    using binding_ok_of [OF r(1), of key] by (auto simp: Active_def binding_ok_def split: option.splits)
  show ?thesis
  proof (cases rule: BeginPoll_cases [of key a])
    case refused
    then show ?thesis using nonneg by (simp add: invalidPoll_def)
  next
    case (issued b pl capacity discovery generation desired)
    obtain p where p: "poolOf a key = Some p" "p_state p key = Some b" "(tierKey a key, p) \<in> set (a_pools a)" "key \<in> set (p_order p)"
      using binding_home [OF r(2) issued(1)] by metis
    have "reserve_ok a (\<lambda>_. 0) (ap_desired (buildPlan a))" using buildPlan_within(1) [OF r(2)] by (simp add: plan_within_def)
    then have "offer_ok b (ap_desired (buildPlan a) key)" using p by (fastforce simp: reserve_ok_def offers_ok_def)
    moreover have "b_held b" using binding_ok_of [OF r(1) issued(1)] assms(2) by (simp add: binding_ok_def)
    moreover have "fst (planLocked a) = buildPlan a" using Plan_current [OF r(3)] by (auto simp: Plan_def planLocked_def split: option.splits)
    ultimately have "desired \<le> Active a key" using nonneg issued(1,4) by (auto simp: offer_ok_def Active_def)
    then show ?thesis using clampPublished_bounds(4) [OF p(1,2), of desired] issued(3,6) nonneg by simp
  qed
qed

text \<open>C6. Disk pressure governs admission, whatever fails: in every state of a running controller the pool is held
  exactly when the level in force is closed.  While it is, no job is admitted and no poll announces more than what
  already runs; and admission is open only behind a committed open verdict, so that a restart never reads an
  uncommitted recovery as permission.\<close>

theorem pressure_governs_admission:
  assumes "running g m polls"
  shows "a_held (dm_gate m) = AdmissionClosed (dm_level m) \<and>
    (AdmissionClosed (dm_level m) \<longrightarrow> (\<forall>key. \<not> fst (TryReserve key (dm_gate m)) \<and> ReservableCapacity (dm_gate m) key = 0 \<and>
      pl_capacity (fst (BeginPoll key (dm_gate m))) \<le> Active (dm_gate m) key)) \<and>
    (\<not> AdmissionClosed (dm_level m) \<longrightarrow> opened (dm_store m))"
proof -
  have g: "a_held (dm_gate m) = AdmissionClosed (dm_level m)" "AdmissionClosed (dm_level m) \<or> opened (dm_store m)"
    using running_governed [OF assms] by (auto simp: governed_def)
  note r = running_reachable [OF assms]
  show ?thesis
    using g held_pool_admits_nothing [OF reachable_ok(1) [OF r]] held_pool_announces_nothing_new [OF r] by auto
qed

text \<open>A full disk, then room again: the pool is closed, and opens behind the verdict of a second pass.\<close>

definition demo_df :: "int \<Rightarrow> 'w \<Rightarrow> (engine_error + int \<times> string) \<times> 'w"
  where "demo_df avail w = (Inr (0, df_table_text ''1024-blocks'' ''overlay'' 2 0 avail ''0%'' ''/''), w)"

definition demo_disk_policy :: disk_policy
  where "demo_disk_policy = \<lparr>dp_thresholds = \<lparr>t_MaxManagedBytes = 0, t_HighPct = 85, t_LowPct = 70, t_SoftFreeBytes = 200,
    t_HardFreeBytes = 100, t_ReserveFreeBytes = 0\<rparr>, dp_ttl = 0\<rparr>"

definition demo_deps :: "int \<Rightarrow> (allocator, ((string \<times> string) \<times> labels) list) monitor_deps"
  where "demo_deps avail = controller_deps (demo_df avail) demo_daemon demo_disk_policy ''i1'' (\<lambda>_. []) True"

definition demo_monitor :: "(allocator, ((string \<times> string) \<times> labels) list) disk_monitor"
  where "demo_monitor = snd (resume_level (demo_deps 0) (newDiskMonitor (demo_deps 0) (NewWithGlobalParallelism 1) (empty_store 1 0) []))"

definition demo_full :: "(allocator, ((string \<times> string) \<times> labels) list) disk_monitor"
  where "demo_full = (let m = snd (disk_pass (demo_deps 0) 0 demo_monitor) in m\<lparr>dm_gate := snd (Register ''std'' ''a'' 2 (dm_gate m))\<rparr>)"

lemma demo_full_running: "running 1 demo_full []"
proof -
  have "fst (resume_level (demo_deps 0) (newDiskMonitor (demo_deps 0) (NewWithGlobalParallelism 1) (empty_store 1 0) [])) = None"
    by code_simp
  then have "running 1 demo_monitor []"
    unfolding demo_monitor_def demo_deps_def by (intro running.start prod_eqI) simp_all
  then have "running 1 (snd (disk_pass (demo_deps 0) 0 demo_monitor)) []" unfolding demo_deps_def by (rule running.verdict)
  moreover have "a_tierOf (dm_gate (snd (disk_pass (demo_deps 0) 0 demo_monitor))) ''a'' = None" by code_simp
  ultimately show ?thesis unfolding demo_full_def Let_def by (intro running.client [OF _ client_op.register]) simp_all
qed

theorem pressure_governs_admission_witness:
  "dm_level demo_full = HardEmergency \<and> \<not> fst (TryReserve ''a'' (dm_gate demo_full)) \<and>
   (let m = snd (disk_pass (demo_deps 1) 0 demo_full) in dm_level m = Normal \<and> \<not> a_held (dm_gate m) \<and> opened (dm_store m))"
proof -
  let ?m = "snd (disk_pass (demo_deps 1) 0 demo_full)"
  have lvl: "dm_level demo_full = HardEmergency" "dm_level ?m = Normal" by code_simp+
  have "running 1 ?m []" unfolding demo_deps_def by (rule running.verdict [OF demo_full_running])
  then show ?thesis
    using pressure_governs_admission [OF demo_full_running] pressure_governs_admission [of 1 ?m "[]"] by (simp add: lvl Let_def)
qed

end
