(* ===== verification/NetSandbox.thy ===== *)
theory NetSandbox
  imports Engine Egress
begin

unbundle bit_operations_syntax

text \<open>
  The restricted profile's egress policy (\<^verbatim>\<open>internal/netsandbox/netsandbox.go\<close>): discovering the deny set, comparing
  it with the set in force, fanning a change out to the running gateways, closing the ones that will not take it, and
  confirming a launch.  The daemon is the package's own interface \<^verbatim>\<open>Daemon\<close>, a record of functions on its state.
  The gateways of one pass are reached concurrently; the order in which their commands take effect is the argument
  \<^verbatim>\<open>sched\<close>.  A step under a deadline that expires is a step that answers an error.
\<close>

section \<open>Printing an address\<close>

definition octet_text :: "nat \<Rightarrow> 32 word \<Rightarrow> string"
  where "octet_text k a = decimal (uint (drop_bit k a AND 0xFF))"

definition v4_text :: "32 word \<Rightarrow> string"
  where "v4_text a = Join [octet_text 24 a, octet_text 16 a, octet_text 8 a, octet_text 0 a] ''.''"

definition hex_digit :: "nat \<Rightarrow> char"
  where "hex_digit n = ''0123456789abcdef'' ! n"

fun hex_text :: "nat \<Rightarrow> string"
  where "hex_text n = (if n < 16 then [hex_digit n] else hex_text (n div 16) @ [hex_digit (n mod 16)])"

definition v6_words :: "128 word \<Rightarrow> nat list"
  where "v6_words a = map (\<lambda>k. unat (drop_bit (112 - 16 * k) a AND 0xFFFF)) [0..<8]"

definition zeros_at :: "nat list \<Rightarrow> nat \<Rightarrow> nat"
  where "zeros_at ws i = length (takeWhile (\<lambda>g. g = 0) (drop i ws))"

text \<open>The first longest run of two or more zero groups is written as a double colon.\<close>

definition v6_text :: "128 word \<Rightarrow> string"
  where "v6_text a =
    (if drop_bit 32 a = 0xFFFF then ''::ffff:'' @ v4_text (ucast a)
     else (let ws = v6_words a; n = fold max (map (zeros_at ws) [0..<8]) 0 in
       if n < 2 then Join (map hex_text ws) '':''
       else (let i = length (takeWhile (\<lambda>i. zeros_at ws i \<noteq> n) [0..<8]) in
         Join (map hex_text (take i ws)) '':'' @ ''::'' @ Join (map hex_text (drop (i + n) ws)) '':'')))"

fun addr_text :: "addr \<Rightarrow> string"
  where
    "addr_text (V4 a) = v4_text a"
  | "addr_text (V6 a) = v6_text a"

definition prefix_text :: "prefix \<Rightarrow> string"
  where "prefix_text p = addr_text (Addr p) @ ''/'' @ decimal (int (Bits p))"

section \<open>The daemon\<close>

record 'w net_daemon =
  nd_EnsureOwnedNetwork :: "network_spec \<Rightarrow> 'w \<Rightarrow> (engine_error + string) \<times> 'w"
  nd_NetworkSubnet :: "string \<Rightarrow> 'w \<Rightarrow> (engine_error + string) \<times> 'w"
  nd_AllNetworkSubnets :: "'w \<Rightarrow> (engine_error + string list) \<times> 'w"
  nd_RunTask :: "string list \<Rightarrow> 'w \<Rightarrow> (engine_error + int \<times> string) \<times> 'w"
  nd_ListOwnedContainers :: "instance_id \<Rightarrow> 'w \<Rightarrow> (engine_error + owned_container list) \<times> 'w"
  nd_Exec :: "string \<Rightarrow> string list \<Rightarrow> 'w \<Rightarrow> (engine_error + int \<times> string) \<times> 'w"
  nd_ExecWithInput :: "string \<Rightarrow> string list \<Rightarrow> string \<Rightarrow> 'w \<Rightarrow> (engine_error + int \<times> string) \<times> 'w"
  nd_RemoveContainer :: "string \<Rightarrow> 'w \<Rightarrow> engine_error option \<times> 'w"

text \<open>\<^verbatim>\<open>capsule.Sandbox\<close>; a copy of it is the same value.\<close>

record sandbox =
  sb_UplinkNetworkID :: string
  sb_UplinkSubnet :: string
  sb_Allow :: "string list"
  sb_Deny :: "string list"

text \<open>The manager without its mutable snapshot, which the operations thread.  \<^verbatim>\<open>nm_encode\<close> is the JSON encoder.\<close>

record 'w sandbox_manager =
  nm_daemon :: "'w net_daemon"
  nm_instanceID :: instance_id
  nm_encode :: "policy \<Rightarrow> string"
  nm_allow :: "string list"
  nm_denies :: "string list"

datatype sandbox_error =
    UplinkNetwork engine_error | UplinkSubnet engine_error | HostDiscovery engine_error | HostProbeExited int string
  | HostProbeLine string | BlindProbe | DockerSubnets engine_error | EnumerateGateways engine_error
  | GatewayReload engine_error | GatewayReloadExited int string | GatewaysOpen "string list"
  | NoRunningGateway lease_id | PolicyMoved | ContextEnded | GatewaysNotClosed nat

definition SupervisorPath :: string
  where "SupervisorPath = ''/usr/local/bin/capsule-supervisor''"

definition GatewayDenyAllCommand :: string
  where "GatewayDenyAllCommand = ''gateway-deny-all''"

section \<open>Discovery\<close>

text \<open>The fields of one line: every field after an \<^verbatim>\<open>inet\<close> is an address with its prefix length.\<close>

fun inet_fields :: "string list \<Rightarrow> string list"
  where
    "inet_fields (f # g # fs) = (if f = ''inet'' then g # inet_fields (g # fs) else inet_fields (g # fs))"
  | "inet_fields _ = []"

fun add_networks :: "string \<Rightarrow> string list \<Rightarrow> string list \<Rightarrow> sandbox_error + string list"
  where
    "add_networks text' [] cidrs = Inr cidrs"
  | "add_networks text' (f # fs) cidrs =
      (case ParsePrefix f of
         None \<Rightarrow> Inl (HostProbeLine text')
       | Some p \<Rightarrow> (let network = prefix_text (Masked p) in
           add_networks text' fs (if network \<in> set cidrs then cidrs else cidrs @ [network])))"

fun host_lines :: "string list \<Rightarrow> string list \<Rightarrow> sandbox_error + string list"
  where
    "host_lines [] cidrs = Inr cidrs"
  | "host_lines (l # ls) cidrs =
      (case add_networks l (inet_fields (Fields l)) cidrs of
         Inl e \<Rightarrow> Inl e
       | Inr cidrs' \<Rightarrow> host_lines ls cidrs')"

definition parseHostCIDRs :: "string \<Rightarrow> sandbox_error + string list"
  where "parseHostCIDRs out = host_lines (Split (CHR 0x0A) out) []"

definition discoverHostCIDRs :: "'w sandbox_manager \<Rightarrow> 'w \<Rightarrow> (sandbox_error + string list) \<times> 'w"
  where "discoverHostCIDRs n w =
    (case nd_RunTask (nm_daemon n) [''/bin/sh'', ''-c'', ''ip -o -4 addr show scope global''] w of
       (Inl e, w') \<Rightarrow> (Inl (HostDiscovery e), w')
     | (Inr (code, out), w') \<Rightarrow>
         if code \<noteq> 0 then (Inl (HostProbeExited code out), w')
         else (case parseHostCIDRs out of
                 Inl e \<Rightarrow> (Inl e, w')
               | Inr cidrs \<Rightarrow> if cidrs = [] then (Inl BlindProbe, w') else (Inr cidrs, w')))"

text \<open>The uplink's name takes the first eight characters of the instance id, which the store generates longer.\<close>

definition uplink_spec :: "instance_id \<Rightarrow> network_spec"
  where "uplink_spec i = \<lparr>ns_Name = ''runpool-uplink-'' @ take 8 i, ns_Internal = False, ns_Isolated = False,
    ns_Labels = Labels (no_ownership\<lparr>ow_Instance := i, ow_Role := RoleUplink\<rparr>)\<rparr>"

definition build :: "'w sandbox_manager \<Rightarrow> 'w \<Rightarrow> (sandbox_error + sandbox) \<times> 'w"
  where "build n w =
    (case nd_EnsureOwnedNetwork (nm_daemon n) (uplink_spec (nm_instanceID n)) w of
       (Inl e, w') \<Rightarrow> (Inl (UplinkNetwork e), w')
     | (Inr uplinkID, w1) \<Rightarrow>
        (case nd_NetworkSubnet (nm_daemon n) uplinkID w1 of
           (Inl e, w') \<Rightarrow> (Inl (UplinkSubnet e), w')
         | (Inr uplinkSubnet, w2) \<Rightarrow>
            (case discoverHostCIDRs n w2 of
               (Inl e, w') \<Rightarrow> (Inl e, w')
             | (Inr hostCIDRs, w3) \<Rightarrow>
                (case nd_AllNetworkSubnets (nm_daemon n) w3 of
                   (Inl e, w') \<Rightarrow> (Inl (DockerSubnets e), w')
                 | (Inr dockerSubnets, w4) \<Rightarrow>
                    (Inr \<lparr>sb_UplinkNetworkID = uplinkID, sb_UplinkSubnet = uplinkSubnet, sb_Allow = nm_allow n,
                       sb_Deny = BuildDeny uplinkSubnet hostCIDRs (dockerSubnets @ nm_denies n)\<rparr>, w4)))))"

section \<open>Comparing two sets\<close>

datatype policy_change = PolicyUnchanged | PolicyRestriction | PolicyRelaxation | PolicyMixed

fun restricts :: "policy_change \<Rightarrow> bool"
  where
    "restricts PolicyRestriction = True"
  | "restricts PolicyMixed = True"
  | "restricts _ = False"

definition ClassifyPolicy :: "string list \<Rightarrow> string list \<Rightarrow> policy_change"
  where "ClassifyPolicy inForce next =
    (let added = list_ex (\<lambda>c. c \<notin> set inForce) next; removed = list_ex (\<lambda>c. c \<notin> set next) inForce
     in if added \<and> removed then PolicyMixed else if added then PolicyRestriction
        else if removed then PolicyRelaxation else PolicyUnchanged)"

definition sameSandbox :: "sandbox \<Rightarrow> sandbox \<Rightarrow> bool"
  where "sameSandbox a b \<longleftrightarrow>
    ClassifyPolicy (sb_Deny a) (sb_Deny b) = PolicyUnchanged \<and> sb_UplinkNetworkID a = sb_UplinkNetworkID b"

section \<open>Reaching the gateways\<close>

fun eachGateway :: "('a \<Rightarrow> 'w \<Rightarrow> 'b \<times> 'w) \<Rightarrow> 'a list \<Rightarrow> 'w \<Rightarrow> 'b list \<times> 'w"
  where
    "eachGateway fn [] w = ([], w)"
  | "eachGateway fn (x # xs) w =
      (let (r, w) = fn x w; (rs, w) = eachGateway fn xs w in (r # rs, w))"

text \<open>The items whose call answered an error.\<close>

definition failed_of :: "'a list \<Rightarrow> 'e option list \<Rightarrow> 'a list"
  where "failed_of xs rs = map fst (filter (\<lambda>(_, r). r \<noteq> None) (zip xs rs))"

definition reloadGateway :: "'w sandbox_manager \<Rightarrow> string \<Rightarrow> string \<Rightarrow> 'w \<Rightarrow> sandbox_error option \<times> 'w"
  where "reloadGateway n payload i w =
    (case nd_ExecWithInput (nm_daemon n) i [SupervisorPath, ''gateway-reload''] payload w of
       (Inl e, w') \<Rightarrow> (Some (GatewayReload e), w')
     | (Inr (code, out), w') \<Rightarrow> (if code \<noteq> 0 then Some (GatewayReloadExited code out) else None, w'))"

definition policy_payload :: "'w sandbox_manager \<Rightarrow> string list \<Rightarrow> string list \<Rightarrow> string"
  where "policy_payload n allow deny =
    nm_encode n \<lparr>po_InternalSubnet = [], po_UplinkSubnet = [], po_Allow = allow, po_Deny = deny\<rparr>"

definition live_gateways :: "owned_container list \<Rightarrow> string list"
  where "live_gateways cs = map oc_ID (filter (\<lambda>c. oc_Role c = RoleGateway \<and> oc_Running c) cs)"

definition reloadGateways ::
  "'w sandbox_manager \<Rightarrow> (string list \<Rightarrow> string list) \<Rightarrow> string list \<Rightarrow> string list \<Rightarrow> 'w \<Rightarrow> (sandbox_error + string list) \<times> 'w"
  where "reloadGateways n sched allow deny w =
    (case nd_ListOwnedContainers (nm_daemon n) (nm_instanceID n) w of
       (Inl e, w') \<Rightarrow> (Inl (EnumerateGateways e), w')
     | (Inr cs, w1) \<Rightarrow>
        (let order = sched (live_gateways cs);
             (rs, w2) = eachGateway (reloadGateway n (policy_payload n allow deny)) order w1
         in (Inr (failed_of order rs), w2)))"

text \<open>Closing is the deny-all command, whatever it answers, and then the removal, whose answer is the answer.\<close>

definition closeGateway :: "'w sandbox_manager \<Rightarrow> string \<Rightarrow> 'w \<Rightarrow> engine_error option \<times> 'w"
  where "closeGateway n i w =
    (let (_, w) = nd_Exec (nm_daemon n) i [SupervisorPath, GatewayDenyAllCommand] w
     in nd_RemoveContainer (nm_daemon n) i w)"

definition closeGateways :: "'w sandbox_manager \<Rightarrow> (string list \<Rightarrow> string list) \<Rightarrow> 'w \<Rightarrow> sandbox_error option \<times> 'w"
  where "closeGateways n sched w =
    (case nd_ListOwnedContainers (nm_daemon n) (nm_instanceID n) w of
       (Inl e, w') \<Rightarrow> (Some (EnumerateGateways e), w')
     | (Inr cs, w1) \<Rightarrow>
        (let (rs, w2) = eachGateway (closeGateway n) (sched (live_gateways cs)) w1;
             failures = length (filter (\<lambda>r. r \<noteq> None) rs)
         in (if failures > 0 then Some (GatewaysNotClosed failures) else None, w2)))"

section \<open>One pass\<close>

text \<open>The snapshot moves only at the end.\<close>

definition applyPolicy ::
  "'w sandbox_manager \<Rightarrow> (string list \<Rightarrow> string list) \<Rightarrow> sandbox \<Rightarrow> sandbox \<times> 'w \<Rightarrow> sandbox_error option \<times> sandbox \<times> 'w"
  where "applyPolicy n sched next sw =
    (case sw of (previous, w) \<Rightarrow>
      let change = ClassifyPolicy (sb_Deny previous) (sb_Deny next);
          uplinkChanged = (sb_UplinkNetworkID previous \<noteq> sb_UplinkNetworkID next)
      in if change = PolicyUnchanged \<and> \<not> uplinkChanged then (None, previous, w)
         else case reloadGateways n sched (sb_Allow next) (sb_Deny next) w of
           (Inl e, w1) \<Rightarrow> (Some e, previous, w1)
         | (Inr failed, w1) \<Rightarrow>
             if failed \<noteq> [] \<and> restricts change
             then (let order = sched failed;
                       (rs, w2) = eachGateway (closeGateway n) order w1;
                       open' = failed_of order rs
                   in if open' \<noteq> [] then (Some (GatewaysOpen open'), previous, w2) else (None, next, w2))
             else (None, next, w1))"

text \<open>\<^verbatim>\<open>slot\<close> says whether the refresh slot was taken before the caller's context ended.\<close>

definition refresh ::
  "'w sandbox_manager \<Rightarrow> (string list \<Rightarrow> string list) \<Rightarrow> bool \<Rightarrow> sandbox \<times> 'w \<Rightarrow> sandbox_error option \<times> sandbox \<times> 'w"
  where "refresh n sched slot sw =
    (if \<not> slot then (Some ContextEnded, sw)
     else case build n (snd sw) of
       (Inl e, w') \<Rightarrow> (Some e, fst sw, w')
     | (Inr next, w') \<Rightarrow> applyPolicy n sched next (fst sw, w'))"

text \<open>A periodic pass; \<^verbatim>\<open>stopped\<close> says whether its own context has ended.  The answer of the emergency close is logged.\<close>

definition rediscover ::
  "'w sandbox_manager \<Rightarrow> (string list \<Rightarrow> string list) \<Rightarrow> bool \<Rightarrow> bool \<Rightarrow> sandbox \<times> 'w \<Rightarrow> sandbox_error option \<times> sandbox \<times> 'w"
  where "rediscover n sched slot stopped sw =
    (case refresh n sched slot sw of
       (None, sw') \<Rightarrow> (None, sw')
     | (Some e, s', w') \<Rightarrow>
         if stopped then (None, s', w')
         else (Some e, s', snd (closeGateways n sched w')))"

section \<open>Launches\<close>

text \<open>A manager that is absent is the unsafe-open-egress profile.\<close>

definition ForLaunch ::
  "'w sandbox_manager option \<Rightarrow> (string list \<Rightarrow> string list) \<Rightarrow> bool \<Rightarrow> sandbox \<times> 'w
    \<Rightarrow> (sandbox_error + sandbox option) \<times> sandbox \<times> 'w"
  where "ForLaunch n sched slot sw =
    (case n of
       None \<Rightarrow> (Inr None, sw)
     | Some n \<Rightarrow>
         (case refresh n sched slot sw of
            (Some e, sw') \<Rightarrow> (Inl e, sw')
          | (None, sw') \<Rightarrow> (Inr (Some (fst sw')), sw')))"

fun confirm_gateways ::
  "'w sandbox_manager \<Rightarrow> lease_id \<Rightarrow> string \<Rightarrow> owned_container list \<Rightarrow> nat \<Rightarrow> 'w \<Rightarrow> (sandbox_error + nat) \<times> 'w"
  where
    "confirm_gateways n leaseID payload [] confirmed w = (Inr confirmed, w)"
  | "confirm_gateways n leaseID payload (c # cs) confirmed w =
      (if oc_Role c \<noteq> RoleGateway \<or> oc_LeaseID c \<noteq> leaseID \<or> \<not> oc_Running c
       then confirm_gateways n leaseID payload cs confirmed w
       else case reloadGateway n payload (oc_ID c) w of
         (Some e, w') \<Rightarrow> (Inl e, w')
       | (None, w') \<Rightarrow> confirm_gateways n leaseID payload cs (confirmed + 1) w')"

text \<open>The comparison after the installs guards against a second holder of the slot; under the slot the snapshot it
  reads again is the one it read before.\<close>

definition ConfirmLaunch ::
  "'w sandbox_manager option \<Rightarrow> bool \<Rightarrow> lease_id \<Rightarrow> sandbox option \<Rightarrow> sandbox \<times> 'w \<Rightarrow> sandbox_error option \<times> sandbox \<times> 'w"
  where "ConfirmLaunch n slot leaseID launched sw =
    (case (n, launched) of
       (Some n, Some launched) \<Rightarrow>
         if \<not> slot then (Some ContextEnded, sw)
         else (let inForce = fst sw in
           if sameSandbox launched inForce then (None, sw)
           else case nd_ListOwnedContainers (nm_daemon n) (nm_instanceID n) (snd sw) of
             (Inl e, w') \<Rightarrow> (Some (EnumerateGateways e), inForce, w')
           | (Inr cs, w1) \<Rightarrow>
               (case confirm_gateways n leaseID (policy_payload n (sb_Allow inForce) (sb_Deny inForce)) cs 0 w1 of
                  (Inl e, w') \<Rightarrow> (Some e, inForce, w')
                | (Inr confirmed, w') \<Rightarrow>
                    if confirmed = 0 then (Some (NoRunningGateway leaseID), inForce, w')
                    else if \<not> sameSandbox inForce (fst sw) then (Some PolicyMoved, inForce, w')
                    else (None, inForce, w')))
     | _ \<Rightarrow> (None, sw))"

end
