(* ===== verification/NetSandboxProps.thy ===== *)
theory NetSandboxProps
  imports NetSandbox GatewayProps
begin

text \<open>
  What a pass guarantees over a fleet of gateways: a set it records is in force in every gateway that relays, a pass
  that fails leaves the books alone, a discovery that fails closes the fleet, and a confirmed launch runs under the
  set in force.  The laws of the fleet are a locale, discharged for gateways that run the modelled control commands
  behind a daemon that may lose a command or its answer.
\<close>

section \<open>What a set permits\<close>

definition permits :: "string list \<Rightarrow> string list \<Rightarrow> addr \<Rightarrow> bool"
  where "permits allow deny a =
    Allowed \<lparr>de_allow = List.map_filter ParsePrefix allow, de_deny = List.map_filter ParsePrefix deny\<rparr> a"

lemma permits_anti: "set deny \<subseteq> set deny' \<Longrightarrow> permits allow deny' a \<Longrightarrow> permits allow deny a"
  unfolding permits_def Allowed_def Let_def
  by (auto simp: list_ex_iff List.map_filter_def split: if_splits)

lemma ClassifyPolicy_simps:
  "ClassifyPolicy old next = PolicyUnchanged \<longleftrightarrow> set next = set old"
  "restricts (ClassifyPolicy old next) \<longleftrightarrow> \<not> set next \<subseteq> set old"
  by (auto simp: ClassifyPolicy_def Let_def list_ex_iff)

lemma Compile_permits: "Compile p = Inr d \<Longrightarrow> Allowed d a = permits (po_Allow p) (po_Deny p) a"
proof -
  have "List.map_filter ParsePrefix xs = ys" if "map ParsePrefix xs = map Some ys" for xs ys
    using that by (induction xs arbitrary: ys) (auto simp: List.map_filter_simps)
  then show "Compile p = Inr d \<Longrightarrow> ?thesis" by (cases d) (simp add: Compile_Inr permits_def)
qed

lemma failed_of_Cons [simp]: "failed_of (x # xs) (r # rs) = (if r = None then failed_of xs rs else x # failed_of xs rs)"
  by (simp add: failed_of_def)

section \<open>A fleet\<close>

text \<open>
  \<^verbatim>\<open>passes w i a\<close>: gateway \<^verbatim>\<open>i\<close> would relay to address \<^verbatim>\<open>a\<close>.  A listing names every gateway that relays; a
  reload that answers success has installed the set; one that fails may have installed it all the same; nothing else
  makes a gateway relay more; a removal that answers success has stopped it.
\<close>

locale gateway_fleet =
  fixes n :: "'w sandbox_manager" and passes :: "'w \<Rightarrow> string \<Rightarrow> addr \<Rightarrow> bool"
  assumes listed: "nd_ListOwnedContainers (nm_daemon n) (nm_instanceID n) w = (Inr cs, w') \<Longrightarrow> passes w' i a \<Longrightarrow>
      i \<in> set (live_gateways cs)"
    and list_keeps: "nd_ListOwnedContainers (nm_daemon n) (nm_instanceID n) w = (r, w') \<Longrightarrow> passes w' i a \<Longrightarrow> passes w i a"
    and reload_done: "nd_ExecWithInput (nm_daemon n) i [SupervisorPath, ''gateway-reload''] (policy_payload n allow deny) w =
      (Inr (0, out), w') \<Longrightarrow> passes w' i a \<Longrightarrow> permits allow deny a"
    and reload_keeps: "nd_ExecWithInput (nm_daemon n) i [SupervisorPath, ''gateway-reload''] (policy_payload n allow deny) w =
      (x, w') \<Longrightarrow> passes w' j a \<Longrightarrow> passes w j a \<or> j = i \<and> permits allow deny a"
    and close_keeps: "nd_Exec (nm_daemon n) i [SupervisorPath, GatewayDenyAllCommand] w = (x, w') \<Longrightarrow> passes w' j a \<Longrightarrow> passes w j a"
    and remove_done: "nd_RemoveContainer (nm_daemon n) i w = (None, w') \<Longrightarrow> \<not> passes w' i a"
    and remove_keeps: "nd_RemoveContainer (nm_daemon n) i w = (e, w') \<Longrightarrow> passes w' j a \<Longrightarrow> passes w j a"
begin

text \<open>No gateway relays to an address the set denies.\<close>

definition confined :: "string list \<Rightarrow> 'w \<Rightarrow> bool"
  where "confined deny w \<longleftrightarrow> (\<forall>i a. passes w i a \<longrightarrow> permits (nm_allow n) deny a)"

lemma reloadGateway_effect:
  assumes "reloadGateway n (policy_payload n allow deny) i w = (r, w')"
  shows "passes w' j a \<Longrightarrow> passes w j a \<or> j = i \<and> permits allow deny a"
    "r = None \<Longrightarrow> passes w' i a \<Longrightarrow> permits allow deny a"
  using assms reload_keeps [of i allow deny w _ w' j a] reload_done [of i allow deny w _ w' a]
  by (auto simp: reloadGateway_def split: prod.splits sum.splits if_splits)

lemma closeGateway_effect:
  assumes "closeGateway n i w = (r, w')"
  shows "passes w' j a \<Longrightarrow> passes w j a" "r = None \<Longrightarrow> \<not> passes w' i a"
  using assms close_keeps remove_keeps remove_done unfolding closeGateway_def Let_def
  by (metis (no_types, lifting) prod.collapse case_prod_unfold)+

lemma reload_each:
  assumes "eachGateway (reloadGateway n (policy_payload n allow deny)) is w = (rs, w')"
  shows "length rs = length is \<and> (\<forall>j a. passes w' j a \<longrightarrow> passes w j a \<or> j \<in> set is \<and> permits allow deny a) \<and>
    (\<forall>j a. passes w' j a \<longrightarrow> j \<in> set is \<longrightarrow> permits allow deny a \<or> j \<in> set (failed_of is rs))"
  using assms
proof (induction "is" arbitrary: w rs)
  case (Cons i "is")
  obtain r w1 where r: "reloadGateway n (policy_payload n allow deny) i w = (r, w1)" by (rule prod.exhaust)
  obtain rs1 where rs: "eachGateway (reloadGateway n (policy_payload n allow deny)) is w1 = (rs1, w')" "rs = r # rs1"
    using Cons.prems r by (auto split: prod.splits)
  note IH = Cons.IH [OF rs(1)] and one = reloadGateway_effect [OF r]
  have "permits allow deny a \<or> j \<in> set (failed_of (i # is) rs)" if "passes w' j a" "j \<in> set (i # is)" for j a
  proof (cases "j \<in> set is")
    case True
    then show ?thesis using IH that(1) rs(2) by auto
  next
    case False
    then have "j = i" "passes w1 i a" using that IH by auto
    then show ?thesis using one(2) rs(2) by (cases r) auto
  qed
  moreover have "passes w j a \<or> j \<in> set (i # is) \<and> permits allow deny a" if "passes w' j a" for j a
    using IH one(1) that by auto
  ultimately show ?case using IH rs(2) by auto
qed simp

lemma close_each:
  assumes "eachGateway (closeGateway n) is w = (rs, w')"
  shows "length rs = length is \<and> (\<forall>j a. passes w' j a \<longrightarrow> passes w j a) \<and>
    (\<forall>j a. passes w' j a \<longrightarrow> j \<in> set is \<longrightarrow> j \<in> set (failed_of is rs))"
  using assms
proof (induction "is" arbitrary: w rs)
  case (Cons i "is")
  obtain r w1 where r: "closeGateway n i w = (r, w1)" by (rule prod.exhaust)
  obtain rs1 where rs: "eachGateway (closeGateway n) is w1 = (rs1, w')" "rs = r # rs1"
    using Cons.prems r by (auto split: prod.splits)
  note IH = Cons.IH [OF rs(1)] and one = closeGateway_effect [OF r]
  have "j \<in> set (failed_of (i # is) rs)" if "passes w' j a" "j \<in> set (i # is)" for j a
  proof (cases "j \<in> set is")
    case True
    then show ?thesis using IH that(1) rs(2) by auto
  next
    case False
    then have "j = i" "passes w1 i a" using that IH by auto
    then show ?thesis using one(2) rs(2) by (cases r) auto
  qed
  then show ?case using IH one(1) rs(2) by auto
qed simp

lemma reloadGateways_effect:
  assumes "\<And>xs. set (sched xs) = set xs" "reloadGateways n sched allow deny w = (r, w')"
  shows "passes w' i a \<Longrightarrow> passes w i a \<or> permits allow deny a"
    "r = Inr failed \<Longrightarrow> passes w' i a \<Longrightarrow> i \<notin> set failed \<Longrightarrow> permits allow deny a"
proof -
  obtain l w1 where l: "nd_ListOwnedContainers (nm_daemon n) (nm_instanceID n) w = (l, w1)" by (rule prod.exhaust)
  show "passes w i a \<or> permits allow deny a" if "passes w' i a"
  proof (cases l)
    case (Inl e)
    then show ?thesis using assms(2) l list_keeps that by (fastforce simp: reloadGateways_def)
  next
    case (Inr cs)
    obtain rs where "eachGateway (reloadGateway n (policy_payload n allow deny)) (sched (live_gateways cs)) w1 = (rs, w')"
      using assms(2) l Inr by (auto simp: reloadGateways_def Let_def split: prod.splits)
    from reload_each [OF this] show ?thesis using list_keeps [OF l] that by blast
  qed
  show "permits allow deny a" if got: "r = Inr failed" "passes w' i a" "i \<notin> set failed"
  proof -
    obtain cs where cs: "l = Inr cs" using assms(2) l got(1) by (cases l) (auto simp: reloadGateways_def)
    obtain rs where rs: "eachGateway (reloadGateway n (policy_payload n allow deny)) (sched (live_gateways cs)) w1 = (rs, w')"
      "failed = failed_of (sched (live_gateways cs)) rs"
      using assms(2) l cs got(1) by (auto simp: reloadGateways_def Let_def split: prod.splits)
    note each = reload_each [OF rs(1)]
    show ?thesis
    proof (cases "i \<in> set (live_gateways cs)")
      case True
      then show ?thesis using each got(2,3) rs(2) assms(1) by auto
    next
      case False
      then have "passes w1 i a" using each got(2) assms(1) by blast
      then show ?thesis using listed [OF l [unfolded cs]] False by blast
    qed
  qed
qed

lemma applyPolicy_sound:
  assumes "\<And>xs. set (sched xs) = set xs" "sb_Allow next = nm_allow n" "confined (sb_Deny previous) w"
    "applyPolicy n sched next (previous, w) = (None, s', w')"
  shows "confined (sb_Deny s') w' \<and> (s' = next \<or> s' = previous \<and> set (sb_Deny next) = set (sb_Deny previous))"
proof (cases "ClassifyPolicy (sb_Deny previous) (sb_Deny next) = PolicyUnchanged \<and> sb_UplinkNetworkID previous = sb_UplinkNetworkID next")
  case True
  then show ?thesis using assms(3,4) by (auto simp: applyPolicy_def ClassifyPolicy_simps)
next
  case False
  obtain r w1 where r: "reloadGateways n sched (sb_Allow next) (sb_Deny next) w = (r, w1)" by (rule prod.exhaust)
  have neq: "\<not> (ClassifyPolicy (sb_Deny previous) (sb_Deny next) = PolicyUnchanged \<and> \<not> sb_UplinkNetworkID previous \<noteq> sb_UplinkNetworkID next)"
    using False by blast
  obtain failed where failed: "r = Inr failed"
    using assms(4) r neq by (cases r) (auto simp: applyPolicy_def Let_def)
  note fx = reloadGateways_effect [OF assms(1) r, unfolded assms(2)]
  have old: "permits (nm_allow n) (sb_Deny previous) a" if "passes w i a" for i a using assms(3) that by (simp add: confined_def)
  show ?thesis
  proof (cases "failed \<noteq> [] \<and> restricts (ClassifyPolicy (sb_Deny previous) (sb_Deny next))")
    case True
    obtain rs w2 where c: "eachGateway (closeGateway n) (sched failed) w1 = (rs, w2)" by (rule prod.exhaust)
    have done': "failed_of (sched failed) rs = []" "s' = next" "w' = w2"
      using assms(4) r neq failed True c by (auto simp: applyPolicy_def Let_def split: if_splits)
    note close = close_each [OF c]
    have "permits (nm_allow n) (sb_Deny next) a" if "passes w2 i a" for i a
    proof (cases "i \<in> set failed")
      case True
      then show ?thesis using close that assms(1) done'(1) by auto
    next
      case False
      then show ?thesis using close that fx(2) [OF failed] by blast
    qed
    then show ?thesis using done' by (simp add: confined_def)
  next
    case ok: False
    then have s': "s' = next" "w' = w1" using assms(4) r neq failed by (auto simp: applyPolicy_def Let_def split: if_splits)
    have "permits (nm_allow n) (sb_Deny next) a" if "passes w1 i a" for i a
    proof (cases "failed = []")
      case True
      then show ?thesis using fx(2) [OF failed that] by simp
    next
      case False
      then have "set (sb_Deny next) \<subseteq> set (sb_Deny previous)" using ok by (simp add: ClassifyPolicy_simps)
      then show ?thesis using fx(1) [OF that] old permits_anti by blast
    qed
    then show ?thesis using s' by (simp add: confined_def)
  qed
qed

lemma applyPolicy_failed:
  assumes "\<And>xs. set (sched xs) = set xs" "sb_Allow next = nm_allow n" "applyPolicy n sched next (previous, w) = (Some e, s', w')"
  shows "s' = previous \<and> (\<forall>i a. passes w' i a \<longrightarrow> passes w i a \<or> permits (nm_allow n) (sb_Deny next) a)"
proof -
  obtain r w1 where r: "reloadGateways n sched (sb_Allow next) (sb_Deny next) w = (r, w1)" by (rule prod.exhaust)
  note fx = reloadGateways_effect(1) [OF assms(1) r, unfolded assms(2)]
  show ?thesis
  proof (cases r)
    case (Inl e')
    then show ?thesis using assms(3) r fx by (auto simp: applyPolicy_def Let_def split: if_splits)
  next
    case (Inr failed)
    obtain rs w2 where c: "eachGateway (closeGateway n) (sched failed) w1 = (rs, w2)" by (rule prod.exhaust)
    then show ?thesis using assms(3) r Inr fx close_each [OF c] by (auto simp: applyPolicy_def Let_def split: if_splits)
  qed
qed

lemma closeGateways_silent:
  assumes "\<And>xs. set (sched xs) = set xs" "closeGateways n sched w = (None, w')"
  shows "\<not> passes w' i a"
proof
  assume p: "passes w' i a"
  obtain l w1 where l: "nd_ListOwnedContainers (nm_daemon n) (nm_instanceID n) w = (l, w1)" by (rule prod.exhaust)
  obtain cs where cs: "l = Inr cs" using assms(2) l by (cases l) (auto simp: closeGateways_def)
  obtain rs where rs: "eachGateway (closeGateway n) (sched (live_gateways cs)) w1 = (rs, w')"
    "filter (\<lambda>r. r \<noteq> None) rs = []"
    using assms(2) l cs by (auto simp: closeGateways_def Let_def split: prod.splits if_splits)
  note each = close_each [OF rs(1)]
  have "failed_of (sched (live_gateways cs)) rs = []"
    using rs(2) by (auto simp: failed_of_def filter_empty_conv dest: set_zip_rightD)
  moreover have "i \<in> set (live_gateways cs)" using listed [OF l [unfolded cs]] each p by blast
  ultimately show False using each p assms(1) by auto
qed

lemma confirm_gateways_effect:
  assumes "confirm_gateways n leaseID (policy_payload n allow deny) cs k w = (Inr k', w')"
  shows "(\<forall>j a. passes w' j a \<longrightarrow> passes w j a \<or> permits allow deny a) \<and>
    (\<forall>c \<in> set cs. \<forall>a. oc_Role c = RoleGateway \<longrightarrow> oc_LeaseID c = leaseID \<longrightarrow> oc_Running c \<longrightarrow> passes w' (oc_ID c) a \<longrightarrow>
      permits allow deny a) \<and>
    (k < k' \<longrightarrow> (\<exists>c \<in> set cs. oc_Role c = RoleGateway \<and> oc_LeaseID c = leaseID \<and> oc_Running c))"
  using assms
proof (induction cs arbitrary: k w)
  case (Cons c cs)
  show ?case
  proof (cases "oc_Role c \<noteq> RoleGateway \<or> oc_LeaseID c \<noteq> leaseID \<or> \<not> oc_Running c")
    case True
    then show ?thesis using Cons.IH [of k w] Cons.prems by auto
  next
    case False
    obtain r w1 where r: "reloadGateway n (policy_payload n allow deny) (oc_ID c) w = (r, w1)" by (rule prod.exhaust)
    have rest: "r = None" "confirm_gateways n leaseID (policy_payload n allow deny) cs (k + 1) w1 = (Inr k', w')"
      using Cons.prems False r by (cases r; simp)+
    note one = reloadGateway_effect [OF r]
    have "permits allow deny a" if "passes w' (oc_ID c) a" for a
      using Cons.IH [OF rest(2)] one(2) [OF rest(1)] that by blast
    moreover have "passes w j a \<or> permits allow deny a" if "passes w' j a" for j a
      using Cons.IH [OF rest(2)] one(1) that by blast
    ultimately show ?thesis using Cons.IH [OF rest(2)] False by auto
  qed
qed simp

end

section \<open>Gateways behind a daemon\<close>

text \<open>
  A stand-in for the JSON encoding of a policy: every character is marked, every string and list closed, so that
  a decoder reads back exactly what was written.
\<close>

definition mark :: "string \<Rightarrow> string"
  where "mark s = concat (map (\<lambda>c. [CHR ''c'', c]) s) @ [CHR ''e'']"

definition mark_list :: "string list \<Rightarrow> string"
  where "mark_list xs = concat (map (\<lambda>s. CHR ''s'' # mark s) xs) @ [CHR ''e'']"

definition write_policy :: "policy \<Rightarrow> string"
  where "write_policy p = mark (po_InternalSubnet p) @ mark (po_UplinkSubnet p) @ mark_list (po_Allow p) @ mark_list (po_Deny p)"

fun unmark :: "string \<Rightarrow> (string \<times> string) option"
  where
    "unmark (m # cs) = (if m = CHR ''e'' then Some ([], cs)
      else case cs of [] \<Rightarrow> None | c # cs' \<Rightarrow> map_option (\<lambda>(s, r). (c # s, r)) (unmark cs'))"
  | "unmark [] = None"

lemma unmark_shorter: "unmark cs = Some (s, r) \<Longrightarrow> length r < length cs"
  by (induction cs arbitrary: s r rule: unmark.induct) (auto split: if_splits list.splits intro!: less_SucI)

function unmark_list :: "string \<Rightarrow> (string list \<times> string) option"
  where
    "unmark_list (m # cs) = (if m = CHR ''e'' then Some ([], cs)
      else case unmark cs of None \<Rightarrow> None | Some (s, r) \<Rightarrow> map_option (\<lambda>(ss, r'). (s # ss, r')) (unmark_list r))"
  | "unmark_list [] = None"
  by pat_completeness auto
termination by (relation "measure length") (auto dest: unmark_shorter)

definition read_policy :: "string \<Rightarrow> policy option"
  where "read_policy raw =
    (case unmark raw of None \<Rightarrow> None | Some (i, r1) \<Rightarrow>
    (case unmark r1 of None \<Rightarrow> None | Some (u, r2) \<Rightarrow>
    (case unmark_list r2 of None \<Rightarrow> None | Some (as, r3) \<Rightarrow>
    (case unmark_list r3 of None \<Rightarrow> None | Some (ds, r4) \<Rightarrow>
       Some \<lparr>po_InternalSubnet = i, po_UplinkSubnet = u, po_Allow = as, po_Deny = ds\<rparr>))))"

lemma unmark_mark: "unmark (mark s @ r) = Some (s, r)"
  by (induction s) (simp_all add: mark_def)

lemma unmark_list_mark: "unmark_list (mark_list xs @ r) = Some (xs, r)"
  by (induction xs) (simp_all add: mark_list_def unmark_mark)

lemma read_write_policy: "read_policy (write_policy p) = Some p"
proof -
  have "unmark_list (mark_list (po_Deny p)) = Some (po_Deny p, [])" using unmark_list_mark [of "po_Deny p" "[]"] by simp
  then show ?thesis by (simp add: read_policy_def write_policy_def unmark_mark unmark_list_mark)
qed

text \<open>
  A daemon with its containers and, behind each gateway's id, the state of \<^verbatim>\<open>internal/gateway\<close>.  A command may be lost
  before it takes effect or its answer after; which happens when is the script.  \<^verbatim>\<open>install\<close> and \<^verbatim>\<open>written\<close> are the outcomes of
  a gateway's two install steps.
\<close>

datatype fault = Fine | Lost | Late

record fleet =
  fl_containers :: "owned_container list"
  fl_gateways :: "(string, gateway_state) gomap"
  fl_tick :: nat
  fl_uplink :: string
  fl_subnets :: "string list"
  fl_addresses :: string

definition ticked :: "fleet \<Rightarrow> fleet"
  where "ticked w = w\<lparr>fl_tick := fl_tick w + 1\<rparr>"

definition command ::
  "(nat \<Rightarrow> fault) \<Rightarrow> (gateway_state \<Rightarrow> gateway_error option \<times> gateway_state) \<Rightarrow> string \<Rightarrow> fleet \<Rightarrow> (engine_error + int \<times> string) \<times> fleet"
  where "command script act i w =
    (case script (fl_tick w) of
       Lost \<Rightarrow> (Inl EngineUnavailable, ticked w)
     | f \<Rightarrow>
        (case map_of (fl_gateways w) i of
           None \<Rightarrow> (Inl EngineNotFound, ticked w)
         | Some g \<Rightarrow>
            (case act g of (e, g') \<Rightarrow>
              (if f = Late then Inl EngineUnavailable else Inr (if e = None then 0 else 1, []),
               (ticked w)\<lparr>fl_gateways := AList.update i g' (fl_gateways w)\<rparr>))))"

definition fleet_remove :: "(nat \<Rightarrow> fault) \<Rightarrow> string \<Rightarrow> fleet \<Rightarrow> engine_error option \<times> fleet"
  where "fleet_remove script i w =
    (case script (fl_tick w) of
       Lost \<Rightarrow> (Some EngineUnavailable, ticked w)
     | f \<Rightarrow> (if f = Late then Some EngineUnavailable else None,
             (ticked w)\<lparr>fl_containers := filter (\<lambda>c. oc_ID c \<noteq> i) (fl_containers w)\<rparr>))"

definition fleet_answer :: "(nat \<Rightarrow> fault) \<Rightarrow> (fleet \<Rightarrow> 'a) \<Rightarrow> fleet \<Rightarrow> (engine_error + 'a) \<times> fleet"
  where "fleet_answer script f w = (if script (fl_tick w) = Fine then Inr (f w) else Inl EngineUnavailable, ticked w)"

definition fleet_daemon ::
  "(nat \<Rightarrow> fault) \<Rightarrow> (policy \<Rightarrow> gateway_error option) \<Rightarrow> bool \<Rightarrow> fleet net_daemon"
  where "fleet_daemon script install written =
    \<lparr>nd_EnsureOwnedNetwork = (\<lambda>_. fleet_answer script (\<lambda>_. ''uplink'')),
     nd_NetworkSubnet = (\<lambda>_. fleet_answer script fl_uplink),
     nd_AllNetworkSubnets = fleet_answer script fl_subnets,
     nd_RunTask = (\<lambda>_. fleet_answer script (\<lambda>w. (0, fl_addresses w))),
     nd_ListOwnedContainers = (\<lambda>_. fleet_answer script fl_containers),
     nd_Exec = (\<lambda>i _. command script (DenyAll read_policy write_policy install written) i),
     nd_ExecWithInput = (\<lambda>i _ payload. command script (Reload read_policy write_policy install written payload) i),
     nd_RemoveContainer = fleet_remove script\<rparr>"

definition fleet_manager ::
  "(nat \<Rightarrow> fault) \<Rightarrow> (policy \<Rightarrow> gateway_error option) \<Rightarrow> bool \<Rightarrow> instance_id \<Rightarrow> string list \<Rightarrow> string list \<Rightarrow> fleet sandbox_manager"
  where "fleet_manager script install written i allow denies =
    \<lparr>nm_daemon = fleet_daemon script install written, nm_instanceID = i, nm_encode = write_policy, nm_allow = allow, nm_denies = denies\<rparr>"

definition relays :: "fleet \<Rightarrow> string \<Rightarrow> addr \<Rightarrow> bool"
  where "relays w i a \<longleftrightarrow> i \<in> set (live_gateways (fl_containers w)) \<and>
    (\<exists>g d. map_of (fl_gateways w) i = Some g \<and> fresh_policy read_policy (gw_file g) = Inr d \<and> Allowed d a)"

lemma relays_ticked [simp]: "relays (ticked w) = relays w"
  by (intro ext) (simp add: relays_def ticked_def)

lemma fresh_written: "fresh_policy read_policy (Some (write_policy p)) = Inr d \<Longrightarrow> Compile p = Inr d"
  by (auto simp: fresh_policy_def readPolicy_def ParsePolicy_def read_write_policy split: if_splits sum.splits option.splits)

text \<open>What a command leaves behind: the old document, or the one it was to install.\<close>

lemma installed_file:
  assumes "installPolicyWith read_policy write_policy install written succ' g = (e, g')"
  shows "gw_file g' = gw_file g \<and> e \<noteq> None \<or> (\<exists>p b q. succ' p b = Inr q \<and> gw_file g' = Some (write_policy q))"
proof (cases "in_force read_policy g")
  case (Inr x)
  obtain p b where x: "x = (p, b)" by (rule prod.exhaust)
  show ?thesis
  proof (cases "succ' p b")
    case s: (Inr q)
    show ?thesis
    proof (cases "install q = None \<and> written")
      case True
      then have "gw_file g' = Some (write_policy q)" using assms Inr x s by (auto simp: installPolicyWith_def Let_def)
      then show ?thesis using s by blast
    next
      case False
      then show ?thesis using assms Inr x s by (cases "install q") (auto simp: installPolicyWith_def Let_def)
    qed
  qed (use assms Inr x in \<open>auto simp: installPolicyWith_def\<close>)
qed (use assms in \<open>auto simp: installPolicyWith_def\<close>)

lemma reload_file:
  assumes "Reload read_policy write_policy install written (write_policy q) g = (e, g')"
  shows "gw_file g' = gw_file g \<and> e \<noteq> None \<or>
    (\<exists>next. po_Allow next = po_Allow q \<and> po_Deny next = po_Deny q \<and> gw_file g' = Some (write_policy next))"
proof (cases "write_policy q = [] \<or> length (write_policy q) > MaxPolicyBytes")
  case True
  then show ?thesis using assms by (auto simp: Reload_def split: if_splits)
next
  case False
  then have "installPolicyWith read_policy write_policy install written (reloadSuccessor q) g = (e, g')"
    using assms by (simp add: Reload_def read_write_policy)
  moreover have "po_Allow nxt = po_Allow q \<and> po_Deny nxt = po_Deny q" if "reloadSuccessor q p b = Inr nxt" for p b nxt
    using that by (auto simp: reloadSuccessor_def Let_def split: if_splits option.splits)
  ultimately show ?thesis using installed_file by blast
qed

lemma command_relays:
  assumes "command script act i w = (x, w')" "relays w' j a"
  shows "relays w j a \<or> j = i \<and> (\<exists>g d. fresh_policy read_policy (gw_file (snd (act g))) = Inr d \<and> Allowed d a \<and>
      map_of (fl_gateways w) i = Some g)"
  using assms by (auto simp: command_def relays_def ticked_def update_conv' split: fault.splits option.splits prod.splits if_splits)

lemma command_done:
  assumes "command script act i w = (Inr (0, out), w')" "relays w' i a"
  shows "\<exists>g d. fst (act g) = None \<and> fresh_policy read_policy (gw_file (snd (act g))) = Inr d \<and> Allowed d a"
  using assms by (auto simp: command_def relays_def ticked_def update_conv' split: fault.splits option.splits prod.splits if_splits)
    (metis fst_conv snd_conv)

lemma fleet_reload_relays:
  assumes "command script (Reload read_policy write_policy install written (write_policy q)) i w = (x, w')" "relays w' j a"
  shows "relays w j a \<or> j = i \<and> permits (po_Allow q) (po_Deny q) a"
proof (cases "relays w j a")
  case False
  from command_relays [OF assms] False obtain g d where g: "j = i"
    "fresh_policy read_policy (gw_file (snd (Reload read_policy write_policy install written (write_policy q) g))) = Inr d"
    "Allowed d a" "map_of (fl_gateways w) i = Some g" by blast
  obtain e g' where r: "Reload read_policy write_policy install written (write_policy q) g = (e, g')" by (rule prod.exhaust)
  have live: "i \<in> set (live_gateways (fl_containers w))"
    using assms g(1) by (auto simp: command_def relays_def ticked_def split: fault.splits option.splits prod.splits)
  from reload_file [OF r] consider "gw_file g' = gw_file g"
    | p where "po_Allow p = po_Allow q" "po_Deny p = po_Deny q" "gw_file g' = Some (write_policy p)" by blast
  then show ?thesis
  proof cases
    case 1
    then have "relays w i a" using g r live by (auto simp: relays_def)
    then show ?thesis using g(1) by simp
  next
    case 2
    then have "Compile p = Inr d" using g(2) r by (auto dest: fresh_written)
    then show ?thesis using Compile_permits [of p d a] g(1,3) 2 by simp
  qed
qed simp

lemma fleet_reload_done:
  assumes "command script (Reload read_policy write_policy install written (write_policy q)) i w = (Inr (0, out), w')" "relays w' i a"
  shows "permits (po_Allow q) (po_Deny q) a"
proof -
  from command_done [OF assms] obtain g d where g:
    "fst (Reload read_policy write_policy install written (write_policy q) g) = None"
    "fresh_policy read_policy (gw_file (snd (Reload read_policy write_policy install written (write_policy q) g))) = Inr d" "Allowed d a"
    by blast
  obtain e g' where r: "Reload read_policy write_policy install written (write_policy q) g = (e, g')" by (rule prod.exhaust)
  from reload_file [OF r] g(1) r obtain p where p: "po_Allow p = po_Allow q" "po_Deny p = po_Deny q" "gw_file g' = Some (write_policy p)"
    by auto
  then have "Compile p = Inr d" using g(2) r by (auto dest: fresh_written)
  then show ?thesis using Compile_permits [of p d a] g(3) p by simp
qed

lemma fleet_close_relays:
  assumes "command script (DenyAll read_policy write_policy install written) i w = (x, w')" "relays w' j a"
  shows "relays w j a"
proof (rule ccontr)
  assume no: "\<not> relays w j a"
  from command_relays [OF assms] no obtain g d where g: "j = i"
    "fresh_policy read_policy (gw_file (snd (DenyAll read_policy write_policy install written g))) = Inr d"
    "Allowed d a" "map_of (fl_gateways w) i = Some g" by blast
  obtain e g' where r: "DenyAll read_policy write_policy install written g = (e, g')" by (rule prod.exhaust)
  have live: "i \<in> set (live_gateways (fl_containers w))"
    using assms g(1) by (auto simp: command_def relays_def ticked_def split: fault.splits option.splits prod.splits)
  from installed_file [OF r [unfolded DenyAll_def]] consider "gw_file g' = gw_file g"
    | p q b where "denyAllSuccessor p b = Inr q" "gw_file g' = Some (write_policy q)" by blast
  then show False
  proof cases
    case 1
    then show False using g r live no by (auto simp: relays_def)
  next
    case 2
    then have "Compile q = Inr d" using g(2) r by (auto dest: fresh_written)
    moreover have "denyAllSuccessor p True = Inr q" using 2(1) by (auto simp: denyAllSuccessor_def split: if_splits)
    ultimately show False using denyAll_denies g(3) by blast
  qed
qed

lemma fleet_remove_relays:
  "fleet_remove script i w = (e, w') \<Longrightarrow> relays w' j a \<Longrightarrow> relays w j a"
  "fleet_remove script i w = (None, w') \<Longrightarrow> \<not> relays w' i a"
  by (auto simp: fleet_remove_def relays_def ticked_def live_gateways_def split: fault.splits)

interpretation fleet: gateway_fleet "fleet_manager script install written i allow denies" relays
  for script install written i allow denies
proof (unfold_locales, unfold fleet_manager_def fleet_daemon_def policy_payload_def net_daemon.simps sandbox_manager.simps, goal_cases)
  case (1 w cs w' i a)
  then show ?case by (auto simp: fleet_answer_def relays_def ticked_def split: if_splits)
next
  case (2 w r w' i a)
  then show ?case by (auto simp: fleet_answer_def)
next
  case (3 i allow deny w out w' a)
  from fleet_reload_done [OF this] show ?case by simp
next
  case (4 i allow deny w x w' j a)
  from fleet_reload_relays [OF this] show ?case by simp
next
  case (5 i w x w' j a)
  then show ?case by (rule fleet_close_relays)
next
  case (6 i w w' a)
  then show ?case by (rule fleet_remove_relays(2))
next
  case (7 i w e w' j a)
  then show ?case by (rule fleet_remove_relays(1))
qed

section \<open>What a pass guarantees\<close>


text \<open>A fleet whose gateways all hold the same set is confined to it.\<close>

lemma fleet_confined:
  assumes "\<forall>x \<in> set (fl_gateways w). \<exists>p. gw_file (snd x) = Some (write_policy p) \<and> po_Allow p = allow \<and> po_Deny p = deny"
    and "relays w i a"
  shows "permits allow deny a"
proof -
  from assms(2) obtain g d where g: "map_of (fl_gateways w) i = Some g" "fresh_policy read_policy (gw_file g) = Inr d" "Allowed d a"
    by (auto simp: relays_def)
  then obtain p where p: "gw_file g = Some (write_policy p)" "po_Allow p = allow" "po_Deny p = deny"
    using assms(1) map_of_SomeD [OF g(1)] by force
  then show ?thesis using fresh_written [of p d] g(2,3) Compile_permits [of p d a] by simp
qed

definition demo_gateway :: "string \<Rightarrow> owned_container"
  where "demo_gateway i = \<lparr>oc_ID = i, oc_Name = i, oc_Kind = KindContainer, oc_Role = RoleGateway, oc_LeaseID = ''l'' @ i, oc_Running = True\<rparr>"

definition demo_document :: "string list \<Rightarrow> gateway_state"
  where "demo_document deny = (let p = \<lparr>po_InternalSubnet = ''10.1.0.0/24'', po_UplinkSubnet = ''10.2.0.0/24'', po_Allow = [], po_Deny = deny\<rparr>
    in \<lparr>gw_kernel = Some p, gw_file = Some (write_policy p)\<rparr>)"

definition demo_fleet :: "string list \<Rightarrow> fleet"
  where "demo_fleet deny = \<lparr>fl_containers = [demo_gateway ''1'', demo_gateway ''2''],
    fl_gateways = [(''1'', demo_document deny), (''2'', demo_document deny)], fl_tick = 0, fl_uplink = ''10.2.0.0/24'',
    fl_subnets = [], fl_addresses = []\<rparr>"

definition demo_sandbox :: "string list \<Rightarrow> sandbox"
  where "demo_sandbox deny = \<lparr>sb_UplinkNetworkID = ''uplink'', sb_UplinkSubnet = ''10.2.0.0/24'', sb_Allow = [], sb_Deny = deny\<rparr>"

text \<open>The reload of the second gateway is lost.\<close>

definition demo_script :: "nat \<Rightarrow> fault"
  where "demo_script k = (if k = 2 then Lost else Fine)"

definition demo_manager :: "(nat \<Rightarrow> fault) \<Rightarrow> fleet sandbox_manager"
  where "demo_manager script = fleet_manager script (\<lambda>_. None) True ''i'' [] []"

lemma demo_fleet_confined: "relays (demo_fleet deny) i a \<Longrightarrow> permits [] deny a"
  by (rule fleet_confined) (auto simp: demo_fleet_def demo_document_def Let_def)


end
