(* ===== verification/SandboxLaunch.thy ===== *)
theory SandboxLaunch
  imports NetSandboxProps
begin

text \<open>
  The egress policy across launches: a confirmed launch runs under the set in force, a failed rediscovery silences the
  fleet, and the books a failed launch leaves behind can hide a change its gateways already carry.
\<close>

section \<open>Confirming a launch\<close>

definition lease_gateway :: "lease_id \<Rightarrow> owned_container \<Rightarrow> bool"
  where "lease_gateway leaseID c \<longleftrightarrow> oc_Role c = RoleGateway \<and> oc_LeaseID c = leaseID \<and> oc_Running c"

text \<open>C7. A capsule starts only behind a gateway that carries the set in force.  When a launch is confirmed, every
  running gateway of its lease relays only to addresses the recorded set permits, given that until then each carried
  the set the launch was built with; and when the recorded set has moved since, the lease does own such a gateway.\<close>

theorem confirmed_launch_confined:
  assumes "ConfirmLaunch (Some (fleet_manager script install written inst allow denies)) slot leaseID (Some launched) (inForce, w) =
      (None, s', w')"
    and "sb_Allow inForce = allow"
    and "\<forall>c \<in> set (fl_containers w). lease_gateway leaseID c \<longrightarrow> (\<forall>a. relays w (oc_ID c) a \<longrightarrow> permits allow (sb_Deny launched) a)"
  shows "s' = inForce \<and>
    (\<forall>c \<in> set (fl_containers w). lease_gateway leaseID c \<longrightarrow> (\<forall>a. relays w' (oc_ID c) a \<longrightarrow> permits allow (sb_Deny inForce) a)) \<and>
    (set (sb_Deny launched) \<noteq> set (sb_Deny inForce) \<longrightarrow> (\<exists>c \<in> set (fl_containers w). lease_gateway leaseID c))"
proof (cases "sameSandbox launched inForce")
  case True
  then have "s' = inForce" "w' = w" "set (sb_Deny inForce) = set (sb_Deny launched)"
    using assms(1) by (auto simp: ConfirmLaunch_def sameSandbox_def ClassifyPolicy_simps split: if_splits)
  then show ?thesis using assms(3) permits_anti [of "sb_Deny inForce" "sb_Deny launched" allow] by auto
next
  case False
  let ?n = "fleet_manager script install written inst allow denies"
  obtain l w1 where l: "nd_ListOwnedContainers (nm_daemon ?n) (nm_instanceID ?n) w = (l, w1)" by (rule prod.exhaust)
  obtain cs where cs: "l = Inr cs" using assms(1) False l by (cases l) (auto simp: ConfirmLaunch_def Let_def split: if_splits)
  have same: "cs = fl_containers w"
    using l cs by (auto simp: fleet_manager_def fleet_daemon_def fleet_answer_def split: if_splits)
  obtain k where k: "confirm_gateways ?n leaseID (policy_payload ?n allow (sb_Deny inForce)) cs 0 w1 = (Inr k, w')" "0 < k" "s' = inForce"
    using assms(1,2) False l cs by (auto simp: ConfirmLaunch_def Let_def split: if_splits sum.splits prod.splits)
  from fleet.confirm_gateways_effect [OF k(1)] show ?thesis using k(2,3) unfolding same lease_gateway_def by blast
qed

theorem confirmed_launch_confined_witness:
  "let (r, s', w') = ConfirmLaunch (Some (demo_manager (\<lambda>_. Fine))) True ''l1'' (Some (demo_sandbox [''10.0.0.0/8'']))
      (demo_sandbox [''10.0.0.0/8'', ''9.9.9.0/24''], demo_fleet [''10.0.0.0/8''])
   in r = None \<and> (\<forall>a. relays w' ''1'' a \<longrightarrow> permits [] [''10.0.0.0/8'', ''9.9.9.0/24''] a)"
proof -
  let ?run = "ConfirmLaunch (Some (demo_manager (\<lambda>_. Fine))) True ''l1'' (Some (demo_sandbox [''10.0.0.0/8'']))
      (demo_sandbox [''10.0.0.0/8'', ''9.9.9.0/24''], demo_fleet [''10.0.0.0/8''])"
  obtain r s' w' where run: "?run = (r, s', w')" by (rule prod_cases3)
  have "fst ?run = None" by code_simp
  then have r: "r = None" by (simp add: run)
  have before: "\<forall>c \<in> set (fl_containers (demo_fleet [''10.0.0.0/8''])). lease_gateway ''l1'' c \<longrightarrow>
      (\<forall>a. relays (demo_fleet [''10.0.0.0/8'']) (oc_ID c) a \<longrightarrow> permits [] (sb_Deny (demo_sandbox [''10.0.0.0/8''])) a)"
    using demo_fleet_confined by (simp add: demo_sandbox_def)
  have allow: "sb_Allow (demo_sandbox [''10.0.0.0/8'', ''9.9.9.0/24'']) = []" by (simp add: demo_sandbox_def)
  have c: "demo_gateway ''1'' \<in> set (fl_containers (demo_fleet [''10.0.0.0/8'']))" "lease_gateway ''l1'' (demo_gateway ''1'')"
    by (simp_all add: demo_fleet_def lease_gateway_def demo_gateway_def)
  show ?thesis
    using confirmed_launch_confined [OF run [unfolded demo_manager_def r] allow before] c
    by (simp add: run r) (force simp: demo_sandbox_def demo_gateway_def)
qed

section \<open>A failed rediscovery\<close>

lemma failed_rediscovery_silences_fleet:
  assumes "\<forall>xs. set (sched xs) = set xs"
    and "refresh (fleet_manager script install written inst allow denies) sched slot (s, w) = (Some e, s1, w1)"
    and "closeGateways (fleet_manager script install written inst allow denies) sched w1 = (None, w2)"
  shows "rediscover (fleet_manager script install written inst allow denies) sched slot False (s, w) = (Some e, s1, w2) \<and> \<not> relays w2 i a"
proof -
  have sched: "set (sched xs) = set xs" for xs using assms(1) by blast
  show ?thesis using assms(2,3) fleet.closeGateways_silent [OF sched assms(3)] by (simp add: rediscover_def)
qed

section \<open>A change the books do not show\<close>

text \<open>A host network leaves and another appears, the reload of the second gateway and its removal are lost, and the
  first network comes back before the next pass.\<close>

definition lossy_script :: "nat \<Rightarrow> fault"
  where "lossy_script k = (if k = 2 \<or> k = 4 then Lost else Fine)"

definition demo_first :: "sandbox_error option \<times> sandbox \<times> fleet"
  where "demo_first = applyPolicy (demo_manager lossy_script) (\<lambda>xs. xs) (demo_sandbox [''8.8.8.0/24''])
    (demo_sandbox [''9.9.9.0/24''], demo_fleet [''9.9.9.0/24''])"

definition demo_second :: "sandbox_error option \<times> sandbox \<times> fleet"
  where "demo_second = applyPolicy (demo_manager lossy_script) (\<lambda>xs. xs) (demo_sandbox [''9.9.9.0/24'']) (snd demo_first)"

lemma demo_passes:
  "fst demo_first = Some (GatewaysOpen [''2''])" "fst (snd demo_first) = demo_sandbox [''9.9.9.0/24'']"
  "map_of (fl_gateways (snd (snd demo_first))) ''1'' = Some (demo_document [''8.8.8.0/24''])"
  "live_gateways (fl_containers (snd (snd demo_first))) = [''1'', ''2'']"
  by code_simp+

lemma demo_second_idle: "demo_second = (None, demo_sandbox [''9.9.9.0/24''], snd (snd demo_first))"
proof -
  have "demo_second = applyPolicy (demo_manager lossy_script) (\<lambda>xs. xs) (demo_sandbox [''9.9.9.0/24''])
      (demo_sandbox [''9.9.9.0/24''], snd (snd demo_first))"
    unfolding demo_second_def by (metis demo_passes(2) prod.collapse)
  then show ?thesis by (simp add: applyPolicy_def ClassifyPolicy_def demo_sandbox_def)
qed

lemma demo_document_relays:
  assumes "length (write_policy p) \<le> MaxPolicyBytes" "write_policy p \<noteq> []" "Compile p = Inr d"
  shows "fresh_policy read_policy (Some (write_policy p)) = Inr d"
proof -
  have "ValidatePolicy p = None" using assms(3) by (simp add: Compile_Inr)
  then show ?thesis using assms by (simp add: fresh_policy_def readPolicy_def ParsePolicy_def read_write_policy)
qed


end
