(* ===== verification/Capsule.thy ===== *)
theory Capsule
  imports NetSandbox LeaseManager
begin

text \<open>
  Building one capsule (\<^verbatim>\<open>internal/capsule\<close>): the split of the tier's envelope, the intent around every created
  object, the gateway before the capsule, the waits for its protocol and its states, delivery and start, and what an
  inspection proves of a runtime whose start is uncertain.  The daemon is the package's interface \<^verbatim>\<open>capsuleDaemon\<close>;
  the recorder is the lease manager's, over the modelled store.  A wait is a list: one entry per further poll before
  the deadline, each either the elapsed interval or the end of the caller's context, so it is as long as the deadline.
\<close>

section \<open>Envelopes\<close>

definition GatewayReserveMemory :: int where "GatewayReserveMemory = 134217728"
definition GatewayReserveCPUs :: int where "GatewayReserveCPUs = 500000000"
definition GatewayReservePIDs :: int where "GatewayReservePIDs = 128"

record resources =
  rs_CPU :: int
  rs_Memory :: int
  rs_Swap :: int
  rs_PIDs :: int

record envelope =
  en_MemoryBytes :: int
  en_MemorySwapBytes :: int
  en_NanoCPUs :: int
  en_PIDsLimit :: int

definition SplitEnvelope :: "resources \<Rightarrow> bool \<Rightarrow> envelope"
  where "SplitEnvelope r withGateway =
    (let e = \<lparr>en_MemoryBytes = rs_Memory r, en_MemorySwapBytes = i64 (rs_Memory r + rs_Swap r), en_NanoCPUs = rs_CPU r,
              en_PIDsLimit = rs_PIDs r\<rparr>
     in if \<not> withGateway then e
        else e\<lparr>en_MemoryBytes := i64 (en_MemoryBytes e - GatewayReserveMemory),
               en_MemorySwapBytes := i64 (en_MemorySwapBytes e - GatewayReserveMemory),
               en_NanoCPUs := i64 (en_NanoCPUs e - GatewayReserveCPUs),
               en_PIDsLimit := i64 (en_PIDsLimit e - GatewayReservePIDs)\<rparr>)"

definition GatewayEnvelope :: envelope
  where "GatewayEnvelope = \<lparr>en_MemoryBytes = GatewayReserveMemory, en_MemorySwapBytes = GatewayReserveMemory,
    en_NanoCPUs = GatewayReserveCPUs, en_PIDsLimit = GatewayReservePIDs\<rparr>"

definition is_alnum :: "char \<Rightarrow> bool"
  where "is_alnum c = list_ex (\<lambda>(first, last). first \<le> c \<and> c \<le> last)
    [(CHR ''a'', CHR ''z''), (CHR ''A'', CHR ''Z''), (CHR ''0'', CHR ''9'')]"

definition sliceSafe :: "string \<Rightarrow> string"
  where "sliceSafe leaseID = take 16 (filter is_alnum leaseID)"

definition LeaseCgroupParent :: "string \<Rightarrow> string \<Rightarrow> string"
  where "LeaseCgroupParent driver leaseID =
    (let name = sliceSafe leaseID in
     if name = [] then []
     else if driver = ''systemd'' then ''runpool-lease-'' @ name @ ''.slice''
     else if driver = ''cgroupfs'' then ''/runpool-lease-'' @ name
     else [])"

definition KnownCgroupDriver :: "string \<Rightarrow> bool"
  where "KnownCgroupDriver driver \<longleftrightarrow> driver = ''systemd'' \<or> driver = ''cgroupfs''"

section \<open>The daemon and the specification\<close>

text \<open>The fields of a container specification that a launch sets; its four limits are one envelope.\<close>

record container_spec =
  cs_Name :: string
  cs_Image :: string
  cs_Entrypoint :: "string list"
  cs_Env :: "string list"
  cs_Labels :: labels
  cs_Privileged :: bool
  cs_Network :: string
  cs_DNS :: "addr list"
  cs_CapAdd :: "string list"
  cs_Mounts :: "(string \<times> string) list"
  cs_Tmpfs :: labels
  cs_Envelope :: envelope
  cs_CgroupParent :: string

datatype container_status =
  StatusCreated | StatusRunning | StatusPaused | StatusRestarting | StatusExited | StatusDead | StatusOther string

record container_state =
  ct_Status :: container_status
  ct_ExitCode :: int
  ct_OOMKilled :: bool

record 'w capsule_daemon =
  cd_CreateNetwork :: "network_spec \<Rightarrow> 'w \<Rightarrow> (engine_error + string) \<times> 'w"
  cd_CreateVolume :: "string \<Rightarrow> labels \<Rightarrow> 'w \<Rightarrow> (engine_error + string) \<times> 'w"
  cd_CreateContainer :: "container_spec \<Rightarrow> 'w \<Rightarrow> (engine_error + string) \<times> 'w"
  cd_StartContainer :: "string \<Rightarrow> 'w \<Rightarrow> engine_error option \<times> 'w"
  cd_ConnectNetwork :: "string \<Rightarrow> string \<Rightarrow> 'w \<Rightarrow> engine_error option \<times> 'w"
  cd_NetworkSubnet :: "string \<Rightarrow> 'w \<Rightarrow> (engine_error + string) \<times> 'w"
  cd_ContainerIPOn :: "string \<Rightarrow> string \<Rightarrow> 'w \<Rightarrow> (engine_error + string \<times> string) \<times> 'w"
  cd_ContainerStatus :: "string \<Rightarrow> 'w \<Rightarrow> (engine_error + container_state) \<times> 'w"
  cd_Exec :: "string \<Rightarrow> string list \<Rightarrow> 'w \<Rightarrow> (engine_error + int \<times> string) \<times> 'w"
  cd_ExecWithInput :: "string \<Rightarrow> string list \<Rightarrow> string \<Rightarrow> 'w \<Rightarrow> (engine_error + int \<times> string) \<times> 'w"
  cd_OwnedIDByName :: "string \<Rightarrow> string \<Rightarrow> instance_id \<Rightarrow> lease_id \<Rightarrow> 'w \<Rightarrow> (engine_error + string) \<times> 'w"
  cd_TailLogs :: "string \<Rightarrow> nat \<Rightarrow> 'w \<Rightarrow> (engine_error + string) \<times> 'w"

record capsule_spec =
  sp_LeaseID :: lease_id
  sp_InstanceID :: instance_id
  sp_AttemptID :: attempt_id
  sp_TargetID :: string
  sp_TierID :: tier_id
  sp_CapsuleImage :: string
  sp_JITConfig :: string
  sp_Resources :: resources
  sp_Cache :: string
  sp_Sandbox :: "sandbox option"
  sp_CgroupDriver :: string

text \<open>The texts around a cause are dropped, except where they say which step failed.\<close>

datatype capsule_error =
    Recording store_error | CreateFailed string string engine_error | Resolving string string engine_error
  | Confirming string string store_error | CapsuleDaemon string engine_error | IncompatibleImage string
  | ReportedState string | ExitedBefore string int string | NotReached string | CapsuleCancelled
  | GatewayPolicy policy_error | BadGatewayIP string | ExecExited string int string

text \<open>A launcher: its daemon, the image every gateway runs and the JSON encoder of a policy.\<close>

record 'w launcher =
  la_dock :: "'w capsule_daemon"
  la_gatewayImage :: string
  la_encode :: "policy \<Rightarrow> string"

fun role_text :: "resource_role \<Rightarrow> string"
  where
    "role_text ResourceRoleCapsule = RoleCapsule"
  | "role_text ResourceRoleGateway = RoleGateway"
  | "role_text ResourceRoleCapsuleNetwork = RoleCapsuleNetwork"
  | "role_text ResourceRoleDindData = RoleDindData"

fun kind_text :: "resource_kind \<Rightarrow> string"
  where
    "kind_text ResourceContainer = KindContainer"
  | "kind_text ResourceNetwork = KindNetwork"
  | "kind_text ResourceVolume = KindVolume"

section \<open>One object\<close>

text \<open>A step of a launch: it may write the store and call the daemon, and stops the launch at its first error.\<close>

type_synonym ('w, 'a) launch = "store \<times> 'w \<Rightarrow> (capsule_error + 'a) \<times> store \<times> 'w"

definition and_then :: "('w, 'a) launch \<Rightarrow> ('a \<Rightarrow> ('w, 'b) launch) \<Rightarrow> ('w, 'b) launch"
  where "and_then m f sw = (case m sw of (r, sw') \<Rightarrow> (case r of Inl e \<Rightarrow> (Inl e, sw') | Inr x \<Rightarrow> f x sw'))"

definition give :: "'a \<Rightarrow> ('w, 'a) launch"
  where "give x sw = (Inr x, sw)"

definition stop :: "capsule_error \<Rightarrow> ('w, 'a) launch"
  where "stop e sw = (Inl e, sw)"

definition durably :: "(store_error \<Rightarrow> capsule_error) \<Rightarrow> 'a tx \<Rightarrow> ('w, 'a) launch"
  where "durably f t sw = (case t (fst sw) of (r, s) \<Rightarrow> (map_sum f id r, s, snd sw))"

definition asking :: "(engine_error \<Rightarrow> capsule_error) \<Rightarrow> ('w \<Rightarrow> (engine_error + 'a) \<times> 'w) \<Rightarrow> ('w, 'a) launch"
  where "asking f call sw = (case call (snd sw) of (r, w) \<Rightarrow> (map_sum f id r, fst sw, w))"

definition telling :: "string \<Rightarrow> ('w \<Rightarrow> engine_error option \<times> 'w) \<Rightarrow> ('w, unit) launch"
  where "telling what call sw =
    (case call (snd sw) of (r, w) \<Rightarrow> (case r of None \<Rightarrow> Inr () | Some e \<Rightarrow> Inl (CapsuleDaemon what e), fst sw, w))"

definition waiting :: "('w \<Rightarrow> capsule_error option \<times> 'w) \<Rightarrow> ('w, unit) launch"
  where "waiting call sw = (case call (snd sw) of (r, w) \<Rightarrow> (case r of None \<Rightarrow> Inr () | Some e \<Rightarrow> Inl e, fst sw, w))"

text \<open>A create call, and the adoption of what a taken name proves to be ours.\<close>

definition create_or_adopt ::
  "resource_kind \<Rightarrow> resource_role \<Rightarrow> ('w \<Rightarrow> (engine_error + string) \<times> 'w) \<Rightarrow> ('w \<Rightarrow> (engine_error + string) \<times> 'w) \<Rightarrow> ('w, string) launch"
  where "create_or_adopt kind role createFn resolve sw =
    (case createFn (snd sw) of (r, w) \<Rightarrow>
      (case r of
         Inr objectID \<Rightarrow> (Inr objectID, fst sw, w)
       | Inl e \<Rightarrow>
           if e \<noteq> EngineAlreadyExists then stop (CreateFailed (kind_text kind) (role_text role) e) (fst sw, w)
           else and_then (asking (Resolving (kind_text kind) (role_text role)) resolve) (\<lambda>existing.
             if existing = [] then stop (CreateFailed (kind_text kind) (role_text role) e) else give existing) (fst sw, w)))"

text \<open>The intent is durable before the create call and names the object whatever becomes of the call.\<close>

definition capsule_create ::
  "lease_id \<Rightarrow> resource_kind \<Rightarrow> resource_role \<Rightarrow> string \<Rightarrow> ('w \<Rightarrow> (engine_error + string) \<times> 'w) \<Rightarrow> ('w \<Rightarrow> (engine_error + string) \<times> 'w)
    \<Rightarrow> ('w, string) launch"
  where "capsule_create leaseID kind role name createFn resolve =
    and_then (durably Recording (Recorder_Plan leaseID kind role name)) (\<lambda>intentID.
    and_then (durably Recording (Recorder_Creating intentID)) (\<lambda>_.
    and_then (create_or_adopt kind role createFn resolve) (\<lambda>objectID.
    and_then (durably (Confirming (kind_text kind) (role_text role)) (Recorder_Confirm intentID objectID)) (\<lambda>_.
      give objectID))))"

section \<open>Waiting\<close>

definition StateWaiting :: string where "StateWaiting = ''waiting''"
definition StateReady :: string where "StateReady = ''ready''"

definition terminal_state :: "string \<Rightarrow> bool"
  where "terminal_state state \<longleftrightarrow> HasPrefix state ''exited:'' \<or> HasPrefix state ''failed:'' \<or> HasPrefix state ''aborted:''"

definition ProtocolVersion :: string where "ProtocolVersion = ''3''"
definition protocolFile :: string where "protocolFile = ''/run/runpool/protocol''"

definition protocolVerdict :: "int \<Rightarrow> string \<Rightarrow> capsule_error option"
  where "protocolVerdict code out =
    (let got = TrimSpace out in
     if code \<noteq> 0 then Some (IncompatibleImage (''it declares no control protocol: '' @ got))
     else if got \<noteq> ProtocolVersion then Some (IncompatibleImage (''it speaks control protocol '' @ got))
     else None)"

text \<open>The last five lines a container said, folded onto one and cut from the front at a character boundary.\<close>

definition rune_start :: "char \<Rightarrow> bool"
  where "rune_start c \<longleftrightarrow> \<not> (of_char c \<ge> (128 :: nat) \<and> of_char c < (192 :: nat))"

definition logTailBytes :: nat where "logTailBytes = 2048"

definition fold_tail :: "string \<Rightarrow> string"
  where "fold_tail tail =
    (let said = filter (\<lambda>l. l \<noteq> []) (map TrimSpace (Split (CHR 0x0A) (TrimSpace tail)));
         quoted = Join said '' / ''
     in if said = [] then []
        else ''; it last said: '' @
          (if length quoted > logTailBytes
           then ''...'' @ dropWhile (\<lambda>c. \<not> rune_start c) (drop (length quoted - logTailBytes) quoted)
           else quoted))"

definition lastWords :: "'w capsule_daemon \<Rightarrow> string \<Rightarrow> 'w \<Rightarrow> string \<times> 'w"
  where "lastWords dock i w =
    (case cd_TailLogs dock i 5 w of (r, w') \<Rightarrow> (case r of Inl _ \<Rightarrow> [] | Inr tail \<Rightarrow> fold_tail tail, w'))"

text \<open>Whether a container the daemon was asked about has stopped, with its last words.\<close>

definition stopped_before ::
  "'w capsule_daemon \<Rightarrow> string \<Rightarrow> (int \<Rightarrow> string \<Rightarrow> capsule_error) \<Rightarrow> 'w \<Rightarrow> capsule_error option \<times> 'w"
  where "stopped_before dock i err w =
    (case cd_ContainerStatus dock i w of (r, w1) \<Rightarrow>
      (case r of
         Inl _ \<Rightarrow> (None, w1)
       | Inr state \<Rightarrow>
           if ct_Status state = StatusRunning then (None, w1)
           else (case lastWords dock i w1 of (words, w2) \<Rightarrow> (Some (err (ct_ExitCode state) words), w2))))"

datatype wait = Interval | ContextDone

definition undeclared :: "int \<Rightarrow> string \<Rightarrow> capsule_error"
  where "undeclared code words =
    IncompatibleImage (''the capsule exited '' @ decimal code @ '' before declaring a control protocol'' @ words)"

fun awaitProtocol :: "'w capsule_daemon \<Rightarrow> string \<Rightarrow> wait list \<Rightarrow> 'w \<Rightarrow> capsule_error option \<times> 'w"
  where "awaitProtocol dock outerID waits w =
    (case cd_Exec dock outerID [''cat'', protocolFile] w of (r, w1) \<Rightarrow>
      if \<not> isl r \<and> fst (projr r) = 0 then (protocolVerdict 0 (snd (projr r)), w1)
      else (case (if isl r then stopped_before dock outerID undeclared w1
                  else (None, w1)) of
              (Some e, w2) \<Rightarrow> (Some e, w2)
            | (None, w2) \<Rightarrow>
                (case waits of
                   [] \<Rightarrow> (case r of Inl e \<Rightarrow> Some (CapsuleDaemon ''read the capsule control protocol'' e)
                          | Inr (code, out) \<Rightarrow> protocolVerdict code out, w2)
                 | ContextDone # _ \<Rightarrow> (Some CapsuleCancelled, w2)
                 | Interval # waits' \<Rightarrow> awaitProtocol dock outerID waits' w2)))"

text \<open>What one observation decides: \<^const>\<open>None\<close> is to keep polling.\<close>

definition stateVerdict :: "string \<Rightarrow> engine_error + int \<times> string \<Rightarrow> capsule_error option option"
  where "stateVerdict want r =
    (case r of
       Inl _ \<Rightarrow> None
     | Inr (code, out) \<Rightarrow>
         if code \<noteq> 0 then None
         else (let s = TrimSpace out in
           if s = want then Some None else if terminal_state s then Some (Some (ReportedState s)) else None))"

fun awaitState :: "'w capsule_daemon \<Rightarrow> string \<Rightarrow> string \<Rightarrow> wait list \<Rightarrow> 'w \<Rightarrow> capsule_error option \<times> 'w"
  where "awaitState dock containerID want waits w =
    (case cd_Exec dock containerID [SupervisorPath, ''state''] w of (r, w1) \<Rightarrow>
      (case stateVerdict want r of
         Some verdict \<Rightarrow> (verdict, w1)
       | None \<Rightarrow>
           (case (if isl r then stopped_before dock containerID (ExitedBefore want) w1 else (None, w1)) of
              (Some e, w2) \<Rightarrow> (Some e, w2)
            | (None, w2) \<Rightarrow>
                (case waits of
                   [] \<Rightarrow> (Some (NotReached want), w2)
                 | ContextDone # _ \<Rightarrow> (Some CapsuleCancelled, w2)
                 | Interval # waits' \<Rightarrow> awaitState dock containerID want waits' w2))))"

section \<open>Preparing a capsule\<close>

definition controlDir :: string where "controlDir = ''/run/runpool''"
definition dindDataDir :: string where "dindDataDir = ''/var/lib/docker''"
definition CachePath :: string where "CachePath = ''/cache''"
definition innerDockerCIDR :: string where "innerDockerCIDR = ''172.17.0.0/16''"

definition object_name :: "capsule_spec \<Rightarrow> resource_role \<Rightarrow> string"
  where "object_name spec role = ''runpool-'' @ role_text role @ ''-'' @ ShortID (sp_LeaseID spec)"

definition object_labels :: "capsule_spec \<Rightarrow> resource_kind \<Rightarrow> resource_role \<Rightarrow> labels"
  where "object_labels spec kind role = Labels \<lparr>ow_Instance = sp_InstanceID spec, ow_Lease = sp_LeaseID spec,
    ow_Kind = kind_text kind, ow_Role = role_text role, ow_Attempt = sp_AttemptID spec, ow_Target = sp_TargetID spec,
    ow_Tier = sp_TierID spec\<rparr>"

text \<open>One recorded object of the lease, resolved by proven ownership when its name is taken.\<close>

definition create_object ::
  "'w launcher \<Rightarrow> capsule_spec \<Rightarrow> resource_kind \<Rightarrow> resource_role \<Rightarrow> ('w \<Rightarrow> (engine_error + string) \<times> 'w) \<Rightarrow> ('w, string) launch"
  where "create_object la spec kind role createFn =
    capsule_create (sp_LeaseID spec) kind role (object_name spec role) createFn
      (cd_OwnedIDByName (la_dock la) (kind_text kind) (object_name spec role) (sp_InstanceID spec) (sp_LeaseID spec))"

definition gateway_spec :: "'w launcher \<Rightarrow> capsule_spec \<Rightarrow> policy \<Rightarrow> string \<Rightarrow> container_spec"
  where "gateway_spec la spec policy netID =
    \<lparr>cs_Name = object_name spec ResourceRoleGateway, cs_Image = la_gatewayImage la, cs_Entrypoint = [SupervisorPath, ''gateway''],
     cs_Env = [''RUNPOOL_GATEWAY_POLICY='' @ la_encode la policy],
     cs_Labels = object_labels spec ResourceContainer ResourceRoleGateway, cs_Privileged = False, cs_Network = netID, cs_DNS = [],
     cs_CapAdd = [''NET_ADMIN''], cs_Mounts = [], cs_Tmpfs = [(controlDir, ''rw,size=1m,mode=0755'')],
     cs_Envelope = GatewayEnvelope, cs_CgroupParent = LeaseCgroupParent (sp_CgroupDriver spec) (sp_LeaseID spec)\<rparr>"

definition prepareGateway :: "'w launcher \<Rightarrow> capsule_spec \<Rightarrow> sandbox \<Rightarrow> wait list \<Rightarrow> string \<Rightarrow> ('w, addr \<times> string) launch"
  where "prepareGateway la spec sb waits netID =
    and_then (asking (CapsuleDaemon ''internal subnet'') (cd_NetworkSubnet (la_dock la) netID)) (\<lambda>subnet.
    let policy = \<lparr>po_InternalSubnet = subnet, po_UplinkSubnet = sb_UplinkSubnet sb, po_Allow = sb_Allow sb, po_Deny = sb_Deny sb\<rparr> in
    case ValidatePolicy policy of
      Some e \<Rightarrow> stop (GatewayPolicy e)
    | None \<Rightarrow>
    and_then (create_object la spec ResourceContainer ResourceRoleGateway
        (cd_CreateContainer (la_dock la) (gateway_spec la spec policy netID))) (\<lambda>gwID.
    and_then (telling ''attach gateway to uplink'' (cd_ConnectNetwork (la_dock la) (sb_UplinkNetworkID sb) gwID)) (\<lambda>_.
    and_then (telling ''start'' (cd_StartContainer (la_dock la) gwID)) (\<lambda>_.
    and_then (waiting (awaitState (la_dock la) gwID StateReady waits)) (\<lambda>_.
    and_then (asking (CapsuleDaemon ''address'') (cd_ContainerIPOn (la_dock la) gwID netID)) (\<lambda>(ip, _).
      case ParseAddr ip of None \<Rightarrow> stop (BadGatewayIP ip) | Some (addr, _) \<Rightarrow> give (addr, subnet)))))))"

definition capsule_container ::
  "capsule_spec \<Rightarrow> string \<Rightarrow> string \<Rightarrow> (addr \<times> string) option \<Rightarrow> container_spec"
  where "capsule_container spec netID dindData gateway =
    \<lparr>cs_Name = object_name spec ResourceRoleCapsule, cs_Image = sp_CapsuleImage spec, cs_Entrypoint = [],
     cs_Env = (case gateway of
        None \<Rightarrow> []
      | Some (gatewayIP, internalSubnet) \<Rightarrow>
          (let proxy = ''http://'' @ addr_text gatewayIP @ '':'' @ decimal ProxyPort;
               noProxy = Join [''localhost'', ''127.0.0.1'', innerDockerCIDR, internalSubnet] '',''
           in [''HTTP_PROXY='' @ proxy, ''http_proxy='' @ proxy, ''HTTPS_PROXY='' @ proxy, ''https_proxy='' @ proxy,
               ''NO_PROXY='' @ noProxy, ''no_proxy='' @ noProxy])),
     cs_Labels = object_labels spec ResourceContainer ResourceRoleCapsule, cs_Privileged = True, cs_Network = netID,
     cs_DNS = (case gateway of None \<Rightarrow> [] | Some (gatewayIP, _) \<Rightarrow> [gatewayIP]), cs_CapAdd = [],
     cs_Mounts = (dindData, dindDataDir) # (if sp_Cache spec = [] then [] else [(sp_Cache spec, CachePath)]),
     cs_Tmpfs = [(controlDir, ''rw,size=1m,mode=0755'')],
     cs_Envelope = SplitEnvelope (sp_Resources spec) (sp_Sandbox spec \<noteq> None),
     cs_CgroupParent = LeaseCgroupParent (sp_CgroupDriver spec) (sp_LeaseID spec)\<rparr>"

text \<open>\<^verbatim>\<open>prepare\<close>; the three waits are those of the gateway, the protocol and readiness.\<close>

definition prepare :: "'w launcher \<Rightarrow> capsule_spec \<Rightarrow> wait list \<Rightarrow> wait list \<Rightarrow> wait list \<Rightarrow> ('w, string) launch"
  where "prepare la spec gwWaits protoWaits readyWaits =
    (let sandboxed = (sp_Sandbox spec \<noteq> None) in
    and_then (create_object la spec ResourceNetwork ResourceRoleCapsuleNetwork
        (cd_CreateNetwork (la_dock la) \<lparr>ns_Name = object_name spec ResourceRoleCapsuleNetwork, ns_Internal = sandboxed,
           ns_Isolated = sandboxed, ns_Labels = object_labels spec ResourceNetwork ResourceRoleCapsuleNetwork\<rparr>)) (\<lambda>netID.
    and_then (case sp_Sandbox spec of
        None \<Rightarrow> give None
      | Some sb \<Rightarrow> and_then (prepareGateway la spec sb gwWaits netID) (\<lambda>g. give (Some g))) (\<lambda>gateway.
    and_then (create_object la spec ResourceVolume ResourceRoleDindData
        (cd_CreateVolume (la_dock la) (object_name spec ResourceRoleDindData)
          (object_labels spec ResourceVolume ResourceRoleDindData))) (\<lambda>dindData.
    and_then (create_object la spec ResourceContainer ResourceRoleCapsule
        (cd_CreateContainer (la_dock la) (capsule_container spec netID dindData gateway))) (\<lambda>outerID.
    and_then (telling ''start'' (cd_StartContainer (la_dock la) outerID)) (\<lambda>_.
    and_then (waiting (awaitProtocol (la_dock la) outerID protoWaits)) (\<lambda>_.
    and_then (waiting (awaitState (la_dock la) outerID StateWaiting readyWaits)) (\<lambda>_.
    and_then (asking (CapsuleDaemon ''deliver credential'')
        (cd_ExecWithInput (la_dock la) outerID [SupervisorPath, ''deliver''] (sp_JITConfig spec))) (\<lambda>(code, out).
      if code \<noteq> 0 then stop (ExecExited ''deliver credential'' code out) else give outerID)))))))))"

definition Start :: "'w launcher \<Rightarrow> string \<Rightarrow> ('w, unit) launch"
  where "Start la runtimeID =
    and_then (asking (CapsuleDaemon ''start authorization'') (cd_Exec (la_dock la) runtimeID [SupervisorPath, ''start''])) (\<lambda>(code, out).
      if code \<noteq> 0 then stop (ExecExited ''start authorization'' code out) else give ())"

section \<open>What an inspection proves\<close>

definition AbortedExitCode :: int where "AbortedExitCode = 79"

definition ClassifyExit :: "int \<Rightarrow> observation"
  where "ClassifyExit code = (if code = AbortedExitCode then ObservedCreated else ObservedExited)"

definition classifySupervisorState :: "string \<Rightarrow> observation \<times> bool"
  where "classifySupervisorState state =
    (if state = ''booting'' \<or> state = StateWaiting then (ObservedCreated, True)
     else if state = ''starting'' then (ObservedUnavailable, True)
     else if state = ''running'' then (ObservedRunning, True)
     else if HasPrefix state ''aborted:'' then (ObservedCreated, True)
     else if HasPrefix state ''exited:'' \<or> HasPrefix state ''failed:'' then (ObservedExited, True)
     else (ObservedUnavailable, False))"

text \<open>The second component says whether the supervisor still has to be asked, the third whether there was no error.\<close>

definition classifyContainerState :: "container_state \<Rightarrow> observation \<times> bool \<times> bool"
  where "classifyContainerState state =
    (case ct_Status state of
       StatusCreated \<Rightarrow> (ObservedNeverStarted, False, True)
     | StatusExited \<Rightarrow> (ClassifyExit (ct_ExitCode state), False, True)
     | StatusDead \<Rightarrow> (ClassifyExit (ct_ExitCode state), False, True)
     | StatusRunning \<Rightarrow> (ObservedUnavailable, True, True)
     | StatusPaused \<Rightarrow> (ObservedUnavailable, True, True)
     | StatusRestarting \<Rightarrow> (ObservedUnavailable, True, True)
     | StatusOther _ \<Rightarrow> (ObservedUnavailable, False, False))"

definition confirmProtocol :: "'w capsule_daemon \<Rightarrow> string \<Rightarrow> 'w \<Rightarrow> bool \<times> 'w"
  where "confirmProtocol dock outerID w =
    (case cd_Exec dock outerID [''cat'', protocolFile] w of (r, w') \<Rightarrow>
      (case r of Inl _ \<Rightarrow> False | Inr (code, out) \<Rightarrow> protocolVerdict code out = None, w'))"

definition InspectExecution :: "'w capsule_daemon \<Rightarrow> string \<Rightarrow> 'w \<Rightarrow> (observation \<times> bool) \<times> 'w"
  where "InspectExecution dock runtimeID w =
    (case cd_ContainerStatus dock runtimeID w of (r, w1) \<Rightarrow>
      (case r of
         Inl e \<Rightarrow> (if e = EngineNotFound then (ObservedAbsent, True) else (ObservedUnavailable, False), w1)
       | Inr state \<Rightarrow>
           (case classifyContainerState state of (obs, askSupervisor, ok) \<Rightarrow>
             if \<not> askSupervisor then ((obs, ok), w1)
             else (case confirmProtocol dock runtimeID w1 of (speaks, w2) \<Rightarrow>
               if \<not> speaks then ((ObservedUnavailable, False), w2)
               else (case cd_Exec dock runtimeID [SupervisorPath, ''state''] w2 of (x, w3) \<Rightarrow>
                 (case x of
                    Inl _ \<Rightarrow> (ObservedUnavailable, False)
                  | Inr (code, out) \<Rightarrow>
                      if code \<noteq> 0 then (ObservedUnavailable, False) else classifySupervisorState (TrimSpace out), w3))))))"

end
