(* ===== verification/CapsuleProps.thy ===== *)
theory CapsuleProps
  imports Capsule LeaseProps StoreProps
begin

text \<open>
  What building a capsule guarantees: an object the launch created is an object the store names, whatever failed; the
  two containers of a lease share exactly its tier; and an inspection calls a runtime unstarted only on proof.
\<close>

section \<open>Every object is named before it exists\<close>

text \<open>
  What the daemon promises: a create call adds at most the object it names, and no other call adds one.
  \<^verbatim>\<open>objects\<close> is the set of objects of the daemon by kind and name.
\<close>

definition silent_on :: "('w \<Rightarrow> (string \<times> string) set) \<Rightarrow> ('w \<Rightarrow> 'r \<times> 'w) \<Rightarrow> bool"
  where "silent_on objects call \<longleftrightarrow> (\<forall>w. objects (snd (call w)) \<subseteq> objects w)"

definition adds :: "('w \<Rightarrow> (string \<times> string) set) \<Rightarrow> string \<times> string \<Rightarrow> ('w \<Rightarrow> 'r \<times> 'w) \<Rightarrow> bool"
  where "adds objects x call \<longleftrightarrow> (\<forall>w. objects (snd (call w)) \<subseteq> insert x (objects w))"

definition creates_named :: "'w capsule_daemon \<Rightarrow> ('w \<Rightarrow> (string \<times> string) set) \<Rightarrow> bool"
  where "creates_named dock objects \<longleftrightarrow>
    (\<forall>sp. adds objects (KindNetwork, ns_Name sp) (cd_CreateNetwork dock sp)) \<and>
    (\<forall>name m. adds objects (KindVolume, name) (cd_CreateVolume dock name m)) \<and>
    (\<forall>sp. adds objects (KindContainer, cs_Name sp) (cd_CreateContainer dock sp)) \<and>
    (\<forall>i. silent_on objects (cd_StartContainer dock i)) \<and> (\<forall>i j. silent_on objects (cd_ConnectNetwork dock i j)) \<and>
    (\<forall>i. silent_on objects (cd_NetworkSubnet dock i)) \<and> (\<forall>i j. silent_on objects (cd_ContainerIPOn dock i j)) \<and>
    (\<forall>i. silent_on objects (cd_ContainerStatus dock i)) \<and> (\<forall>i c. silent_on objects (cd_Exec dock i c)) \<and>
    (\<forall>i c x. silent_on objects (cd_ExecWithInput dock i c x)) \<and> (\<forall>k n i l. silent_on objects (cd_OwnedIDByName dock k n i l)) \<and>
    (\<forall>i n. silent_on objects (cd_TailLogs dock i n))"

text \<open>The intents of a lease that name an object which may exist.\<close>

definition named :: "lease_id \<Rightarrow> store \<Rightarrow> (string \<times> string) set"
  where "named l s = {(kind_text (in_kind x), in_name x) |x. x \<in> set (st_intents s) \<and> in_lease_id x = l \<and>
    in_state x \<in> {ResourceCreating, ResourcePresent}}"

definition tracked :: "lease_id \<Rightarrow> ('w \<Rightarrow> (string \<times> string) set) \<Rightarrow> (string \<times> string) set \<Rightarrow> store \<times> 'w \<Rightarrow> bool"
  where "tracked l objects before sw \<longleftrightarrow> objects (snd sw) \<subseteq> before \<union> named l (fst sw)"

definition keeps :: "(store \<times> 'w \<Rightarrow> bool) \<Rightarrow> ('w, 'a) launch \<Rightarrow> bool"
  where "keeps I m \<longleftrightarrow> (\<forall>sw. I sw \<longrightarrow> I (snd (m sw)))"

lemma keeps_and_then [intro]: "keeps I m \<Longrightarrow> (\<And>x. keeps I (f x)) \<Longrightarrow> keeps I (and_then m f)"
  unfolding keeps_def and_then_def by (auto split: prod.split sum.split) (metis snd_conv)+

lemma keeps_give [intro]: "keeps I (give x)" and keeps_stop [intro]: "keeps I (stop e)"
  by (simp_all add: keeps_def give_def stop_def)

lemma keeps_call:
  assumes "silent_on objects call" "\<And>s w. \<exists>r'. m (s, w) = (r', s, snd (call w))"
  shows "keeps (tracked l objects before) m"
  unfolding keeps_def tracked_def
proof (intro allI impI)
  fix sw assume t: "objects (snd sw) \<subseteq> before \<union> named l (fst sw)"
  obtain s w where sw: "sw = (s, w)" by (rule prod.exhaust)
  obtain r' where "m sw = (r', s, snd (call w))" using assms(2) sw by blast
  moreover have "objects (snd (call w)) \<subseteq> objects w" using assms(1) by (simp add: silent_on_def)
  ultimately show "objects (snd (snd (m sw))) \<subseteq> before \<union> named l (fst (snd (m sw)))" using t sw by auto
qed

lemma keeps_asking: "silent_on objects call \<Longrightarrow> keeps (tracked l objects before) (asking f call)"
  by (erule keeps_call) (simp add: asking_def split: prod.split)

lemma keeps_telling: "silent_on objects call \<Longrightarrow> keeps (tracked l objects before) (telling what call)"
  by (erule keeps_call) (simp add: telling_def split: prod.split)

lemma keeps_waiting: "silent_on objects call \<Longrightarrow> keeps (tracked l objects before) (waiting call)"
  by (erule keeps_call) (simp add: waiting_def split: prod.split)

text \<open>A record only adds to what the intents name.\<close>

lemma Plan_named: "named l s \<subseteq> named l (snd (Recorder_Plan i kind role name s))"
  by (auto simp: Recorder_Plan_def Tx_def PlanResource_def Let_def named_def split: prod.splits sum.splits)

lemma update_named:
  assumes "\<And>x. P x \<Longrightarrow> in_lease_id (f x) = in_lease_id x \<and> in_kind (f x) = in_kind x \<and> in_name (f x) = in_name x \<and>
    in_state (f x) \<in> {ResourceCreating, ResourcePresent}"
  shows "named l s \<subseteq> named l (s\<lparr>st_intents := map (\<lambda>x. if P x then f x else x) (st_intents s)\<rparr>)"
proof
  fix y assume "y \<in> named l s"
  then obtain x where x: "x \<in> set (st_intents s)" "in_lease_id x = l" "in_state x \<in> {ResourceCreating, ResourcePresent}"
    "y = (kind_text (in_kind x), in_name x)" by (auto simp: named_def)
  then show "y \<in> named l (s\<lparr>st_intents := map (\<lambda>x. if P x then f x else x) (st_intents s)\<rparr>)"
    unfolding named_def using assms [of x] by (intro CollectI exI [of _ "if P x then f x else x"]) auto
qed

lemma mustAffect_update:
  "mustAffect e (update_intents P f) s =
    (if filter P (st_intents s) = [] then (Inl e, s\<lparr>st_intents := map (\<lambda>x. if P x then f x else x) (st_intents s)\<rparr>)
     else (Inr (), s\<lparr>st_intents := map (\<lambda>x. if P x then f x else x) (st_intents s)\<rparr>))"
  by (simp add: mustAffect_def andThen_def update_intents_def fail_def ret_def)

lemma Creating_named: "named l s \<subseteq> named l (snd (Recorder_Creating i s))"
  unfolding Recorder_Creating_def Tx_def MarkResourceCreating_def mustAffect_update
  using update_named [of "\<lambda>x. in_id x = i \<and> in_state x = ResourcePlanned"
      "\<lambda>x. x\<lparr>in_state := ResourceCreating, in_updated_at := st_now s\<rparr>" l s] by simp

lemma Confirm_named: "named l s \<subseteq> named l (snd (Recorder_Confirm i dk s))"
  unfolding Recorder_Confirm_def Tx_def MarkResourcePresent_def mustAffect_update
  using update_named [of "\<lambda>x. in_id x = i \<and> in_state x \<in> {ResourcePlanned, ResourceCreating}"
      "\<lambda>x. x\<lparr>in_state := ResourcePresent, in_docker_id := dk, in_updated_at := st_now s\<rparr>" l s] by simp

lemma keeps_durably:
  fixes objects :: "'w \<Rightarrow> (string \<times> string) set"
  assumes "\<And>s. named l s \<subseteq> named l (snd (t s))"
  shows "keeps (tracked l objects before) (durably f t)"
proof -
  have "snd (durably f t sw) = (snd (t (fst sw)), snd sw)" for sw :: "store \<times> 'w" by (simp add: durably_def split: prod.split)
  then show ?thesis unfolding keeps_def tracked_def using assms by (metis (no_types, lifting) Un_mono fst_conv snd_conv subset_refl subset_trans)
qed

lemma planned_then_creating:
  assumes "Recorder_Plan l kind role name s = (Inr i, s1)" "Recorder_Creating i s1 = (Inr u, s2)"
  shows "(kind_text kind, name) \<in> named l s2"
proof -
  let ?row = "\<lparr>in_id = i, in_lease_id = l, in_kind = kind, in_role = role, in_name = name, in_docker_id = [],
         in_state = ResourcePlanned, in_retries = 0, in_last_error = [], in_not_before = 0,
         in_created_at = st_now s, in_updated_at = st_now s\<rparr>"
  have "?row \<in> set (st_intents s1)"
    using assms(1) by (auto simp: Recorder_Plan_def Tx_def PlanResource_def Let_def split: if_splits)
  moreover have "st_intents s2 = map (\<lambda>x. if in_id x = i \<and> in_state x = ResourcePlanned
      then x\<lparr>in_state := ResourceCreating, in_updated_at := st_now s1\<rparr> else x) (st_intents s1)"
    using assms(2) unfolding Recorder_Creating_def Tx_def MarkResourceCreating_def mustAffect_update by (auto split: if_splits)
  ultimately have "?row\<lparr>in_state := ResourceCreating, in_updated_at := st_now s1\<rparr> \<in> set (st_intents s2)" by force
  then show ?thesis unfolding named_def by force
qed

text \<open>Inside the intent's window the daemon may add the object the intent names.\<close>

lemma create_or_adopt_objects:
  assumes "adds objects x createFn" "silent_on objects resolve" "objects w \<subseteq> B" "x \<in> B"
  shows "objects (snd (snd (create_or_adopt kind role createFn resolve (s, w)))) \<subseteq> B \<and>
    fst (snd (create_or_adopt kind role createFn resolve (s, w))) = s"
proof -
  obtain r w1 where r: "createFn w = (r, w1)" by (rule prod.exhaust)
  have w1: "objects w1 \<subseteq> B" using assms(1,3,4) r unfolding adds_def by (metis insert_subset snd_conv subset_trans insert_absorb insert_mono)
  obtain r2 w2 where r2: "resolve w1 = (r2, w2)" by (rule prod.exhaust)
  have "objects w2 \<subseteq> B" using assms(2) r2 w1 unfolding silent_on_def by (metis snd_conv subset_trans)
  then show ?thesis using r r2 w1
    by (auto simp: create_or_adopt_def stop_def and_then_def asking_def give_def split: sum.split)
qed

lemma keeps_create:
  assumes "adds objects (kind_text kind, name) createFn" "silent_on objects resolve"
  shows "keeps (tracked l objects before) (capsule_create l kind role name createFn resolve)"
  unfolding keeps_def
proof (intro allI impI)
  fix sw assume t: "tracked l objects before sw"
  obtain s w where sw: "sw = (s, w)" by (rule prod.exhaust)
  obtain r1 s1 where plan: "Recorder_Plan l kind role name s = (r1, s1)" by (rule prod.exhaust)
  have n1: "named l s \<subseteq> named l s1" using Plan_named [of l s l kind role name] plan by simp
  show "tracked l objects before (snd (capsule_create l kind role name createFn resolve sw))"
  proof (cases r1)
    case (Inl e)
    then show ?thesis using t n1 plan sw by (auto simp: capsule_create_def and_then_def durably_def tracked_def)
  next
    case i: (Inr i)
    obtain r2 s2 where creating: "Recorder_Creating i s1 = (r2, s2)" by (rule prod.exhaust)
    have n2: "named l s1 \<subseteq> named l s2" using Creating_named [of l s1 i] creating by simp
    show ?thesis
    proof (cases r2)
      case (Inl e)
      then show ?thesis using t n1 n2 plan i creating sw by (auto simp: capsule_create_def and_then_def durably_def tracked_def)
    next
      case (Inr u)
      have name: "(kind_text kind, name) \<in> named l s2" using planned_then_creating plan creating i Inr by blast
      obtain r3 s3 w3 where coa: "create_or_adopt kind role createFn resolve (s2, w) = (r3, s3, w3)" by (rule prod_cases3)
      have w3: "objects w3 \<subseteq> before \<union> named l s2" "s3 = s2"
        using create_or_adopt_objects [OF assms, of w "before \<union> named l s2" kind role s2] t n1 n2 name coa sw
        by (auto simp: tracked_def)
      have fin: "objects w3 \<subseteq> before \<union> named l (snd (Recorder_Confirm i o' s2))" for o' using w3(1) Confirm_named [of l s2 i o'] by blast
      show ?thesis
      proof (cases r3)
        case x: (Inr x)
        obtain r4 s4 where c: "Recorder_Confirm i x s2 = (r4, s4)" by (rule prod.exhaust)
        then show ?thesis using fin [of x] w3(2) plan i creating Inr coa sw x
          by (auto simp: capsule_create_def and_then_def durably_def tracked_def give_def split: sum.split)
      next
        case (Inl e)
        then show ?thesis using w3 plan i creating Inr coa sw by (simp add: capsule_create_def and_then_def durably_def tracked_def)
      qed
    qed
  qed
qed

lemma silent_onD: "silent_on objects call \<Longrightarrow> call w = (r, w') \<Longrightarrow> objects w' \<subseteq> objects w"
  unfolding silent_on_def by (metis snd_conv)

lemma stopped_before_silent:
  assumes "creates_named dock objects"
  shows "silent_on objects (stopped_before dock i err)"
proof -
  have st: "silent_on objects (cd_ContainerStatus dock i)" and lg: "silent_on objects (cd_TailLogs dock i 5)"
    using assms by (simp_all add: creates_named_def)
  have lw: "silent_on objects (lastWords dock i)"
    using lg by (simp add: silent_on_def lastWords_def split: prod.split) (metis snd_conv)
  have "objects (snd (stopped_before dock i err w)) \<subseteq> objects w" for w
  proof -
    obtain r w1 where r: "cd_ContainerStatus dock i w = (r, w1)" by (rule prod.exhaust)
    obtain ws w2 where ws: "lastWords dock i w1 = (ws, w2)" by (rule prod.exhaust)
    show ?thesis using silent_onD [OF st r] silent_onD [OF lw ws] by (auto simp: stopped_before_def r ws split: sum.split)
  qed
  then show ?thesis by (simp add: silent_on_def)
qed

lemma awaitState_silent:
  assumes "creates_named dock objects"
  shows "silent_on objects (awaitState dock i want waits)"
proof -
  have ex: "silent_on objects (cd_Exec dock i c)" for c using assms by (simp add: creates_named_def)
  note sb = stopped_before_silent [OF assms, of i "ExitedBefore want"]
  have "objects (snd (awaitState dock i want waits w)) \<subseteq> objects w" for w
  proof (induction waits arbitrary: w)
    case Nil
    obtain r w1 where r: "cd_Exec dock i [SupervisorPath, ''state''] w = (r, w1)" by (rule prod.exhaust)
    obtain e w2 where e: "stopped_before dock i (ExitedBefore want) w1 = (e, w2)" by (rule prod.exhaust)
    show ?case using silent_onD [OF ex r] silent_onD [OF sb e] by (auto simp: r e split: option.split)
  next
    case (Cons x waits)
    obtain r w1 where r: "cd_Exec dock i [SupervisorPath, ''state''] w = (r, w1)" by (rule prod.exhaust)
    obtain e w2 where e: "stopped_before dock i (ExitedBefore want) w1 = (e, w2)" by (rule prod.exhaust)
    show ?case using silent_onD [OF ex r] silent_onD [OF sb e] Cons.IH [of w1] Cons.IH [of w2]
      by (subst awaitState.simps) (auto simp: r e simp del: awaitState.simps split: option.split wait.split)
  qed
  then show ?thesis by (simp add: silent_on_def)
qed

lemma awaitProtocol_silent:
  assumes "creates_named dock objects"
  shows "silent_on objects (awaitProtocol dock i waits)"
proof -
  have ex: "silent_on objects (cd_Exec dock i c)" for c using assms by (simp add: creates_named_def)
  note sb = stopped_before_silent [OF assms, of i undeclared]
  have "objects (snd (awaitProtocol dock i waits w)) \<subseteq> objects w" for w
  proof (induction waits arbitrary: w)
    case Nil
    obtain r w1 where r: "cd_Exec dock i [''cat'', protocolFile] w = (r, w1)" by (rule prod.exhaust)
    obtain e w2 where e: "stopped_before dock i undeclared w1 = (e, w2)" by (rule prod.exhaust)
    show ?case using silent_onD [OF ex r] silent_onD [OF sb e] by (auto simp: r e split: option.split)
  next
    case (Cons x waits)
    obtain r w1 where r: "cd_Exec dock i [''cat'', protocolFile] w = (r, w1)" by (rule prod.exhaust)
    obtain e w2 where e: "stopped_before dock i undeclared w1 = (e, w2)" by (rule prod.exhaust)
    show ?case using silent_onD [OF ex r] silent_onD [OF sb e] Cons.IH [of w1] Cons.IH [of w2]
      by (subst awaitProtocol.simps) (auto simp: r e simp del: awaitProtocol.simps split: option.split wait.split)
  qed
  then show ?thesis by (simp add: silent_on_def)
qed

lemma keeps_cases:
  "keeps I a \<Longrightarrow> (\<And>y. keeps I (b y)) \<Longrightarrow> keeps I (case x of None \<Rightarrow> a | Some y \<Rightarrow> b y)"
  "(\<And>y z. keeps I (c y z)) \<Longrightarrow> keeps I (case p of (y, z) \<Rightarrow> c y z)"
  "keeps I a \<Longrightarrow> keeps I a' \<Longrightarrow> keeps I (if t then a else a')"
  by (auto split: option.split prod.split)

lemmas keeps_intros = keeps_and_then keeps_give keeps_stop keeps_cases keeps_asking keeps_telling keeps_waiting

lemma keeps_prepare:
  assumes "creates_named (la_dock la) objects"
  shows "keeps (tracked (sp_LeaseID spec) objects before) (prepare la spec gwWaits protoWaits readyWaits)"
proof -
  let ?I = "tracked (sp_LeaseID spec) objects before"
  note c = assms [unfolded creates_named_def]
  have obj: "adds objects (kind_text kind, object_name spec role) f \<Longrightarrow> keeps ?I (create_object la spec kind role f)" for kind role f
    unfolding create_object_def using c by (intro keeps_create) simp_all
  have container: "adds objects (KindContainer, cs_Name sp) (cd_CreateContainer (la_dock la) sp)" for sp using c by simp
  have net: "adds objects (KindNetwork, ns_Name sp) (cd_CreateNetwork (la_dock la) sp)" for sp using c by simp
  have names: "cs_Name (gateway_spec la spec p netID) = object_name spec ResourceRoleGateway"
    "cs_Name (capsule_container spec i d g) = object_name spec ResourceRoleCapsule" for p netID i d g
    by (simp_all add: gateway_spec_def capsule_container_def)
  note gateway = container [of "gateway_spec la spec p netID" for p netID, unfolded names]
  note capsule = container [of "capsule_container spec i d g" for i d g, unfolded names]
  note network = net [of "\<lparr>ns_Name = n, ns_Internal = x, ns_Isolated = y, ns_Labels = m\<rparr>" for n x y m, simplified]
  have gw: "keeps ?I (prepareGateway la spec sb gwWaits netID)" for sb netID
    unfolding prepareGateway_def Let_def
    by (intro keeps_intros obj awaitState_silent [OF assms]) (simp_all add: c gateway)
  show ?thesis
    unfolding prepare_def Let_def
    by (intro keeps_intros gw obj awaitState_silent [OF assms] awaitProtocol_silent [OF assms]) (simp_all add: c capsule network)
qed

text \<open>C8. No object of a launch is ever lost track of.  Whatever fails while a capsule is prepared, and at whichever
  point it stops, every object the daemon holds afterwards and did not hold before is named, by kind and name, by a
  resource intent of the lease that is in its creating or present state, which is what cleanup works from.\<close>

theorem no_untracked_object:
  assumes "creates_named (la_dock la) objects" and "prepare la spec gwWaits protoWaits readyWaits (s, w) = (r, s', w')"
  shows "\<forall>x \<in> objects w' - objects w. \<exists>i \<in> set (st_intents s'). in_lease_id i = sp_LeaseID spec \<and>
    (kind_text (in_kind i), in_name i) = x \<and> in_state i \<in> {ResourceCreating, ResourcePresent}"
proof -
  have "tracked (sp_LeaseID spec) objects (objects w) (s, w)" by (simp add: tracked_def)
  then have "tracked (sp_LeaseID spec) objects (objects w) (s', w')"
    using keeps_prepare [OF assms(1)] assms(2) unfolding keeps_def by (metis snd_conv)
  then show ?thesis unfolding tracked_def named_def by auto
qed

text \<open>A daemon that is the list of its objects and refuses to start a container.\<close>

definition demo_dock :: "(string \<times> string) list capsule_daemon"
  where "demo_dock =
    \<lparr>cd_CreateNetwork = (\<lambda>sp w. (Inr (ns_Name sp), (KindNetwork, ns_Name sp) # w)),
     cd_CreateVolume = (\<lambda>name _ w. (Inr name, (KindVolume, name) # w)),
     cd_CreateContainer = (\<lambda>sp w. (Inr (cs_Name sp), (KindContainer, cs_Name sp) # w)),
     cd_StartContainer = (\<lambda>_ w. (Some EngineUnavailable, w)), cd_ConnectNetwork = (\<lambda>_ _ w. (None, w)),
     cd_NetworkSubnet = (\<lambda>_ w. (Inr ''10.0.0.0/24'', w)), cd_ContainerIPOn = (\<lambda>_ _ w. (Inr (''10.0.0.2'', ''10.0.0.0/24''), w)),
     cd_ContainerStatus = (\<lambda>_ w. (Inl EngineNotFound, w)), cd_Exec = (\<lambda>_ _ w. (Inr (0, ''ready''), w)),
     cd_ExecWithInput = (\<lambda>_ _ _ w. (Inr (0, []), w)), cd_OwnedIDByName = (\<lambda>_ _ _ _ w. (Inr [], w)),
     cd_TailLogs = (\<lambda>_ _ w. (Inr [], w))\<rparr>"

lemma demo_dock_creates_named: "creates_named demo_dock set"
  by (auto simp: creates_named_def demo_dock_def adds_def silent_on_def)

definition demo_capsule :: capsule_spec
  where "demo_capsule = \<lparr>sp_LeaseID = ''l2'', sp_InstanceID = ''i1'', sp_AttemptID = ''a1'', sp_TargetID = ''t'', sp_TierID = ''small'',
    sp_CapsuleImage = ''img'', sp_JITConfig = ''jit'', sp_Resources = \<lparr>rs_CPU = 2000000000, rs_Memory = 4294967296, rs_Swap = 0, rs_PIDs = 1024\<rparr>,
    sp_Cache = [], sp_Sandbox = None, sp_CgroupDriver = ''systemd''\<rparr>"

definition demo_launcher :: "(string \<times> string) list launcher"
  where "demo_launcher = \<lparr>la_dock = demo_dock, la_gatewayImage = ''img'', la_encode = (\<lambda>_. [])\<rparr>"

theorem no_untracked_object_witness:
  "case prepare demo_launcher demo_capsule [] [] [] (demo_before, []) of (r, s', w') \<Rightarrow>
     r = Inl (CapsuleDaemon ''start'' EngineUnavailable) \<and> length w' = 3 \<and>
     (\<forall>x \<in> set w'. \<exists>i \<in> set (st_intents s'). in_lease_id i = ''l2'' \<and> (kind_text (in_kind i), in_name i) = x \<and>
        in_state i \<in> {ResourceCreating, ResourcePresent})"
proof -
  obtain r s' w' where run: "prepare demo_launcher demo_capsule [] [] [] (demo_before, []) = (r, s', w')" by (rule prod_cases3)
  have "case prepare demo_launcher demo_capsule [] [] [] (demo_before, []) of (r, s', w') \<Rightarrow>
     r = Inl (CapsuleDaemon ''start'' EngineUnavailable) \<and> length w' = 3" by code_simp
  moreover have "creates_named (la_dock demo_launcher) set" by (simp add: demo_launcher_def demo_dock_creates_named)
  moreover have "sp_LeaseID demo_capsule = ''l2''" by (simp add: demo_capsule_def)
  ultimately show ?thesis using no_untracked_object [OF _ run, of set] by (simp add: run)
qed

section \<open>One envelope\<close>

text \<open>C27. A lease's two containers share its tier exactly: for a tier the configuration admits, the capsule's limits
  and the gateway's add up to the limits the capsule would have alone, in memory, memory with swap, processor time
  and processes, nothing wraps around, and each container is left with something.\<close>

theorem tier_shared_exactly:
  assumes "GatewayReserveMemory < rs_Memory r" "GatewayReserveCPUs < rs_CPU r" "GatewayReservePIDs < rs_PIDs r" "0 \<le> rs_Swap r"
    and "rs_Memory r + rs_Swap r < 2 ^ 63" "rs_CPU r < 2 ^ 63" "rs_PIDs r < 2 ^ 63"
  defines "whole \<equiv> SplitEnvelope r False" and "share \<equiv> SplitEnvelope r True"
  shows "en_MemoryBytes share + en_MemoryBytes GatewayEnvelope = en_MemoryBytes whole \<and>
    en_MemorySwapBytes share + en_MemorySwapBytes GatewayEnvelope = en_MemorySwapBytes whole \<and>
    en_NanoCPUs share + en_NanoCPUs GatewayEnvelope = en_NanoCPUs whole \<and>
    en_PIDsLimit share + en_PIDsLimit GatewayEnvelope = en_PIDsLimit whole \<and>
    0 < en_MemoryBytes share \<and> en_MemoryBytes share \<le> en_MemorySwapBytes share \<and> 0 < en_NanoCPUs share \<and> 0 < en_PIDsLimit share"
  using assms by (simp add: SplitEnvelope_def GatewayEnvelope_def Let_def GatewayReserveMemory_def GatewayReserveCPUs_def
      GatewayReservePIDs_def)

theorem tier_shared_exactly_witness:
  "en_MemoryBytes (SplitEnvelope \<lparr>rs_CPU = 2000000000, rs_Memory = 4294967296, rs_Swap = 0, rs_PIDs = 1024\<rparr> True) + 134217728 = 4294967296"
  using tier_shared_exactly [of "\<lparr>rs_CPU = 2000000000, rs_Memory = 4294967296, rs_Swap = 0, rs_PIDs = 1024\<rparr>"]
  by (simp add: GatewayReserveMemory_def GatewayReserveCPUs_def GatewayReservePIDs_def GatewayEnvelope_def)
    (simp add: SplitEnvelope_def Let_def)

section \<open>What an inspection proves\<close>

text \<open>C28. A runtime is called unstarted only on proof.  An inspection answers that execution never began only when the
  daemon says the container was never started, or it stopped with the exit code reserved for an abort, or it is up,
  speaks this controller's protocol version and its supervisor reports a state that precedes the start or an abort.
  A start that was authorized and not yet settled is never among them.\<close>

theorem unstarted_only_on_proof:
  assumes "InspectExecution dock i w = ((obs, ok), w')" and "obs \<in> {ObservedCreated, ObservedNeverStarted}"
  shows "\<exists>state w1. cd_ContainerStatus dock i w = (Inr state, w1) \<and>
    (ct_Status state = StatusCreated \<or>
     ct_Status state \<in> {StatusExited, StatusDead} \<and> ct_ExitCode state = AbortedExitCode \<or>
     ct_Status state \<in> {StatusRunning, StatusPaused, StatusRestarting} \<and>
     (\<exists>v w2 out. cd_Exec dock i [''cat'', protocolFile] w1 = (Inr (0, v), w2) \<and> TrimSpace v = ProtocolVersion \<and>
        cd_Exec dock i [SupervisorPath, ''state''] w2 = (Inr (0, out), w') \<and>
        (TrimSpace out \<in> {''booting'', ''waiting''} \<or> HasPrefix (TrimSpace out) ''aborted:'')))"
proof -
  obtain r w1 where r: "cd_ContainerStatus dock i w = (r, w1)" by (rule prod.exhaust)
  obtain state where state: "r = Inr state" using assms r by (cases r) (auto simp: InspectExecution_def split: if_splits)
  show ?thesis
  proof (cases "ct_Status state \<in> {StatusRunning, StatusPaused, StatusRestarting}")
    case False
    then have "ct_Status state = StatusCreated \<or> ct_Status state \<in> {StatusExited, StatusDead} \<and> ct_ExitCode state = AbortedExitCode"
      using assms r state
      by (cases "ct_Status state") (auto simp: InspectExecution_def classifyContainerState_def ClassifyExit_def split: if_splits)
    then show ?thesis using r state by blast
  next
    case True
    obtain v w2 where v: "cd_Exec dock i [''cat'', protocolFile] w1 = (v, w2)" by (rule prod.exhaust)
    obtain x w3 where x: "cd_Exec dock i [SupervisorPath, ''state''] w2 = (x, w3)" by (rule prod.exhaust)
    have ask: "classifyContainerState state = (ObservedUnavailable, True, True)" using True by (auto simp: classifyContainerState_def)
    have "\<exists>t. v = Inr (0, t) \<and> TrimSpace t = ProtocolVersion"
      using assms r state ask v
      by (cases v) (auto simp: InspectExecution_def confirmProtocol_def protocolVerdict_def Let_def split: if_splits prod.splits)
    then obtain t where t: "v = Inr (0, t)" "TrimSpace t = ProtocolVersion" by blast
    have "\<exists>out. x = Inr (0, out) \<and> w3 = w' \<and> (TrimSpace out \<in> {''booting'', ''waiting''} \<or> HasPrefix (TrimSpace out) ''aborted:'')"
      using assms r state ask v x t
      by (cases x) (auto simp: InspectExecution_def confirmProtocol_def protocolVerdict_def classifySupervisorState_def StateWaiting_def
          Let_def split: if_splits)
    then show ?thesis using r state True v t x by blast
  qed
qed

definition demo_inspected :: "string \<Rightarrow> (string \<times> string) list capsule_daemon"
  where "demo_inspected word = demo_dock\<lparr>
    cd_ContainerStatus := (\<lambda>_ w. (Inr \<lparr>ct_Status = StatusRunning, ct_ExitCode = 0, ct_OOMKilled = False\<rparr>, w)),
    cd_Exec := (\<lambda>_ c w. (Inr (0, if c = [''cat'', protocolFile] then ''3'' else word), w))\<rparr>"

theorem unstarted_only_on_proof_witness:
  "InspectExecution (demo_inspected ''waiting'') ''c'' [] = ((ObservedCreated, True), []) \<and>
   fst (InspectExecution (demo_inspected ''starting'') ''c'' []) = (ObservedUnavailable, True) \<and>
   (\<exists>state w1. cd_ContainerStatus (demo_inspected ''waiting'') ''c'' [] = (Inr state, w1) \<and> ct_Status state = StatusRunning)"
proof -
  have run: "InspectExecution (demo_inspected ''waiting'') ''c'' [] = ((ObservedCreated, True), [])" by code_simp
  have "fst (InspectExecution (demo_inspected ''starting'') ''c'' []) = (ObservedUnavailable, True)" by code_simp
  then show ?thesis using unstarted_only_on_proof [OF run] run by (simp add: demo_inspected_def)
qed

end
