(* ===== verification/Spec2Isabelle.thy ===== *)
theory Spec2Isabelle
  imports Prelude Waterfill Plan PlanBounds PlanGlobal Allocator AllocatorInv PlanCache AllocatorReach AllocatorProps Discovery
    Disk StoreSchema Assignment StoreAttempts StoreServing StoreResources StoreInv StoreReach StoreBudget StoreProps AtMostOnce
    LeaseManager LeaseProps Removal GoText Engine EngineProps Netip Egress EgressProps EgressRanges Gateway Relay GatewayProps RelayProps DnsRelay CacheGC CacheProps Monitor MonitorProps
    NetSandbox NetSandboxProps SandboxLaunch Capsule CapsuleProps
begin

text \<open>
  \<^bold>\<open>Runpool: a verification development.\<close>

  Runpool runs CI jobs on one host.  A provider assigns workloads; the controller announces how much it can take,
  records each assignment durably, leases it to a capsule (a container with its own Docker daemon, behind an egress
  gateway), watches the capsule to its end and cleans up.  This library models the parts of the controller, of the
  gateway and of the store that decide, and proves what they promise.  Paths below are under \<^verbatim>\<open>src/internal\<close>.

  \<^bold>\<open>The parts and how they meet.\<close>  The credit pool (\<^verbatim>\<open>allocator\<close>) divides capacity among bindings and is the gate of
  admission.  The store (\<^verbatim>\<open>store\<close>) holds deliveries, attempts, leases, resource intents and cache lanes; every
  component that must survive a crash goes through its transactions.  The lease manager (\<^verbatim>\<open>lease\<close>) ends a serving: it
  removes what the intents name and disposes of the attempt in one transaction.  The capsule launcher (\<^verbatim>\<open>capsule\<close>)
  creates objects through the lease manager's recorder and asks the engine adapter (\<^verbatim>\<open>engine/docker\<close>).  The network
  sandbox (\<^verbatim>\<open>netsandbox\<close>) discovers what must be denied and tells the gateways (\<^verbatim>\<open>gateway\<close>), which apply an egress
  policy (\<^verbatim>\<open>egress\<close>) in the kernel and in their relay.  The disk monitor (\<^verbatim>\<open>app/monitor.go\<close>) measures the daemon's
  filesystem, decides a level (\<^verbatim>\<open>disk\<close>), holds the pool and collects cache lanes (\<^verbatim>\<open>cache\<close>).

  \<^bold>\<open>Theories and sources.\<close>
  \<^item> \<^verbatim>\<open>Prelude\<close>: identifier types (\<^verbatim>\<open>assignment/ids.go\<close>), Go maps, the signed 64-bit wrap-around \<^verbatim>\<open>i64\<close>, shared lemmas.
    \<^verbatim>\<open>GoText\<close> and \<^verbatim>\<open>Netip\<close>: what the program uses of \<^verbatim>\<open>strings\<close>, \<^verbatim>\<open>strconv\<close> and \<^verbatim>\<open>net/netip\<close>, addresses as words.
  \<^item> \<^verbatim>\<open>Waterfill\<close>, \<^verbatim>\<open>Plan\<close>, \<^verbatim>\<open>PlanBounds\<close>, \<^verbatim>\<open>PlanGlobal\<close>: \<^verbatim>\<open>allocator/plan.go\<close>.  \<^verbatim>\<open>Allocator\<close>: every operation of
    \<^verbatim>\<open>allocator/allocator.go\<close>, one function per critical section.  \<^verbatim>\<open>AllocatorInv\<close>, \<^verbatim>\<open>PlanCache\<close>, \<^verbatim>\<open>AllocatorReach\<close>,
    \<^verbatim>\<open>AllocatorProps\<close>, \<^verbatim>\<open>Discovery\<close>: the invariant, the reachable states (operations in any order, with every poll ever
    handed out available for completion at any time) and the properties.
  \<^item> \<^verbatim>\<open>StoreSchema\<close>: the tables of \<^verbatim>\<open>store/migrations\<close> as records, statements and transactions.  \<^verbatim>\<open>StoreAttempts\<close>,
    \<^verbatim>\<open>StoreServing\<close>, \<^verbatim>\<open>StoreResources\<close>: \<^verbatim>\<open>assignment_repository.go\<close>, \<^verbatim>\<open>evidence.go\<close>, \<^verbatim>\<open>serving.go\<close>, \<^verbatim>\<open>lease.go\<close>,
    \<^verbatim>\<open>leasetx.go\<close>, \<^verbatim>\<open>cache.go\<close>, \<^verbatim>\<open>pressure.go\<close>, \<^verbatim>\<open>purge.go\<close> with the SQL they run.  \<^verbatim>\<open>StoreInv\<close>, \<^verbatim>\<open>StoreReach\<close>,
    \<^verbatim>\<open>StoreBudget\<close>, \<^verbatim>\<open>StoreProps\<close>, \<^verbatim>\<open>AtMostOnce\<close>: invariants over every history of calls.  \<^verbatim>\<open>Assignment\<close>:
    \<^verbatim>\<open>assignment/assignment.go\<close>, the vocabulary and the fingerprints of a delivery.
  \<^item> \<^verbatim>\<open>LeaseManager\<close>: \<^verbatim>\<open>lease/lease.go\<close>.  \<^verbatim>\<open>LeaseProps\<close>, \<^verbatim>\<open>Removal\<close>: how a serving ends.
  \<^item> \<^verbatim>\<open>Engine\<close>, \<^verbatim>\<open>EngineProps\<close>: \<^verbatim>\<open>engine/engine.go\<close> and \<^verbatim>\<open>engine/docker\<close> over a record of Moby calls.
  \<^item> \<^verbatim>\<open>Egress\<close>, \<^verbatim>\<open>EgressProps\<close>, \<^verbatim>\<open>EgressRanges\<close>: \<^verbatim>\<open>egress/egress.go\<close>.  \<^verbatim>\<open>Gateway\<close>, \<^verbatim>\<open>Relay\<close>, \<^verbatim>\<open>DnsRelay\<close> with
    \<^verbatim>\<open>GatewayProps\<close> and \<^verbatim>\<open>RelayProps\<close>: \<^verbatim>\<open>gateway/policy.go\<close>, \<^verbatim>\<open>gateway.go\<close>, \<^verbatim>\<open>firewall.go\<close>, \<^verbatim>\<open>proxy.go\<close>, \<^verbatim>\<open>dns.go\<close>.
  \<^item> \<^verbatim>\<open>NetSandbox\<close>, \<^verbatim>\<open>NetSandboxProps\<close>, \<^verbatim>\<open>SandboxLaunch\<close>: \<^verbatim>\<open>netsandbox/netsandbox.go\<close> over a fleet of modelled gateways.
  \<^item> \<^verbatim>\<open>Disk\<close>: \<^verbatim>\<open>disk/disk.go\<close>.  \<^verbatim>\<open>Monitor\<close>, \<^verbatim>\<open>MonitorProps\<close>: \<^verbatim>\<open>app/monitor.go\<close> composed with the pool and the store.
    \<^verbatim>\<open>CacheGC\<close>, \<^verbatim>\<open>CacheProps\<close>: \<^verbatim>\<open>cache/cache.go\<close> and \<^verbatim>\<open>cache/gc.go\<close>.
  \<^item> \<^verbatim>\<open>Capsule\<close>, \<^verbatim>\<open>CapsuleProps\<close>: \<^verbatim>\<open>capsule/capsule.go\<close>, \<^verbatim>\<open>envelope.go\<close>, \<^verbatim>\<open>observation.go\<close>.

  \<^bold>\<open>What the lemmas show.\<close>
  \<^item> Capacity: what the provider may use never exceeds the configured parallelism, whatever polls are in flight; the
    counters are the sums they stand for; a plan meets its limits, is max-min fair and its cache is coherent; the
    discovery credit is placed again after a thaw, and one case leaves it parked.
  \<^item> Durable state: the schema's constraints hold after every history of calls; a start is authorized at most once
    unless the attempt is reopened; servings stay within the retry budget; evidence only climbs.
  \<^item> Ending a serving: finalization is all or nothing; an attempt returns to the queue only on proof that nothing ran;
    an object is forgotten only when it is gone, and an object that does not carry the lease's stamp is never removed.
  \<^item> Egress: the kernel's ruleset and the relay decide alike; only allowed addresses are dialled; closing a gateway
    closes both layers; a recorded policy is in force in every gateway that relays; a confirmed launch is confined;
    and one sequence of failures leaves the books and a gateway apart without a later pass noticing.
  \<^item> Pressure and caches: the pool is held exactly while the level in force is closed, and opens only behind a
    committed verdict; a collection plan is sound and running it, however stale, never takes a leased lane.
  \<^item> Launching: every object a launch created is named by an intent, whatever failed; an inspection calls a runtime
    unstarted only on proof.

  \<^bold>\<open>Conventions.\<close>  A handler is a function on explicit state; an error is the left value of a sum or an option.  A Go
  map that is ranged over is an association list, and theorems hold for every order.  Sums of bytes wrap at 64 bits.
  Code that is not in this repository is a parameter: the Moby client and its daemon, SHA-256, JSON, the resolver and
  the dialler, random identifiers, jitter and the clock.  What a theorem needs of a parameter is a named hypothesis,
  and its witness instantiates the parameter with a concrete function.  Interfaces of the source are locales, each
  interpreted on the modelled provider of that interface.

  \<^bold>\<open>Bounds.\<close>  The one counter that bounds a recursion is that of the discovery ring, which the source walks once:
  it starts at the ring's length, the bound of the source's own loop.  A wait is the list of the polls its deadline allows, so a result about every
  such list is a result about every deadline.  Lost and late commands to a gateway are a script of faults, and the
  order in which concurrent calls reach the gateways is an arbitrary permutation; results hold for every script and
  order.  Loops that are not structural have a termination proof by a measure.

  \<^bold>\<open>Not modelled.\<close>  The provider's HTTP session and its JSON messages; the controller's assembly, goroutines, signals
  and operations socket; launching and reconciling as loops over leases (their steps are the operations above); the
  capsule supervisor, which forks processes inside the capsule; configuration decoding; the command line and its
  tables; host checks, digests and release evidence; credentials and atomic file replacement; opening, locking,
  backing up and migrating the SQLite file.  These are input and output, process control, or libraries the sources
  only call; what the modelled parts rely on of them is a parameter or a hypothesis.
\<close>

end
